(* ===== verification/Prelude.thy ===== *)
theory Prelude
  imports
    Complex_Main
    "HOL-Library.Word"
    "HOL-Library.Signed_Division"
    "HOL-Library.List_Lexorder"
    "HOL-Library.Char_ord"
begin

text \<open>
  Shared vocabulary of the development: the machine types of the C++ sources, the ways a
  call can fail to return, sequencing of calls that can fail, the idealised \<open>double\<close>
  and C's truncating division, with the lemmas every component uses.

  Machine integers are words of the width the source gives them; a signed integer is the same
  word read with \<open>sint\<close>. An \<open>assert\<close> of the source is modelled as in a build with
  assertions enabled (the CMake file never defines \<open>NDEBUG\<close> for its default build type):
  a violated assertion is an \<open>abort\<close>.

  A \<open>double\<close> is an exact real number, one of the two infinities or NaN. Rounding to 53 bits
  is not modelled; division by zero, NaN and the infinities are, because the source reaches them.
\<close>

unbundle bit_operations_syntax

section \<open>Collections of rewrite rules\<close>

named_theorems frame_simps \<open>fields an operation does not write\<close>
named_theorems wf_intros \<open>well-formedness of results\<close>
named_theorems word_nat \<open>reading word arithmetic as arithmetic on natural numbers\<close>

section \<open>Machine types\<close>

type_synonym byte = "8 word"
type_synonym u16 = "16 word"
type_synonym u32 = "32 word"
type_synonym u64 = "64 word"
type_synonym i32 = "32 word"
type_synonym i64 = "64 word"

section \<open>Failure\<close>

text \<open>
  How a call of the source can end without returning: a failed \<open>assert\<close>, a standard library
  exception nobody catches (\<open>std::vector::at\<close>, \<open>std::map::at\<close>, \<open>std::thread::join\<close>
  on a thread that is not joinable, an empty \<open>std::function\<close>), \<open>std::terminate\<close>,
  \<open>exit\<close>, a hardware trap, or undefined behaviour that the source can reach; \<open>NoReturn\<close> is a
  call that waits for ever.
\<close>

datatype abort =
    AssertFailed
  | OutOfRange
  | InvalidJoin
  | BadFunctionCall
  | Terminated
  | Exited int
  | DivideByZero
  | NullPointer
  | BadCast
  | OutOfBounds
  | NoReturn

type_synonym 'a result = "abort + 'a"

definition bind_res :: "'a result \<Rightarrow> ('a \<Rightarrow> 'b result) \<Rightarrow> 'b result" where
  "bind_res m f = (case m of Inl e \<Rightarrow> Inl e | Inr x \<Rightarrow> f x)"

lemma bind_res_simps [simp]:
  "bind_res (Inl e) f = Inl e"
  "bind_res (Inr x) f = f x"
  by (simp_all add: bind_res_def)

lemma bind_res_eq_Inr [simp]:
  "bind_res m f = Inr y \<longleftrightarrow> (\<exists>x. m = Inr x \<and> f x = Inr y)"
  by (cases m) auto

lemma bind_res_eq_Inl:
  "bind_res m f = Inl e \<longleftrightarrow> m = Inl e \<or> (\<exists>x. m = Inr x \<and> f x = Inl e)"
  by (cases m) auto

definition assert_res :: "bool \<Rightarrow> unit result" where
  "assert_res b = (if b then Inr () else Inl AssertFailed)"

lemma assert_res_simps [simp]:
  "assert_res b = Inr u \<longleftrightarrow> b"
  "assert_res True = Inr ()"
  "assert_res False = Inl AssertFailed"
  by (simp_all add: assert_res_def)

fun fold_res :: "('s \<Rightarrow> 'a \<Rightarrow> 's result) \<Rightarrow> 's \<Rightarrow> 'a list \<Rightarrow> 's result" where
  "fold_res f s [] = Inr s"
| "fold_res f s (x # xs) = bind_res (f s x) (\<lambda>s'. fold_res f s' xs)"

lemma fold_res_append:
  "fold_res f s (xs @ ys) = bind_res (fold_res f s xs) (\<lambda>s'. fold_res f s' ys)"
  by (induction xs arbitrary: s) (auto simp: bind_res_def split: sum.splits)

lemma fold_res_pure:
  assumes "\<And>s x. x \<in> set xs \<Longrightarrow> f s x = Inr (g s x)"
  shows "fold_res f s xs = Inr (foldl g s xs)"
  using assms by (induction xs arbitrary: s) auto

text \<open>An invariant that every step keeps holds after the loop.\<close>

lemma fold_res_invariant:
  assumes "fold_res f s xs = Inr t" and "P s"
    and "\<And>s x s'. x \<in> set xs \<Longrightarrow> P s \<Longrightarrow> f s x = Inr s' \<Longrightarrow> P s'"
  shows "P t"
  using assms
proof (induction xs arbitrary: s)
  case (Cons x xs)
  from Cons.prems(1) obtain s' where x: "f s x = Inr s'" and xs: "fold_res f s' xs = Inr t"
    by auto
  have "P s'" using Cons.prems(2,3) x by auto
  with xs Cons.IH Cons.prems(3) show ?case by auto
qed simp

text \<open>A loop returns when each of its steps returns from a state that satisfies the invariant.\<close>

lemma fold_res_returns:
  assumes "P s"
    and "\<And>s x. x \<in> set xs \<Longrightarrow> P s \<Longrightarrow> \<exists>s'. f s x = Inr s' \<and> P s'"
  shows "\<exists>t. fold_res f s xs = Inr t \<and> P t"
  using assms
proof (induction xs arbitrary: s)
  case (Cons x xs)
  from Cons.prems obtain s' where "f s x = Inr s'" "P s'" by force
  with Cons.IH [of s'] Cons.prems(2) show ?case by auto
qed simp

section \<open>Doubles\<close>

datatype double = DFin real | DPosInf | DNegInf | DNaN

fun dadd :: "double \<Rightarrow> double \<Rightarrow> double" where
  "dadd (DFin a) (DFin b) = DFin (a + b)"
| "dadd DNaN _ = DNaN"
| "dadd _ DNaN = DNaN"
| "dadd DPosInf DNegInf = DNaN"
| "dadd DNegInf DPosInf = DNaN"
| "dadd DPosInf _ = DPosInf"
| "dadd _ DPosInf = DPosInf"
| "dadd DNegInf _ = DNegInf"
| "dadd _ DNegInf = DNegInf"

definition dsign :: "double \<Rightarrow> int" where
  "dsign d = (case d of DFin a \<Rightarrow> (if 0 < a then 1 else if a < 0 then -1 else 0)
     | DPosInf \<Rightarrow> 1 | DNegInf \<Rightarrow> -1 | DNaN \<Rightarrow> 0)"

definition dinf :: "int \<Rightarrow> double" where
  "dinf s = (if 0 < s then DPosInf else if s < 0 then DNegInf else DNaN)"

fun dmul :: "double \<Rightarrow> double \<Rightarrow> double" where
  "dmul (DFin a) (DFin b) = DFin (a * b)"
| "dmul DNaN _ = DNaN"
| "dmul _ DNaN = DNaN"
| "dmul x y = dinf (dsign x * dsign y)"

text \<open>Zero is unsigned here: the sources divide by sizes, counts, sums of times and constants.\<close>

fun ddiv :: "double \<Rightarrow> double \<Rightarrow> double" where
  "ddiv (DFin a) (DFin b) =
     (if b = 0 then dinf (dsign (DFin a)) else DFin (a / b))"
| "ddiv DNaN _ = DNaN"
| "ddiv _ DNaN = DNaN"
| "ddiv (DFin _) _ = DFin 0"
| "ddiv x (DFin b) = dinf (dsign x * (if b < 0 then -1 else 1))"
| "ddiv _ _ = DNaN"

definition double_of_int :: "int \<Rightarrow> double" where
  "double_of_int n = DFin (of_int n)"

definition is_nan :: "double \<Rightarrow> bool" where
  "is_nan d = (d = DNaN)"

text \<open>
  Conversion of a double to a 32-bit \<open>int\<close> truncates; a value that does not fit (NaN
  included) has no defined result.
\<close>

definition trunc_real :: "real \<Rightarrow> int" where
  "trunc_real x = (if 0 \<le> x then \<lfloor>x\<rfloor> else \<lceil>x\<rceil>)"

definition double_to_int32 :: "double \<Rightarrow> int result" where
  "double_to_int32 d = (case d of
       DFin x \<Rightarrow> (let n = trunc_real x in
         if - (2 ^ 31) \<le> n \<and> n < 2 ^ 31 then Inr n else Inl BadCast)
     | _ \<Rightarrow> Inl BadCast)"

lemma trunc_real_of_int [simp]: "trunc_real (of_int n) = n"
  by (simp add: trunc_real_def)

lemma trunc_real_nonneg: "0 \<le> x \<Longrightarrow> trunc_real x = \<lfloor>x\<rfloor>"
  by (simp add: trunc_real_def)

section \<open>Signed division\<close>

text \<open>C++ integer division truncates towards zero and traps on a zero divisor.\<close>

definition sdiv64 :: "i64 \<Rightarrow> i64 \<Rightarrow> i64 result" where
  "sdiv64 a b = (if b = 0 then Inl DivideByZero else Inr (word_of_int (sint a sdiv sint b)))"

definition udiv64 :: "u64 \<Rightarrow> u64 \<Rightarrow> u64 result" where
  "udiv64 a b = (if b = 0 then Inl DivideByZero else Inr (a div b))"

section \<open>Word arithmetic\<close>

lemma unat_add_small [word_nat]: "unat a + n < 2 ^ 32 \<Longrightarrow> unat (a + of_nat n :: u32) = unat a + n"
  by (simp add: unat_word_ariths unat_of_nat)

end
