(* ===== verification/Std_Map.thy ===== *)
theory Std_Map
  imports Prelude
begin

text \<open>
  \<open>std::map\<close> as the sources use it: a list of key/value pairs in strictly ascending key order,
  so that a range-based loop over the map is a loop over the list. \<open>map_of\<close> is \<open>find\<close>;
  \<open>map_set\<close> is an assignment through \<open>operator[]\<close>; \<open>map_touch\<close> is the default
  insertion that \<open>operator[]\<close> performs when it only reads; \<open>map_modify\<close> is an
  operation on \<open>m[k]\<close> in place. The locale states the contract of a dictionary and what a
  client can conclude from it; the list implementation is its interpretation.
\<close>

section \<open>Dictionaries\<close>

locale dictionary =
  fixes empty :: "'m"
    and put :: "'k \<Rightarrow> 'v \<Rightarrow> 'm \<Rightarrow> 'm"
    and get :: "'m \<Rightarrow> 'k \<Rightarrow> 'v option"
    and ordered :: "'m \<Rightarrow> bool"
  assumes get_empty: "get empty = (\<lambda>_. None)"
    and get_put: "get (put k v m) = (get m)(k \<mapsto> v)"
    and ordered_empty: "ordered empty"
    and ordered_put: "ordered m \<Longrightarrow> ordered (put k v m)"
begin

lemma get_put_all:
  "get (fold (\<lambda>(k, v). put k v) kvs m) = get m ++ map_of (rev kvs)"
proof (induction kvs arbitrary: m)
  case (Cons kv kvs)
  show ?case
    by (cases kv) (auto simp: Cons.IH get_put map_add_def fun_eq_iff split: option.splits)
qed simp

lemma ordered_put_all: "ordered m \<Longrightarrow> ordered (fold (\<lambda>(k, v). put k v) kvs m)"
  by (induction kvs arbitrary: m) (auto simp: ordered_put)

lemma get_put_all_other:
  "k \<notin> fst ` set kvs \<Longrightarrow> get (fold (\<lambda>(k, v). put k v) kvs m) k = get m k"
  by (auto simp: get_put_all map_add_def map_of_eq_None_iff split: option.splits
      dest!: map_of_SomeD intro: rev_image_eqI)

lemma get_put_all_distinct:
  "distinct (map fst kvs) \<Longrightarrow> (k, v) \<in> set kvs \<Longrightarrow>
     get (fold (\<lambda>(k, v). put k v) kvs m) k = Some v"
  by (simp add: get_put_all map_add_def rev_map [symmetric])

end

section \<open>The implementation\<close>

type_synonym ('k, 'v) std_map = "('k \<times> 'v) list"

fun map_set :: "'k :: linorder \<Rightarrow> 'v \<Rightarrow> ('k, 'v) std_map \<Rightarrow> ('k, 'v) std_map" where
  "map_set k v [] = [(k, v)]"
| "map_set k v ((k', v') # m) =
     (if k < k' then (k, v) # (k', v') # m
      else if k = k' then (k, v) # m
      else (k', v') # map_set k v m)"

definition map_wf :: "('k :: linorder, 'v) std_map \<Rightarrow> bool" where
  "map_wf m = sorted_wrt (<) (map fst m)"

definition map_touch :: "'k :: linorder \<Rightarrow> 'v \<Rightarrow> ('k, 'v) std_map \<Rightarrow> ('k, 'v) std_map" where
  "map_touch k d m = (if map_of m k = None then map_set k d m else m)"

definition map_modify ::
  "'k :: linorder \<Rightarrow> 'v \<Rightarrow> ('v \<Rightarrow> 'v result) \<Rightarrow> ('k, 'v) std_map \<Rightarrow> ('k, 'v) std_map result" where
  "map_modify k d f m =
     bind_res (f (case map_of m k of None \<Rightarrow> d | Some v \<Rightarrow> v)) (\<lambda>v. Inr (map_set k v m))"

text \<open>A loop \<open>for (auto& pair : m)\<close> that changes each value in place.\<close>

fun map_values_res :: "('v \<Rightarrow> 'w result) \<Rightarrow> ('k, 'v) std_map \<Rightarrow> ('k, 'w) std_map result" where
  "map_values_res f [] = Inr []"
| "map_values_res f ((k, v) # m) =
     bind_res (f v) (\<lambda>w. bind_res (map_values_res f m) (\<lambda>m'. Inr ((k, w) # m')))"

lemma fst_set_map_set: "fst ` set (map_set k v m) = insert k (fst ` set m)"
  by (induction k v m rule: map_set.induct) auto

lemma map_of_map_set: "map_of (map_set k v m) = (map_of m)(k \<mapsto> v)"
  by (induction k v m rule: map_set.induct) (auto simp: fun_eq_iff)

lemma map_wf_map_set: "map_wf m \<Longrightarrow> map_wf (map_set k v m)"
  unfolding map_wf_def
proof (induction k v m rule: map_set.induct)
  case (2 k v k' v' m)
  then show ?case
    using fst_set_map_set [of k v m] by auto
qed simp

interpretation std_map: dictionary "[] :: ('k :: linorder, 'v) std_map" map_set map_of map_wf
proof
  show "map_of ([] :: ('k \<times> 'v) list) = (\<lambda>_. None)" by auto
qed (simp_all add: map_of_map_set map_wf_map_set, simp add: map_wf_def)

lemma map_wf_distinct: "map_wf m \<Longrightarrow> distinct (map fst m)"
  by (simp add: map_wf_def strict_sorted_iff flip: strict_sorted_equal)

lemma map_wf_Cons:
  "map_wf ((k, v) # m) \<longleftrightarrow> (\<forall>k' \<in> fst ` set m. k < k') \<and> map_wf m"
  by (auto simp: map_wf_def)

lemma map_of_map_touch:
  "map_of (map_touch k d m) = (map_of m)(k \<mapsto> (case map_of m k of None \<Rightarrow> d | Some v \<Rightarrow> v))"
  by (auto simp: map_touch_def map_of_map_set split: option.splits)

lemma map_wf_map_touch: "map_wf m \<Longrightarrow> map_wf (map_touch k d m)"
  by (simp add: map_touch_def map_wf_map_set)

lemma map_modify_eq_Inr:
  "map_modify k d f m = Inr m' \<longleftrightarrow>
     (\<exists>v. f (case map_of m k of None \<Rightarrow> d | Some v \<Rightarrow> v) = Inr v \<and> m' = map_set k v m)"
  by (auto simp: map_modify_def)

lemma map_values_res_keys: "map_values_res f m = Inr m' \<Longrightarrow> map fst m' = map fst m"
  by (induction f m arbitrary: m' rule: map_values_res.induct) auto

lemma map_values_res_wf: "map_values_res f m = Inr m' \<Longrightarrow> map_wf m' = map_wf m"
  by (simp add: map_wf_def map_values_res_keys)

lemma map_values_res_map_of:
  "map_values_res f m = Inr m' \<Longrightarrow> map_of m k = Some v \<Longrightarrow>
     \<exists>w. f v = Inr w \<and> map_of m' k = Some w"
  by (induction f m arbitrary: m' rule: map_values_res.induct) (auto split: if_splits)

lemma map_values_res_all2:
  "map_values_res f m = Inr m' \<longleftrightarrow>
     list_all2 (\<lambda>(k, v) (k', w). k' = k \<and> f v = Inr w) m m'"
proof (induction f m arbitrary: m' rule: map_values_res.induct)
  case (2 f k v m)
  then show ?case by (cases m') (auto split: prod.splits)
qed (auto)

lemma map_values_res_pure:
  "(\<And>k v. (k, v) \<in> set m \<Longrightarrow> f v = Inr (g v)) \<Longrightarrow>
     map_values_res f m = Inr (map (\<lambda>(k, v). (k, g v)) m)"
  by (induction f m rule: map_values_res.induct) auto

text \<open>A property of all values.\<close>

lemma map_set_all: "P v \<Longrightarrow> list_all P (map snd m) \<Longrightarrow> list_all P (map snd (map_set k v m))"
  by (induction k v m rule: map_set.induct) auto

lemma map_values_res_all:
  "map_values_res f m = Inr m' \<Longrightarrow> (\<And>v w. f v = Inr w \<Longrightarrow> P v \<Longrightarrow> Q w) \<Longrightarrow>
     list_all P (map snd m) \<Longrightarrow> list_all Q (map snd m')"
  by (induction f m arbitrary: m' rule: map_values_res.induct) auto

lemma map_of_all: "list_all P (map snd m) \<Longrightarrow> map_of m k = Some v \<Longrightarrow> P v"
  by (auto simp: list_all_iff dest!: map_of_SomeD)

text \<open>Filling an empty map in key order reproduces the list of assignments.\<close>

lemma map_set_append: "(\<forall>k' \<in> fst ` set m. k' < k) \<Longrightarrow> map_set k v m = m @ [(k, v)]"
  by (induction k v m rule: map_set.induct) auto

lemma fold_map_set_sorted:
  "map_wf (m @ kvs) \<Longrightarrow> fold (\<lambda>(k, v). map_set k v) kvs m = m @ kvs"
proof (induction kvs arbitrary: m)
  case (Cons kv kvs)
  obtain k v where kv: "kv = (k, v)" by (cases kv)
  have "map_set k v m = m @ [(k, v)]"
    using Cons.prems kv by (intro map_set_append) (auto simp: map_wf_def sorted_wrt_append)
  with Cons.IH [of "m @ [(k, v)]"] Cons.prems kv show ?case by simp
qed simp

end
