(* ===== verification/Values.thy ===== *)
theory Values
  imports Std_Map
begin

text \<open>
  \<open>CollectorValue\<close> and \<open>CollectorValueList\<close> of \<open>interface.hpp\<close>: the samples of one
  counter, their common type, and the averages that replace them when a looping test is summarised.
  The type tag of a list is set by its first sample, and every later sample must agree with it;
  \<open>vl_wf\<close> is that agreement, and every operation keeps it.
\<close>

section \<open>Values\<close>

text \<open>
  The union is modelled by the member that was last written. Reading a 64-bit integer through the
  other integer member gives the same bits; reading a double as an integer, or the reverse, is not
  something the sources do, and is a failure here.
\<close>

datatype CollectorValue = CV_fp64 double | CV_u64 u64 | CV_i64 i64

fun cv_fp64 :: "CollectorValue \<Rightarrow> double result" where
  "cv_fp64 (CV_fp64 d) = Inr d"
| "cv_fp64 _ = Inl BadCast"

fun cv_u64 :: "CollectorValue \<Rightarrow> u64 result" where
  "cv_u64 (CV_u64 w) = Inr w"
| "cv_u64 (CV_i64 w) = Inr w"
| "cv_u64 (CV_fp64 _) = Inl BadCast"

fun cv_i64 :: "CollectorValue \<Rightarrow> i64 result" where
  "cv_i64 (CV_i64 w) = Inr w"
| "cv_i64 (CV_u64 w) = Inr w"
| "cv_i64 (CV_fp64 _) = Inl BadCast"

datatype vtype = TYPE_FP64 | TYPE_U64 | TYPE_I64 | TYPE_UNASSIGNED

fun cv_has_type :: "vtype \<Rightarrow> CollectorValue \<Rightarrow> bool" where
  "cv_has_type TYPE_FP64 (CV_fp64 _) = True"
| "cv_has_type TYPE_U64 (CV_u64 _) = True"
| "cv_has_type TYPE_I64 (CV_i64 _) = True"
| "cv_has_type _ _ = False"

section \<open>Value lists\<close>

record CollectorValueList =
  vl_type :: vtype
  vl_list :: "CollectorValue list"
  vl_summaries :: "CollectorValue list"

definition empty_list :: CollectorValueList where
  "empty_list = \<lparr>vl_type = TYPE_UNASSIGNED, vl_list = [], vl_summaries = []\<rparr>"

type_synonym CollectorValueResults = "(string, CollectorValueList) std_map"

text \<open>
  The overloads of \<open>push_back\<close>: \<open>double\<close> and \<open>float\<close> store a double, the
  signed integer types sign-extend to 64 bits, the unsigned ones zero-extend, and a
  \<open>CollectorValue\<close> is stored as it is in a list that already has a type.
\<close>

definition push_back_typed ::
  "vtype \<Rightarrow> CollectorValue \<Rightarrow> CollectorValueList \<Rightarrow> CollectorValueList result" where
  "push_back_typed t v l =
     bind_res (assert_res (vl_type l = TYPE_UNASSIGNED \<or> vl_type l = t))
       (\<lambda>_. Inr (l\<lparr>vl_type := t, vl_list := vl_list l @ [v]\<rparr>))"

definition push_back_double :: "double \<Rightarrow> CollectorValueList \<Rightarrow> CollectorValueList result" where
  "push_back_double d = push_back_typed TYPE_FP64 (CV_fp64 d)"

definition push_back_int :: "i32 \<Rightarrow> CollectorValueList \<Rightarrow> CollectorValueList result" where
  "push_back_int n = push_back_typed TYPE_I64 (CV_i64 (scast n))"

definition push_back_long :: "i64 \<Rightarrow> CollectorValueList \<Rightarrow> CollectorValueList result" where
  "push_back_long n = push_back_typed TYPE_I64 (CV_i64 n)"

definition push_back_uint :: "u32 \<Rightarrow> CollectorValueList \<Rightarrow> CollectorValueList result" where
  "push_back_uint n = push_back_typed TYPE_U64 (CV_u64 (ucast n))"

definition push_back_ulong :: "u64 \<Rightarrow> CollectorValueList \<Rightarrow> CollectorValueList result" where
  "push_back_ulong n = push_back_typed TYPE_U64 (CV_u64 n)"

definition push_back_value ::
  "CollectorValue \<Rightarrow> CollectorValueList \<Rightarrow> CollectorValueList result" where
  "push_back_value v l =
     bind_res (assert_res (vl_type l \<noteq> TYPE_UNASSIGNED))
       (\<lambda>_. Inr (l\<lparr>vl_list := vl_list l @ [v]\<rparr>))"

text \<open>The sums of \<open>summarize\<close>, in the type of the list.\<close>

definition sum_fp64 :: "CollectorValue list \<Rightarrow> double result" where
  "sum_fp64 = fold_res (\<lambda>s v. bind_res (cv_fp64 v) (\<lambda>d. Inr (dadd s d))) (DFin 0)"

definition sum_i64 :: "CollectorValue list \<Rightarrow> i64 result" where
  "sum_i64 = fold_res (\<lambda>s v. bind_res (cv_i64 v) (\<lambda>n. Inr (s + n))) 0"

definition sum_u64 :: "CollectorValue list \<Rightarrow> u64 result" where
  "sum_u64 = fold_res (\<lambda>s v. bind_res (cv_u64 v) (\<lambda>n. Inr (s + n))) 0"

definition push_summary :: "CollectorValue \<Rightarrow> CollectorValueList \<Rightarrow> CollectorValueList" where
  "push_summary c l = l\<lparr>vl_summaries := vl_summaries l @ [c], vl_list := []\<rparr>"

definition vl_summarize :: "CollectorValueList \<Rightarrow> CollectorValueList result" where
  "vl_summarize l = (let n = length (vl_list l) in
     case vl_type l of
       TYPE_FP64 \<Rightarrow> bind_res (sum_fp64 (vl_list l))
         (\<lambda>s. Inr (push_summary (CV_fp64 (ddiv s (double_of_int (int n)))) l))
     | TYPE_I64 \<Rightarrow> bind_res (sum_i64 (vl_list l))
         (\<lambda>s. bind_res (sdiv64 s (of_nat n)) (\<lambda>q. Inr (push_summary (CV_i64 q) l)))
     | TYPE_U64 \<Rightarrow> bind_res (sum_u64 (vl_list l))
         (\<lambda>s. bind_res (udiv64 s (of_nat n)) (\<lambda>q. Inr (push_summary (CV_u64 q) l)))
     | TYPE_UNASSIGNED \<Rightarrow> Inl AssertFailed)"

definition vl_clear :: "CollectorValueList \<Rightarrow> CollectorValueList" where
  "vl_clear l = l\<lparr>vl_list := []\<rparr>"

definition vl_size :: "CollectorValueList \<Rightarrow> nat" where
  "vl_size l = length (vl_list l)"

text \<open>\<open>at\<close> checks its bounds; a negative index converts to a huge \<open>size_t\<close>.\<close>

definition vl_at :: "CollectorValueList \<Rightarrow> int \<Rightarrow> CollectorValue result" where
  "vl_at l i = (if 0 \<le> i \<and> nat i < length (vl_list l) then Inr (vl_list l ! nat i)
     else Inl OutOfRange)"

definition vl_data :: "CollectorValueList \<Rightarrow> CollectorValue list" where
  "vl_data l = (if vl_summaries l \<noteq> [] then vl_summaries l else vl_list l)"

section \<open>Well-formed value lists\<close>

definition vl_wf :: "CollectorValueList \<Rightarrow> bool" where
  "vl_wf l = list_all (cv_has_type (vl_type l)) (vl_list l @ vl_summaries l)"

lemma vl_wf_empty [simp]: "vl_wf empty_list"
  by (simp add: vl_wf_def empty_list_def)

lemma cv_has_type_unassigned [simp]: "\<not> cv_has_type TYPE_UNASSIGNED v"
  by (cases v) auto

lemma vl_wf_unassigned:
  "vl_wf l \<Longrightarrow> vl_type l = TYPE_UNASSIGNED \<Longrightarrow> vl_list l = [] \<and> vl_summaries l = []"
  by (cases "vl_list l"; cases "vl_summaries l") (auto simp: vl_wf_def)

lemma push_back_typed_eq_Inr:
  "push_back_typed t v l = Inr l' \<longleftrightarrow>
     vl_type l \<in> {TYPE_UNASSIGNED, t} \<and> l' = l\<lparr>vl_type := t, vl_list := vl_list l @ [v]\<rparr>"
  by (auto simp: push_back_typed_def)

lemma push_back_typed_wf:
  assumes "push_back_typed t v l = Inr l'" and "vl_wf l" and "cv_has_type t v"
  shows "vl_wf l'"
proof (cases "vl_type l = TYPE_UNASSIGNED")
  case True
  with assms show ?thesis
    by (simp add: push_back_typed_eq_Inr vl_wf_def vl_wf_unassigned [OF assms(2)])
next
  case False
  with assms have "vl_type l = t" by (simp add: push_back_typed_eq_Inr)
  with assms show ?thesis by (simp add: push_back_typed_eq_Inr vl_wf_def)
qed

lemmas push_back_defs =
  push_back_double_def push_back_int_def push_back_long_def
  push_back_uint_def push_back_ulong_def

lemma push_back_value_wf:
  "push_back_value v l = Inr l' \<Longrightarrow> vl_wf l \<Longrightarrow> cv_has_type (vl_type l) v \<Longrightarrow> vl_wf l'"
  by (auto simp: push_back_value_def vl_wf_def)

section \<open>Sums\<close>

lemma sum_u64_eq:
  "list_all (cv_has_type TYPE_U64) vs \<Longrightarrow>
     fold_res (\<lambda>s v. bind_res (cv_u64 v) (\<lambda>n. Inr (s + n))) s vs
       = Inr (s + sum_list (map (\<lambda>v. case v of CV_u64 w \<Rightarrow> w) vs))"
proof (induction vs arbitrary: s)
  case (Cons v vs)
  then show ?case by (cases v) (auto simp: add.assoc)
qed simp

lemma sum_i64_eq:
  "list_all (cv_has_type TYPE_I64) vs \<Longrightarrow>
     fold_res (\<lambda>s v. bind_res (cv_i64 v) (\<lambda>n. Inr (s + n))) s vs
       = Inr (s + sum_list (map (\<lambda>v. case v of CV_i64 w \<Rightarrow> w) vs))"
proof (induction vs arbitrary: s)
  case (Cons v vs)
  then show ?case by (cases v) (auto simp: add.assoc)
qed simp

lemma sum_fp64_returns:
  "list_all (cv_has_type TYPE_FP64) vs \<Longrightarrow>
     \<exists>d. fold_res (\<lambda>s v. bind_res (cv_fp64 v) (\<lambda>d. Inr (dadd s d))) s vs = Inr d"
proof (induction vs arbitrary: s)
  case (Cons v vs)
  then show ?case by (cases v) auto
qed simp

lemma sum_fp64_finite:
  "fold_res (\<lambda>s v. bind_res (cv_fp64 v) (\<lambda>d. Inr (dadd s d))) (DFin s)
     (map (CV_fp64 \<circ> DFin) xs) = Inr (DFin (s + sum_list xs))"
  by (induction xs arbitrary: s) (auto simp: add.assoc)

section \<open>What a value list promises\<close>

fun cv_type :: "CollectorValue \<Rightarrow> vtype" where
  "cv_type (CV_fp64 _) = TYPE_FP64"
| "cv_type (CV_u64 _) = TYPE_U64"
| "cv_type (CV_i64 _) = TYPE_I64"

lemma cv_type_assigned [simp]: "cv_type v \<noteq> TYPE_UNASSIGNED"
  by (cases v) auto

lemma cv_has_type_iff: "cv_has_type t v \<longleftrightarrow> t = cv_type v"
  by (cases t; cases v) auto

lemma push_back_sequence_aux:
  assumes "vl_type l = t" and "t \<noteq> TYPE_UNASSIGNED"
  shows "fold_res (\<lambda>l v. push_back_typed (cv_type v) v l) l vs =
     (if list_all (\<lambda>v. cv_type v = t) vs then Inr (l\<lparr>vl_list := vl_list l @ vs\<rparr>)
      else Inl AssertFailed)"
  using assms
proof (induction vs arbitrary: l)
  case (Cons v vs)
  show ?case
  proof (cases "cv_type v = t")
    case True
    with Cons show ?thesis by (simp add: push_back_typed_def)
  next
    case False
    with Cons.prems show ?thesis by (simp add: push_back_typed_def bind_res_def assert_res_def)
  qed
qed simp

text \<open>
  Any sequence of \<open>push_back\<close> calls on a fresh list stores the samples in order, under
  the tag of the first one, and fails its assertion exactly when two samples differ in type.
\<close>

theorem push_back_sequence:
  "fold_res (\<lambda>l v. push_back_typed (cv_type v) v l) empty_list (v # vs) =
     (if list_all (\<lambda>w. cv_type w = cv_type v) vs
      then Inr \<lparr>vl_type = cv_type v, vl_list = v # vs, vl_summaries = []\<rparr>
      else Inl AssertFailed)"
proof -
  let ?l = "\<lparr>vl_type = cv_type v, vl_list = [v], vl_summaries = []\<rparr>"
  have "push_back_typed (cv_type v) v empty_list = Inr ?l"
    by (simp add: push_back_typed_def empty_list_def)
  then show ?thesis
    using push_back_sequence_aux [of ?l "cv_type v" vs] by simp
qed

lemma sdiv_pos:
  fixes a n :: int
  assumes "0 < n"
  shows "a sdiv n = (if 0 \<le> a then a div n else - ((- a) div n))"
  using assms by (auto simp: signed_divide_int_def sgn_if)

lemma sdiv_le_mult:
  fixes a m n :: int
  assumes "0 < n" and "a \<le> m * n"
  shows "a sdiv n \<le> m"
proof (cases "0 \<le> a")
  case True
  have "a div n \<le> (m * n) div n" using assms by (intro zdiv_mono1)
  with True assms(1) show ?thesis by (simp add: sdiv_pos)
next
  case False
  have "((- m) * n) div n \<le> (- a) div n" using assms by (intro zdiv_mono1) simp_all
  then have "- m \<le> (- a) div n" using assms(1) by (metis nonzero_mult_div_cancel_right less_irrefl)
  with False assms(1) show ?thesis by (simp add: sdiv_pos)
qed

lemma sdiv_ge_mult:
  fixes a m n :: int
  assumes "0 < n" and "m * n \<le> a"
  shows "m \<le> a sdiv n"
  using sdiv_le_mult [of n "- a" "- m"] assms
  by (auto simp: signed_divide_int_def)

lemma sdiv_in_range:
  fixes a c n :: int
  assumes "0 < n" and "- c \<le> a" and "a < c"
  shows "- c \<le> a sdiv n \<and> a sdiv n < c"
proof -
  have "(c - 1) * 1 \<le> (c - 1) * n" and "c * 1 \<le> c * n"
    using assms by (intro mult_left_mono; linarith)+
  then have "a \<le> (c - 1) * n \<and> (- c) * n \<le> a"
    using assms by (simp only: mult_minus_left mult_1_right) linarith
  then show ?thesis
    using sdiv_le_mult [OF assms(1), of a "c - 1"] sdiv_ge_mult [OF assms(1), of "- c" a] by simp
qed

lemma sum_list_bounds:
  fixes xs :: "int list"
  assumes "\<forall>x \<in> set xs. lo \<le> x \<and> x \<le> hi"
  shows "lo * int (length xs) \<le> sum_list xs \<and> sum_list xs \<le> hi * int (length xs)"
  using assms by (induction xs) (auto simp: algebra_simps)

lemma sint_sum_list:
  fixes ws :: "i64 list"
  assumes "- (2 ^ 63) \<le> sum_list (map sint ws)" and "sum_list (map sint ws) < 2 ^ 63"
  shows "sint (sum_list ws) = sum_list (map sint ws)"
proof -
  have "sum_list ws = word_of_int (sum_list (map sint ws))"
    by (induction ws) (auto simp: wi_hom_add [symmetric])
  then have "sint (sum_list ws) = signed_take_bit 63 (sum_list (map sint ws))"
    by (simp add: sint_sbintrunc')
  then show ?thesis using assms by (simp add: signed_take_bit_int_eq_self)
qed

lemma sint_add_small:
  "- (2 ^ 63) \<le> sint a + sint b \<Longrightarrow> sint a + sint b < 2 ^ 63 \<Longrightarrow> sint (a + b :: i64) = sint a + sint b"
  using sint_sum_list [of "[a, b]"] by simp

lemma sint_of_int_small:
  "- (2 ^ 63) \<le> n \<Longrightarrow> n < 2 ^ 63 \<Longrightarrow> sint (word_of_int n :: i64) = n"
  by (simp add: sint_sbintrunc' signed_take_bit_int_eq_self)

lemma sint_of_nat_small:
  assumes "n < 2 ^ 63"
  shows "sint (of_nat n :: i64) = int n"
proof -
  have "int n < 2 ^ 63" using assms by (metis of_nat_less_iff of_nat_numeral of_nat_power)
  then show ?thesis using sint_of_int_small [of "int n"] by simp
qed

definition i64_values :: "CollectorValue list \<Rightarrow> int list" where
  "i64_values vs = map (\<lambda>v. case v of CV_i64 w \<Rightarrow> sint w | _ \<Rightarrow> 0) vs"

text \<open>
  C27: summarising a non-empty list of signed samples whose sum fits 64 bits replaces the samples
  by one average: the sum divided by the number of samples, rounded towards zero, which lies
  between any two bounds of the samples; earlier averages are kept.
\<close>

theorem vl_summarize_i64_mean:
  assumes "vl_wf l" and "vl_type l = TYPE_I64" and "vl_list l \<noteq> []"
    and "length (vl_list l) < 2 ^ 63"
    and "- (2 ^ 63) \<le> sum_list (i64_values (vl_list l))"
    and "sum_list (i64_values (vl_list l)) < 2 ^ 63"
    and "\<forall>n \<in> set (i64_values (vl_list l)). lo \<le> n \<and> n \<le> hi"
  shows "\<exists>q. vl_summarize l = Inr (push_summary (CV_i64 q) l)
     \<and> sint q = sum_list (i64_values (vl_list l)) sdiv int (length (vl_list l))
     \<and> lo \<le> sint q \<and> sint q \<le> hi"
proof -
  let ?vs = "vl_list l" and ?n = "length (vl_list l)"
  let ?ws = "map (\<lambda>v. case v of CV_i64 w \<Rightarrow> w) ?vs"
  have typed: "list_all (cv_has_type TYPE_I64) ?vs"
    using assms(1,2) by (simp add: vl_wf_def)
  have vals: "i64_values ?vs = map sint ?ws"
    unfolding i64_values_def using typed
    by (auto simp: list_all_iff cv_has_type_iff split: CollectorValue.splits)
  have sum: "sum_i64 ?vs = Inr (sum_list ?ws)"
    using sum_i64_eq [OF typed, of 0] by (simp add: sum_i64_def)
  have n: "sint (of_nat ?n :: i64) = int ?n" and pos: "0 < int ?n"
    using assms(3,4) by (simp_all add: sint_of_nat_small)
  then have nz: "(of_nat ?n :: i64) \<noteq> 0" by (metis less_irrefl sint_0)
  let ?S = "sum_list (i64_values ?vs)" and ?q = "word_of_int (sint (sum_list ?ws) sdiv int ?n) :: i64"
  have S: "sint (sum_list ?ws) = ?S"
    using sint_sum_list [of ?ws] assms(5,6) vals by simp
  have b: "lo * int ?n \<le> ?S \<and> ?S \<le> hi * int ?n"
    using sum_list_bounds [OF assms(7)] by (simp add: i64_values_def)
  have r: "- (2 ^ 63) \<le> ?S sdiv int ?n" "?S sdiv int ?n < 2 ^ 63"
    using sdiv_in_range [OF pos assms(5,6)] by simp_all
  have q: "sint ?q = ?S sdiv int ?n" using S r by (simp add: sint_of_int_small)
  have "vl_summarize l = Inr (push_summary (CV_i64 ?q) l)"
    using assms(2) sum nz n by (simp add: vl_summarize_def sdiv64_def Let_def)
  moreover have "lo \<le> sint ?q \<and> sint ?q \<le> hi"
    using q b pos by (simp add: sdiv_ge_mult sdiv_le_mult)
  ultimately show ?thesis using q by blast
qed

theorem vl_summarize_i64_mean_witness:
  "\<exists>q. vl_summarize \<lparr>vl_type = TYPE_I64, vl_list = [CV_i64 3, CV_i64 (-8)], vl_summaries = []\<rparr>
        = Inr (push_summary (CV_i64 q)
            \<lparr>vl_type = TYPE_I64, vl_list = [CV_i64 3, CV_i64 (-8)], vl_summaries = []\<rparr>)
     \<and> sint q = -2 \<and> -8 \<le> sint q \<and> sint q \<le> 3"
  using vl_summarize_i64_mean
    [of "\<lparr>vl_type = TYPE_I64, vl_list = [CV_i64 3, CV_i64 (-8)], vl_summaries = []\<rparr>" "-8" 3]
  by (simp add: vl_wf_def i64_values_def signed_divide_int_def)

text \<open>
  On a well-formed list \<open>summarize\<close> fails in exactly two ways: its assertion, when no
  sample was ever stored, and a division by zero, when an integer list holds no sample since it
  was last cleared. A list of doubles always summarises, an empty one to NaN.
\<close>

theorem vl_summarize_fails:
  assumes "vl_wf l" and "length (vl_list l) < 2 ^ 63"
  shows "vl_summarize l = Inl e \<longleftrightarrow>
     vl_type l = TYPE_UNASSIGNED \<and> e = AssertFailed
     \<or> vl_type l \<in> {TYPE_I64, TYPE_U64} \<and> vl_list l = [] \<and> e = DivideByZero"
proof -
  let ?vs = "vl_list l"
  have typed: "list_all (cv_has_type (vl_type l)) ?vs" using assms(1) by (simp add: vl_wf_def)
  have nz: "(of_nat (length ?vs) :: 64 word) = 0 \<longleftrightarrow> ?vs = []"
    using sint_of_nat_small [OF assms(2)] by (cases ?vs) (auto simp del: of_nat_Suc)
  show ?thesis
  proof (cases "vl_type l")
    case TYPE_FP64
    with typed obtain d where "sum_fp64 ?vs = Inr d"
      using sum_fp64_returns [of ?vs "DFin 0"] by (auto simp: sum_fp64_def)
    with TYPE_FP64 show ?thesis by (simp add: vl_summarize_def)
  next
    case TYPE_I64
    with typed nz show ?thesis using sum_i64_eq [of ?vs 0]
      by (auto simp: vl_summarize_def sum_i64_def sdiv64_def)
  next
    case TYPE_U64
    with typed nz show ?thesis using sum_u64_eq [of ?vs 0]
      by (auto simp: vl_summarize_def sum_u64_def udiv64_def)
  next
    case TYPE_UNASSIGNED
    then show ?thesis by (auto simp: vl_summarize_def)
  qed
qed

theorem vl_summarize_fails_witness:
  "vl_summarize \<lparr>vl_type = TYPE_I64, vl_list = [], vl_summaries = []\<rparr> = Inl DivideByZero"
  using vl_summarize_fails [of "\<lparr>vl_type = TYPE_I64, vl_list = [], vl_summaries = []\<rparr>" DivideByZero]
  by (simp add: vl_wf_def)

text \<open>Well-formedness survives summarising and clearing.\<close>

lemma vl_summarize_wf: "vl_summarize l = Inr l' \<Longrightarrow> vl_wf l \<Longrightarrow> vl_wf l'"
  by (cases "vl_type l")
    (auto simp: vl_summarize_def vl_wf_def push_summary_def Let_def)

lemma vl_summarize_size: "vl_summarize l = Inr l' \<Longrightarrow> vl_size l' = 0"
  by (cases "vl_type l") (auto simp: vl_summarize_def vl_size_def push_summary_def Let_def)

lemma vl_clear_wf: "vl_wf l \<Longrightarrow> vl_wf (vl_clear l)"
  by (simp add: vl_wf_def vl_clear_def)

end
