(* ===== verification/Json_Api.thy ===== *)
theory Json_Api
  imports Values
begin

text \<open>
  The JSON library is an external module of the repository, not part of it: every definition that
  uses \<open>Json::Value\<close> takes the library as an argument, a record of the operations the sources
  call. The locale \<open>json_api\<close> states the documented behaviour the sources rely on (what a
  member is after an assignment, what an array holds after an append, which values are empty);
  properties that depend on it name it as a hypothesis. The tree datatype at the end is an
  implementation that satisfies it; the witnesses run on it.
\<close>

record 'j json_ops =
  j_null :: 'j
  j_array :: 'j
  j_of_bool :: "bool \<Rightarrow> 'j"
  j_of_int :: "i64 \<Rightarrow> 'j"
  j_of_uint :: "u64 \<Rightarrow> 'j"
  j_of_double :: "double \<Rightarrow> 'j"
  j_of_string :: "string \<Rightarrow> 'j"
  j_set :: "'j \<Rightarrow> string \<Rightarrow> 'j \<Rightarrow> 'j"
  j_at :: "'j \<Rightarrow> string \<Rightarrow> 'j"
  j_isMember :: "'j \<Rightarrow> string \<Rightarrow> bool"
  j_getMemberNames :: "'j \<Rightarrow> string list"
  j_get :: "'j \<Rightarrow> string \<Rightarrow> 'j \<Rightarrow> 'j"
  j_append :: "'j \<Rightarrow> 'j \<Rightarrow> 'j"
  j_elements :: "'j \<Rightarrow> 'j list"
  j_empty :: "'j \<Rightarrow> bool"
  j_clear :: "'j \<Rightarrow> 'j"
  j_isNull :: "'j \<Rightarrow> bool"
  j_isBool :: "'j \<Rightarrow> bool"
  j_isInt :: "'j \<Rightarrow> bool"
  j_isString :: "'j \<Rightarrow> bool"
  j_isArray :: "'j \<Rightarrow> bool"
  j_isObject :: "'j \<Rightarrow> bool"
  j_asBool :: "'j \<Rightarrow> bool"
  j_asInt :: "'j \<Rightarrow> i32"
  j_asUInt64 :: "'j \<Rightarrow> u64"
  j_asDouble :: "'j \<Rightarrow> double"
  j_asString :: "'j \<Rightarrow> string"

text \<open>
  \<open>dictlike v\<close>: a value members can be assigned to, that is a null value or an object;
  \<open>listlike v\<close>: one elements can be appended to, a null value or an array.
\<close>

locale json_api =
  fixes J :: "'j json_ops"
    and dictlike :: "'j \<Rightarrow> bool"
    and listlike :: "'j \<Rightarrow> bool"
  assumes dictlike_null: "dictlike (j_null J)"
    and dictlike_set: "dictlike v \<Longrightarrow> dictlike (j_set J v k x)"
    and isObject_set: "dictlike v \<Longrightarrow> j_isObject J (j_set J v k x)"
    and isMember_null: "\<not> j_isMember J (j_null J) k"
    and isMember_set: "dictlike v \<Longrightarrow> j_isMember J (j_set J v k x) k' \<longleftrightarrow> k' = k \<or> j_isMember J v k'"
    and at_set: "dictlike v \<Longrightarrow> j_at J (j_set J v k x) k' = (if k' = k then x else j_at J v k')"
    and at_not_member: "dictlike v \<Longrightarrow> \<not> j_isMember J v k \<Longrightarrow> j_at J v k = j_null J"
    and get_def: "dictlike v \<Longrightarrow> j_get J v k d = (if j_isMember J v k then j_at J v k else d)"
    and members_iff: "dictlike v \<Longrightarrow> k \<in> set (j_getMemberNames J v) \<longleftrightarrow> j_isMember J v k"
    and members_distinct: "dictlike v \<Longrightarrow> distinct (j_getMemberNames J v)"
    and dictlike_clear: "dictlike v \<Longrightarrow> dictlike (j_clear J v)"
    and isMember_clear: "dictlike v \<Longrightarrow> \<not> j_isMember J (j_clear J v) k"
    and listlike_array: "listlike (j_array J)"
    and listlike_append: "listlike v \<Longrightarrow> listlike (j_append J v x)"
    and elements_array: "j_elements J (j_array J) = []"
    and listlike_null: "listlike (j_null J)"
    and isArray_append: "listlike v \<Longrightarrow> j_isArray J (j_append J v x)"
    and isString_of_string: "j_isString J (j_of_string J s)"
    and elements_null: "j_elements J (j_null J) = []"
    and isNull_null: "j_isNull J (j_null J)"
    and elements_append: "listlike v \<Longrightarrow> j_elements J (j_append J v x) = j_elements J v @ [x]"
    and empty_null: "j_empty J (j_null J)"
    and not_empty_set: "dictlike v \<Longrightarrow> \<not> j_empty J (j_set J v k x)"
    and asBool_of_bool: "j_asBool J (j_of_bool J b) = b"
    and asUInt64_of_uint: "j_asUInt64 J (j_of_uint J n) = n"
    and asInt_of_int: "j_asInt J (j_of_int J (scast i)) = i"
    and asDouble_of_double: "j_asDouble J (j_of_double J r) = r"
    and asDouble_of_int: "j_asDouble J (j_of_int J m) = double_of_int (sint m)"
    and asDouble_null: "j_asDouble J (j_null J) = DFin 0"
    and asString_of_string: "j_asString J (j_of_string J s) = s"
begin

lemma at_null: "j_at J (j_null J) k = j_null J"
  using at_not_member [OF dictlike_null isMember_null] .

lemma at_clear: "dictlike v \<Longrightarrow> j_at J (j_clear J v) k = j_null J"
  by (intro at_not_member dictlike_clear isMember_clear)

text \<open>Appending a list of values one by one.\<close>

lemma elements_append_all:
  "listlike v \<Longrightarrow> j_elements J (foldl (j_append J) v xs) = j_elements J v @ xs"
  by (induction xs arbitrary: v) (auto simp: listlike_append elements_append)

text \<open>Assigning a list of members one by one: the last assignment of a name is the one that stays.\<close>

lemma dictlike_set_all:
  "dictlike v \<Longrightarrow> dictlike (foldl (\<lambda>v (k, x). j_set J v k x) v kxs)"
  by (induction kxs arbitrary: v) (auto simp: dictlike_set)

lemma at_set_all:
  "dictlike v \<Longrightarrow> j_at J (foldl (\<lambda>v (k, x). j_set J v k x) v kxs) k =
     (case map_of (rev kxs) k of Some x \<Rightarrow> x | None \<Rightarrow> j_at J v k)"
proof (induction kxs arbitrary: v)
  case (Cons kx kxs)
  then show ?case
    by (cases kx) (auto simp: dictlike_set at_set map_add_def split: option.splits)
qed simp

lemma isMember_set_all:
  "dictlike v \<Longrightarrow> j_isMember J (foldl (\<lambda>v (k, x). j_set J v k x) v kxs) k \<longleftrightarrow>
     k \<in> fst ` set kxs \<or> j_isMember J v k"
proof (induction kxs arbitrary: v)
  case (Cons kx kxs)
  then show ?case by (cases kx) (auto simp: dictlike_set isMember_set)
qed simp

end

section \<open>A tree implementation\<close>

datatype json =
    JNull | JBool bool | JInt i64 | JUInt u64 | JReal double | JString string
  | JArray "json list" | JObject "(string \<times> json) list"

fun tree_set :: "json \<Rightarrow> string \<Rightarrow> json \<Rightarrow> json" where
  "tree_set (JObject m) k x = JObject (map_set k x m)"
| "tree_set _ k x = JObject [(k, x)]"

fun tree_at :: "json \<Rightarrow> string \<Rightarrow> json" where
  "tree_at (JObject m) k = (case map_of m k of Some x \<Rightarrow> x | None \<Rightarrow> JNull)"
| "tree_at _ k = JNull"

fun tree_members :: "json \<Rightarrow> string list" where
  "tree_members (JObject m) = map fst m"
| "tree_members _ = []"

fun tree_append :: "json \<Rightarrow> json \<Rightarrow> json" where
  "tree_append (JArray xs) x = JArray (xs @ [x])"
| "tree_append _ x = JArray [x]"

fun tree_elements :: "json \<Rightarrow> json list" where
  "tree_elements (JArray xs) = xs"
| "tree_elements _ = []"

fun tree_empty :: "json \<Rightarrow> bool" where
  "tree_empty JNull = True"
| "tree_empty (JArray xs) = (xs = [])"
| "tree_empty (JObject m) = (m = [])"
| "tree_empty _ = False"

fun tree_clear :: "json \<Rightarrow> json" where
  "tree_clear (JArray xs) = JArray []"
| "tree_clear (JObject m) = JObject []"
| "tree_clear v = v"

fun tree_asBool :: "json \<Rightarrow> bool" where
  "tree_asBool (JBool b) = b"
| "tree_asBool (JInt n) = (n \<noteq> 0)"
| "tree_asBool (JUInt n) = (n \<noteq> 0)"
| "tree_asBool _ = False"

fun tree_asInt :: "json \<Rightarrow> i32" where
  "tree_asInt (JInt n) = ucast n"
| "tree_asInt (JUInt n) = ucast n"
| "tree_asInt (JBool b) = (if b then 1 else 0)"
| "tree_asInt (JReal (DFin x)) = word_of_int (trunc_real x)"
| "tree_asInt _ = 0"

fun tree_asUInt64 :: "json \<Rightarrow> u64" where
  "tree_asUInt64 (JInt n) = n"
| "tree_asUInt64 (JUInt n) = n"
| "tree_asUInt64 (JBool b) = (if b then 1 else 0)"
| "tree_asUInt64 (JReal (DFin x)) = word_of_int (trunc_real x)"
| "tree_asUInt64 _ = 0"

fun tree_asDouble :: "json \<Rightarrow> double" where
  "tree_asDouble (JReal d) = d"
| "tree_asDouble (JInt n) = double_of_int (sint n)"
| "tree_asDouble (JUInt n) = double_of_int (uint n)"
| "tree_asDouble (JBool b) = DFin (if b then 1 else 0)"
| "tree_asDouble _ = DFin 0"

fun tree_asString :: "json \<Rightarrow> string" where
  "tree_asString (JString s) = s"
| "tree_asString _ = []"

definition tree_json :: "json json_ops" where
  "tree_json = \<lparr>j_null = JNull, j_array = JArray [], j_of_bool = JBool, j_of_int = JInt,
     j_of_uint = JUInt, j_of_double = JReal, j_of_string = JString,
     j_set = tree_set, j_at = tree_at,
     j_isMember = (\<lambda>v k. k \<in> set (tree_members v)),
     j_getMemberNames = tree_members,
     j_get = (\<lambda>v k d. if k \<in> set (tree_members v) then tree_at v k else d),
     j_append = tree_append, j_elements = tree_elements, j_empty = tree_empty,
     j_clear = tree_clear,
     j_isNull = (\<lambda>v. v = JNull),
     j_isBool = (\<lambda>v. case v of JBool _ \<Rightarrow> True | _ \<Rightarrow> False),
     j_isInt = (\<lambda>v. case v of JInt n \<Rightarrow> - (2 ^ 31) \<le> sint n \<and> sint n < 2 ^ 31
                  | JUInt n \<Rightarrow> uint n < 2 ^ 31 | _ \<Rightarrow> False),
     j_isString = (\<lambda>v. case v of JString _ \<Rightarrow> True | _ \<Rightarrow> False),
     j_isArray = (\<lambda>v. case v of JArray _ \<Rightarrow> True | _ \<Rightarrow> False),
     j_isObject = (\<lambda>v. case v of JObject _ \<Rightarrow> True | _ \<Rightarrow> False),
     j_asBool = tree_asBool, j_asInt = tree_asInt, j_asUInt64 = tree_asUInt64, j_asDouble = tree_asDouble,
     j_asString = tree_asString\<rparr>"

fun tree_dictlike :: "json \<Rightarrow> bool" where
  "tree_dictlike JNull = True"
| "tree_dictlike (JObject m) = map_wf m"
| "tree_dictlike _ = False"

fun tree_listlike :: "json \<Rightarrow> bool" where
  "tree_listlike JNull = True"
| "tree_listlike (JArray _) = True"
| "tree_listlike _ = False"

lemma tree_json_sel [simp]:
  "j_null tree_json = JNull" "j_array tree_json = JArray []" "j_of_bool tree_json = JBool"
  "j_of_int tree_json = JInt" "j_of_uint tree_json = JUInt" "j_of_double tree_json = JReal"
  "j_of_string tree_json = JString" "j_set tree_json = tree_set" "j_at tree_json = tree_at"
  "j_isMember tree_json v k \<longleftrightarrow> k \<in> set (tree_members v)"
  "j_getMemberNames tree_json = tree_members"
  "j_get tree_json v k d = (if k \<in> set (tree_members v) then tree_at v k else d)"
  "j_append tree_json = tree_append" "j_elements tree_json = tree_elements"
  "j_empty tree_json = tree_empty" "j_clear tree_json = tree_clear"
  "j_isNull tree_json v \<longleftrightarrow> v = JNull"
  "j_isBool tree_json v = (case v of JBool _ \<Rightarrow> True | _ \<Rightarrow> False)"
  "j_isInt tree_json v = (case v of JInt n \<Rightarrow> - (2 ^ 31) \<le> sint n \<and> sint n < 2 ^ 31
     | JUInt n \<Rightarrow> uint n < 2 ^ 31 | _ \<Rightarrow> False)"
  "j_isString tree_json v = (case v of JString _ \<Rightarrow> True | _ \<Rightarrow> False)"
  "j_isArray tree_json v = (case v of JArray _ \<Rightarrow> True | _ \<Rightarrow> False)"
  "j_isObject tree_json v = (case v of JObject _ \<Rightarrow> True | _ \<Rightarrow> False)"
  "j_asBool tree_json = tree_asBool" "j_asInt tree_json = tree_asInt" "j_asUInt64 tree_json = tree_asUInt64"
  "j_asDouble tree_json = tree_asDouble" "j_asString tree_json = tree_asString"
  by (simp_all add: tree_json_def)

lemma tree_members_set:
  "tree_dictlike v \<Longrightarrow> set (tree_members (tree_set v k x)) = insert k (set (tree_members v))"
  by (cases v) (auto simp: fst_set_map_set)

lemma tree_at_set:
  "tree_dictlike v \<Longrightarrow> tree_at (tree_set v k x) k' = (if k' = k then x else tree_at v k')"
  by (cases v) (auto simp: map_of_map_set)

lemma tree_at_none: "k \<notin> set (tree_members v) \<Longrightarrow> tree_at v k = JNull"
  by (cases v) (auto split: option.splits dest!: map_of_SomeD intro: rev_image_eqI)

lemma map_set_not_Nil [simp]: "map_set k v m \<noteq> []"
  by (cases m) (auto split: if_splits)

lemma tree_asInt_of_int: "tree_asInt (JInt (scast n)) = n"
proof (simp, rule bit_word_eqI)
  fix k :: nat
  assume "k < LENGTH(32)"
  then have "k < 31 \<or> k = 31" by auto
  then show "bit (ucast (scast n :: i64) :: i32) k \<longleftrightarrow> bit n k" by (auto simp: bit_simps min_def)
qed

interpretation tree: json_api tree_json tree_dictlike tree_listlike
proof
  fix v :: json and k k' x
  show "tree_dictlike v \<Longrightarrow> tree_dictlike (j_set tree_json v k x)"
    by (cases v) (simp_all add: map_wf_map_set, simp add: map_wf_def)
  show "tree_dictlike v \<Longrightarrow> distinct (j_getMemberNames tree_json v)"
    by (cases v) (simp_all add: map_wf_distinct)
  show "tree_dictlike v \<Longrightarrow> tree_dictlike (j_clear tree_json v)"
    by (cases v) (simp_all add: map_wf_def)
  show "tree_dictlike v \<Longrightarrow> \<not> j_isMember tree_json (j_clear tree_json v) k"
    by (cases v) simp_all
  show "tree_listlike v \<Longrightarrow> tree_listlike (j_append tree_json v x)" by (cases v) simp_all
  show "j_isArray tree_json (j_append tree_json v x)" by (cases v) simp_all
  show "tree_listlike v \<Longrightarrow>
      j_elements tree_json (j_append tree_json v x) = j_elements tree_json v @ [x]"
    by (cases v) simp_all
  show "\<not> j_empty tree_json (j_set tree_json v k x)"
    by (cases v) simp_all
  show "j_isObject tree_json (j_set tree_json v k x)"
    by (cases v) simp_all
qed (simp_all only: tree_json_sel tree_asInt_of_int, simp_all add: tree_members_set tree_at_set tree_at_none)

end
