(* ===== verification/Collector.thy ===== *)
theory Collector
  imports Json_Api
begin

text \<open>
  The base class \<open>Collector\<close> of \<open>interface.hpp\<close> and \<open>interface.cpp\<close>: its fields, the
  operations every collector inherits, the sampling loop of a threaded collector and the
  post-processing that resamples a threaded collector's values at the frame times.

  A subclass adds fields, which the record's extension slot carries, and overrides virtual
  functions. \<open>vtable\<close> is the table of virtual functions of one class; each takes the object and
  the state of the operating system it runs on. The locale \<open>collector_class\<close> is the contract
  between the manager class and a collector: a virtual function may change the object's samples and
  private state, but not its name, the thread that runs it or the flags the manager owns. Every
  collector class is an interpretation of it.
\<close>

section \<open>State\<close>

datatype thread_handle = NotJoinable | Joinable

record 'j collector =
  thread :: thread_handle
  finished :: bool
  mDebug :: bool
  mIsThreaded :: bool
  mIsSummarized :: bool
  mSampleRate :: i32
  mCollecting :: bool
  mResults :: CollectorValueResults
  mConfig :: "'j"
  mName :: string
  mFactor :: double
  mCustomResult :: "'j"

text \<open>The constructor: everything at its default, the configuration of this collector picked out.\<close>

definition Collector_new :: "'j json_ops \<Rightarrow> 'j \<Rightarrow> string \<Rightarrow> 'j collector" where
  "Collector_new J config nm =
     \<lparr>thread = NotJoinable, finished = False, mDebug = False, mIsThreaded = False,
      mIsSummarized = False, mSampleRate = 100, mCollecting = False, mResults = [],
      mConfig = j_get J config nm (j_null J), mName = nm, mFactor = DNaN,
      mCustomResult = j_null J\<rparr>"

section \<open>Inherited operations\<close>

definition Collector_start :: "('j, 'x) collector_scheme \<Rightarrow> bool \<times> ('j, 'x) collector_scheme" where
  "Collector_start c = (True, c\<lparr>mCollecting := True\<rparr>)"

definition Collector_stop :: "('j, 'x) collector_scheme \<Rightarrow> bool \<times> ('j, 'x) collector_scheme" where
  "Collector_stop c = (True, c\<lparr>mCollecting := False\<rparr>)"

definition doubleTransform :: "double \<Rightarrow> ('j, 'x) collector_scheme \<Rightarrow> ('j, 'x) collector_scheme" where
  "doubleTransform f c = c\<lparr>mFactor := f\<rparr>"

definition setDebug :: "bool \<Rightarrow> ('j, 'x) collector_scheme \<Rightarrow> ('j, 'x) collector_scheme" where
  "setDebug b c = c\<lparr>mDebug := b\<rparr>"

definition useThreading ::
  "i32 \<Rightarrow> ('j, 'x) collector_scheme \<Rightarrow> ('j, 'x) collector_scheme result" where
  "useThreading sampleRate c =
     bind_res (assert_res (\<not> mCollecting c))
       (\<lambda>_. Inr (c\<lparr>mIsThreaded := True, mSampleRate := sampleRate\<rparr>))"

definition Collector_summarize ::
  "('j, 'x) collector_scheme \<Rightarrow> ('j, 'x) collector_scheme result" where
  "Collector_summarize c =
     bind_res (map_values_res vl_summarize (mResults c))
       (\<lambda>r. Inr (c\<lparr>mResults := r, mIsSummarized := True\<rparr>))"

definition Collector_clear :: "('j, 'x) collector_scheme \<Rightarrow> ('j, 'x) collector_scheme" where
  "Collector_clear c = c\<lparr>mResults := map (\<lambda>(k, l). (k, vl_clear l)) (mResults c)\<rparr>"

text \<open>\<open>add\<close>, one overload per type of sample: \<open>mResults[key].push_back(value)\<close>.\<close>

definition add_with ::
  "(CollectorValueList \<Rightarrow> CollectorValueList result) \<Rightarrow> string \<Rightarrow>
     ('j, 'x) collector_scheme \<Rightarrow> ('j, 'x) collector_scheme result" where
  "add_with push key c =
     bind_res (map_modify key empty_list push (mResults c)) (\<lambda>r. Inr (c\<lparr>mResults := r\<rparr>))"

definition add_double :: "string \<Rightarrow> double \<Rightarrow> ('j, 'x) collector_scheme \<Rightarrow> ('j, 'x) collector_scheme result"
  where "add_double key v = add_with (push_back_double v) key"

definition add_int :: "string \<Rightarrow> i32 \<Rightarrow> ('j, 'x) collector_scheme \<Rightarrow> ('j, 'x) collector_scheme result"
  where "add_int key v = add_with (push_back_int v) key"

definition add_long :: "string \<Rightarrow> i64 \<Rightarrow> ('j, 'x) collector_scheme \<Rightarrow> ('j, 'x) collector_scheme result"
  where "add_long key v = add_with (push_back_long v) key"

definition add_uint :: "string \<Rightarrow> u32 \<Rightarrow> ('j, 'x) collector_scheme \<Rightarrow> ('j, 'x) collector_scheme result"
  where "add_uint key v = add_with (push_back_uint v) key"

definition add_ulong :: "string \<Rightarrow> u64 \<Rightarrow> ('j, 'x) collector_scheme \<Rightarrow> ('j, 'x) collector_scheme result"
  where "add_ulong key v = add_with (push_back_ulong v) key"

section \<open>Resampling a threaded collector\<close>

text \<open>
  \<open>remix\<close> is the inner loop of \<open>postprocess\<close>: for each frame, the sample whose position
  in the recording is closest to the frame's start, counted as a fraction of the whole run.
\<close>

fun remix ::
  "CollectorValueList \<Rightarrow> double \<Rightarrow> i64 \<Rightarrow> i64 list \<Rightarrow> CollectorValueList \<Rightarrow>
     CollectorValueList result" where
  "remix l duration cur_time [] out = Inr out"
| "remix l duration cur_time (t # timing) out =
     bind_res (double_to_int32
         (dmul (ddiv (double_of_int (sint cur_time)) duration) (double_of_int (int (vl_size l)))))
       (\<lambda>index. bind_res (vl_at l index)
       (\<lambda>v. bind_res (push_back_value v out)
       (\<lambda>out'. remix l duration (cur_time + t) timing out')))"

definition total_duration :: "i64 list \<Rightarrow> double" where
  "total_duration timing = foldl (\<lambda>d v. dadd d (double_of_int (sint v))) (DFin 0) timing"

text \<open>The outer loop: \<open>None\<close> is the early \<open>return false\<close> of a counter with no samples.\<close>

fun remix_all ::
  "double \<Rightarrow> i64 list \<Rightarrow> CollectorValueResults \<Rightarrow> CollectorValueResults \<Rightarrow>
     CollectorValueResults option result" where
  "remix_all duration timing [] tmp = Inr (Some tmp)"
| "remix_all duration timing ((k, l) # kvs) tmp =
     (if vl_size l = 0 then Inr None
      else bind_res (remix l duration 0 timing (empty_list\<lparr>vl_type := vl_type l\<rparr>))
        (\<lambda>out. remix_all duration timing kvs (map_set k out tmp)))"

definition Collector_postprocess ::
  "i64 list \<Rightarrow> ('j, 'x) collector_scheme \<Rightarrow> (bool \<times> ('j, 'x) collector_scheme) result" where
  "Collector_postprocess timing c =
     (if mIsThreaded c \<and> \<not> mIsSummarized c
      then bind_res (remix_all (total_duration timing) timing (mResults c) [])
        (\<lambda>r. case r of None \<Rightarrow> Inr (False, c) | Some tmp \<Rightarrow> Inr (True, c\<lparr>mResults := tmp\<rparr>))
      else Inr (True, c))"

section \<open>The sampling loop\<close>

text \<open>
  One turn of \<open>Collector::loop\<close> samples at time \<open>t1\<close>, reads the clock again at
  \<open>t2\<close> and sleeps for the rest of the sample period unless it was told to finish. Times are in
  microseconds, the rate in milliseconds; \<open>None\<close> means no sleep.
\<close>

definition loop_sleep :: "bool \<Rightarrow> i32 \<Rightarrow> int \<Rightarrow> int \<Rightarrow> int option" where
  "loop_sleep fin rate t1 t2 =
     (let duration = t2 - t1; period = sint rate * 1000 in
      if \<not> fin \<and> duration < period then Some (period - duration) else None)"

section \<open>Virtual functions\<close>

type_synonym ('j, 'x, 'w) vmethod =
  "('j, 'x) collector_scheme \<Rightarrow> 'w \<Rightarrow> (bool \<times> ('j, 'x) collector_scheme \<times> 'w) result"

record ('j, 'x, 'w) vtable =
  v_init :: "('j, 'x, 'w) vmethod"
  v_deinit :: "('j, 'x, 'w) vmethod"
  v_available :: "('j, 'x, 'w) vmethod"
  v_start :: "('j, 'x, 'w) vmethod"
  v_stop :: "('j, 'x, 'w) vmethod"
  v_collect :: "i64 \<Rightarrow> ('j, 'x, 'w) vmethod"
  v_collect_scope_start :: "u16 \<Rightarrow> i32 \<Rightarrow> i32 \<Rightarrow> ('j, 'x, 'w) vmethod"
  v_collect_scope_stop :: "u16 \<Rightarrow> i32 \<Rightarrow> i32 \<Rightarrow> ('j, 'x, 'w) vmethod"
  v_postprocess :: "i64 list \<Rightarrow> ('j, 'x, 'w) vmethod"
  v_summarize :: "('j, 'x, 'w) vmethod"
  v_clear :: "('j, 'x, 'w) vmethod"

text \<open>A method that uses neither the operating system nor can fail, and one that returns nothing.\<close>

definition pure_method ::
  "(('j, 'x) collector_scheme \<Rightarrow> bool \<times> ('j, 'x) collector_scheme) \<Rightarrow> ('j, 'x, 'w) vmethod" where
  "pure_method f c w = (case f c of (b, c') \<Rightarrow> Inr (b, c', w))"

definition result_method ::
  "(('j, 'x) collector_scheme \<Rightarrow> (bool \<times> ('j, 'x) collector_scheme) result) \<Rightarrow> ('j, 'x, 'w) vmethod" where
  "result_method f c w = bind_res (f c) (\<lambda>(b, c'). Inr (b, c', w))"

definition void_method ::
  "(('j, 'x) collector_scheme \<Rightarrow> ('j, 'x) collector_scheme result) \<Rightarrow> ('j, 'x, 'w) vmethod" where
  "void_method f c w = bind_res (f c) (\<lambda>c'. Inr (True, c', w))"

text \<open>
  The functions a subclass inherits unless it overrides them; \<open>collect\<close> and
  \<open>available\<close> are pure virtual and given by the subclass.
\<close>

definition base_vtable ::
  "(i64 \<Rightarrow> ('j, 'x, 'w) vmethod) \<Rightarrow> ('j, 'x, 'w) vmethod \<Rightarrow> ('j, 'x, 'w) vtable" where
  "base_vtable collect avail =
     \<lparr>v_init = pure_method (\<lambda>c. (True, c)),
      v_deinit = pure_method (\<lambda>c. (True, c)),
      v_available = avail,
      v_start = pure_method Collector_start,
      v_stop = pure_method Collector_stop,
      v_collect = collect,
      v_collect_scope_start = (\<lambda>_ _ _. pure_method (\<lambda>c. (True, c))),
      v_collect_scope_stop = (\<lambda>_ _ _. pure_method (\<lambda>c. (True, c))),
      v_postprocess = (\<lambda>timing. result_method (Collector_postprocess timing)),
      v_summarize = void_method Collector_summarize,
      v_clear = void_method (\<lambda>c. Inr (Collector_clear c))\<rparr>"

section \<open>The contract of a collector class\<close>

text \<open>What the manager owns of a collector object, and what it may assume of its samples.\<close>

definition managed :: "('j, 'x) collector_scheme \<Rightarrow> string \<times> thread_handle \<times> bool \<times> bool \<times> bool" where
  "managed c = (mName c, thread c, finished c, mIsThreaded c, mDebug c)"

definition results_wf :: "CollectorValueResults \<Rightarrow> bool" where
  "results_wf r = (map_wf r \<and> list_all vl_wf (map snd r))"

definition methods :: "('j, 'x, 'w) vtable \<Rightarrow> ('j, 'x, 'w) vmethod set" where
  "methods V = {v_init V, v_deinit V, v_available V, v_start V, v_stop V, v_summarize V, v_clear V}
     \<union> range (v_collect V) \<union> range (v_postprocess V)
     \<union> range (\<lambda>(f, g, t). v_collect_scope_start V f g t)
     \<union> range (\<lambda>(f, g, t). v_collect_scope_stop V f g t)"

lemma methods_intros [intro]:
  "v_init V \<in> methods V" "v_deinit V \<in> methods V" "v_available V \<in> methods V"
  "v_start V \<in> methods V" "v_stop V \<in> methods V" "v_summarize V \<in> methods V"
  "v_clear V \<in> methods V" "v_collect V now \<in> methods V" "v_postprocess V timing \<in> methods V"
  "v_collect_scope_start V f g t \<in> methods V" "v_collect_scope_stop V f g t \<in> methods V"
  unfolding methods_def by (auto intro: rev_image_eqI [where x = "(f, g, t)"])

definition keeps_contract :: "('j, 'x, 'w) vmethod \<Rightarrow> bool" where
  "keeps_contract f \<longleftrightarrow> (\<forall>c w b c' w'. f c w = Inr (b, c', w') \<longrightarrow>
     managed c' = managed c \<and> (results_wf (mResults c) \<longrightarrow> results_wf (mResults c')))"

locale collector_class =
  fixes V :: "('j, 'x, 'w) vtable"
  assumes contract_method: "f \<in> methods V \<Longrightarrow> keeps_contract f"
begin

lemma method_managed: "f \<in> methods V \<Longrightarrow> f c w = Inr (b, c', w') \<Longrightarrow> managed c' = managed c"
  using contract_method by (fastforce simp: keeps_contract_def)

lemma method_results_wf:
  "f \<in> methods V \<Longrightarrow> f c w = Inr (b, c', w') \<Longrightarrow> results_wf (mResults c) \<Longrightarrow> results_wf (mResults c')"
  using contract_method by (fastforce simp: keeps_contract_def)

end

text \<open>Number of samples of a counter; a counter that is not there has none.\<close>

definition samples :: "CollectorValueResults \<Rightarrow> string \<Rightarrow> nat" where
  "samples r k = (case map_of r k of None \<Rightarrow> 0 | Some l \<Rightarrow> vl_size l)"

text \<open>Any number of collections, each at its own time, all successful.\<close>

fun collect_run ::
  "('j, 'x, 'w) vtable \<Rightarrow> i64 list \<Rightarrow> ('j, 'x) collector_scheme \<Rightarrow> 'w \<Rightarrow>
     (('j, 'x) collector_scheme \<times> 'w) option" where
  "collect_run V [] c w = Some (c, w)"
| "collect_run V (now # ts) c w =
     (case v_collect V now c w of Inr (True, c', w') \<Rightarrow> collect_run V ts c' w' | _ \<Rightarrow> None)"

text \<open>
  A class that samples a fixed set of counters: one successful \<open>collect\<close> stores exactly one
  sample of each, a failed one stores none.
\<close>

locale sampling_class = collector_class V
  for V :: "('j, 'x, 'w) vtable" +
  fixes counters :: "('j, 'x) collector_scheme \<Rightarrow> string set"
  assumes collect_samples: "v_collect V now c w = Inr (ok, c', w') \<Longrightarrow>
      samples (mResults c') k = samples (mResults c) k + (if ok \<and> k \<in> counters c then 1 else 0)"
    and collect_counters: "v_collect V now c w = Inr (ok, c', w') \<Longrightarrow> counters c' = counters c"
begin

lemma collect_run_samples:
  "collect_run V ts c w = Some (c', w') \<Longrightarrow>
     samples (mResults c') k = samples (mResults c) k + (if k \<in> counters c then length ts else 0)"
proof (induction ts arbitrary: c w)
  case (Cons now ts)
  from Cons.prems obtain c1 w1 where 1: "v_collect V now c w = Inr (True, c1, w1)"
    and r: "collect_run V ts c1 w1 = Some (c', w')"
    by (auto split: sum.splits prod.splits bool.splits)
  show ?case using Cons.IH [OF r] collect_samples [OF 1, of k] collect_counters [OF 1] by simp
qed simp

end

section \<open>The inherited operations respect the contract\<close>

lemma results_wf_map_set: "results_wf r \<Longrightarrow> vl_wf l \<Longrightarrow> results_wf (map_set k l r)"
  by (simp add: results_wf_def map_wf_map_set map_set_all)

lemma results_wf_mem: "results_wf r \<Longrightarrow> (k, l) \<in> set r \<Longrightarrow> vl_wf l"
  by (force simp: results_wf_def list_all_iff)

lemma results_wf_lookup: "results_wf r \<Longrightarrow> map_of r k = Some l \<Longrightarrow> vl_wf l"
  by (auto simp: results_wf_def dest: map_of_all)

lemma contract_pure [wf_intros]:
  "(\<And>c. managed (snd (f c)) = managed c) \<Longrightarrow>
   (\<And>c. results_wf (mResults c) \<Longrightarrow> results_wf (mResults (snd (f c)))) \<Longrightarrow> keeps_contract (pure_method f)"
  by (auto simp: keeps_contract_def pure_method_def split: prod.splits) (metis snd_conv)+

lemma Collector_clear_wf: "results_wf (mResults c) \<Longrightarrow> results_wf (mResults (Collector_clear c))"
  by (auto simp: Collector_clear_def results_wf_def map_wf_def list_all_iff vl_clear_wf comp_def
      case_prod_beta)

lemma Collector_summarize_wf:
  assumes "Collector_summarize c = Inr c'" and "results_wf (mResults c)"
  shows "results_wf (mResults c')"
proof -
  from assms(1) obtain r where "map_values_res vl_summarize (mResults c) = Inr r" "mResults c' = r"
    by (auto simp: Collector_summarize_def)
  with assms(2) show ?thesis
    using map_values_res_all [of vl_summarize "mResults c" r vl_wf vl_wf] vl_summarize_wf
    by (simp add: results_wf_def map_values_res_wf)
qed

text \<open>Storing one sample: the counter grows by one and nothing else changes.\<close>

lemma add_with_eq:
  "add_with push key c = Inr c' \<longleftrightarrow>
     (\<exists>l. push (case map_of (mResults c) key of None \<Rightarrow> empty_list | Some l \<Rightarrow> l) = Inr l
        \<and> c' = c\<lparr>mResults := map_set key l (mResults c)\<rparr>)"
  by (auto simp: add_with_def map_modify_eq_Inr)

lemmas add_defs = add_double_def add_int_def add_long_def add_uint_def add_ulong_def

text \<open>A \<open>push\<close> of one of the overloads: appends one value of one type.\<close>

definition pushes_one :: "(CollectorValueList \<Rightarrow> CollectorValueList result) \<Rightarrow> bool" where
  "pushes_one push \<longleftrightarrow> (\<forall>l l'. push l = Inr l' \<longrightarrow> vl_size l' = Suc (vl_size l)
     \<and> (vl_wf l \<longrightarrow> vl_wf l'))"

lemma pushes_one_typed: "cv_has_type t v \<Longrightarrow> pushes_one (push_back_typed t v)"
  unfolding pushes_one_def
  by (auto simp: push_back_typed_wf) (simp add: push_back_typed_eq_Inr vl_size_def)

lemma pushes_one_push_back [simp, wf_intros]:
  "pushes_one (push_back_double d)" "pushes_one (push_back_int n)" "pushes_one (push_back_long m)"
  "pushes_one (push_back_uint n)" "pushes_one (push_back_ulong m)"
  by (simp_all add: push_back_defs pushes_one_typed)

lemma add_with_samples:
  assumes "add_with push key c = Inr c'" and "pushes_one push"
  shows "samples (mResults c') k = samples (mResults c) k + (if k = key then 1 else 0)"
  using assms
  by (auto simp: add_with_eq samples_def map_of_map_set pushes_one_def split: option.splits)
    (auto simp: vl_size_def empty_list_def)

lemma add_with_wf:
  assumes "add_with push key c = Inr c'" and "pushes_one push" and "results_wf (mResults c)"
  shows "results_wf (mResults c')"
  using assms results_wf_lookup [OF assms(3)]
  by (auto simp: add_with_eq pushes_one_def split: option.splits intro!: results_wf_map_set)

lemma add_with_frame:
  "add_with push key c = Inr c' \<Longrightarrow> managed c' = managed c \<and> collector.more c' = collector.more c
     \<and> mCollecting c' = mCollecting c \<and> mIsSummarized c' = mIsSummarized c \<and> mConfig c' = mConfig c
     \<and> mFactor c' = mFactor c \<and> mCustomResult c' = mCustomResult c \<and> mSampleRate c' = mSampleRate c"
  by (auto simp: add_with_eq managed_def)

lemma vl_at_wf: "vl_wf l \<Longrightarrow> vl_at l i = Inr v \<Longrightarrow> cv_has_type (vl_type l) v"
  by (auto simp: vl_at_def vl_wf_def list_all_iff split: if_splits)

lemma remix_wf:
  "remix l D cur timing out = Inr out' \<Longrightarrow> vl_wf l \<Longrightarrow> vl_wf out \<Longrightarrow> vl_type out = vl_type l \<Longrightarrow> vl_wf out'"
proof (induction l D cur timing out rule: remix.induct)
  case (2 l D cur t timing out)
  from 2(2) obtain i v o1 where at: "vl_at l i = Inr v" and pb: "push_back_value v out = Inr o1"
    and step: "remix l D (cur + t) timing o1 = Inr out'" by auto
  from at pb have "cv_has_type (vl_type out) v" "vl_type o1 = vl_type l"
    using vl_at_wf [OF 2(3) at] 2(5) by (auto simp: push_back_value_def)
  then have "vl_wf o1" using push_back_value_wf [OF pb 2(4)] by simp
  with 2(1) step 2(3) \<open>vl_type o1 = vl_type l\<close> show ?case
    by (meson 2 at bind_res_eq_Inr pb)
qed simp

lemma remix_all_wf:
  "remix_all D timing kvs tmp = Inr (Some r) \<Longrightarrow> (\<And>k l. (k, l) \<in> set kvs \<Longrightarrow> vl_wf l) \<Longrightarrow>
     results_wf tmp \<Longrightarrow> results_wf r"
proof (induction D timing kvs tmp rule: remix_all.induct)
  case (2 D timing k l kvs tmp)
  from 2(2) obtain out where out: "remix l D 0 timing (empty_list\<lparr>vl_type := vl_type l\<rparr>) = Inr out"
    and r: "remix_all D timing kvs (map_set k out tmp) = Inr (Some r)" and n: "vl_size l \<noteq> 0"
    by (auto split: if_splits)
  have "vl_wf (empty_list\<lparr>vl_type := vl_type l\<rparr>)" by (simp add: vl_wf_def empty_list_def)
  with out have "vl_wf out" using 2(3) by (intro remix_wf [OF out]) auto
  moreover have "\<And>k l. (k, l) \<in> set kvs \<Longrightarrow> vl_wf l" using 2(3) by (meson list.set_intros(2))
  ultimately show ?case using 2(1) [OF n r] 2(4) results_wf_map_set by blast
qed simp

lemma contract_result [wf_intros]:
  "(\<And>c b c'. f c = Inr (b, c') \<Longrightarrow> managed c' = managed c) \<Longrightarrow>
   (\<And>c b c'. f c = Inr (b, c') \<Longrightarrow> results_wf (mResults c) \<Longrightarrow> results_wf (mResults c')) \<Longrightarrow>
   keeps_contract (result_method f)"
  by (fastforce simp: keeps_contract_def result_method_def)

lemma contract_void [wf_intros]:
  "(\<And>c c'. f c = Inr c' \<Longrightarrow> managed c' = managed c) \<Longrightarrow>
   (\<And>c c'. f c = Inr c' \<Longrightarrow> results_wf (mResults c) \<Longrightarrow> results_wf (mResults c')) \<Longrightarrow>
   keeps_contract (void_method f)"
  by (fastforce simp: keeps_contract_def void_method_def)

lemma contract_postprocess [wf_intros]: "keeps_contract (result_method (Collector_postprocess timing))"
proof (rule contract_result)
  fix c c' :: "('a, 'b) collector_scheme" and b
  assume p: "Collector_postprocess timing c = Inr (b, c')"
  then show "managed c' = managed c"
    by (auto simp: Collector_postprocess_def managed_def split: if_splits option.splits)
  assume wf: "results_wf (mResults c)"
  with p remix_all_wf [of "total_duration timing" timing "mResults c" "[]" "mResults c'"]
  show "results_wf (mResults c')"
    by (auto simp: Collector_postprocess_def results_wf_mem results_wf_def [of "[]"] map_wf_def
        split: if_splits option.splits)
qed

lemma contract_summarize [wf_intros]: "keeps_contract (void_method Collector_summarize)"
proof (rule contract_void)
  fix c c' :: "('a, 'b) collector_scheme"
  assume s: "Collector_summarize c = Inr c'"
  then show "managed c' = managed c" by (auto simp: Collector_summarize_def managed_def)
  show "results_wf (mResults c) \<Longrightarrow> results_wf (mResults c')" using Collector_summarize_wf [OF s] .
qed

lemma contract_clear [wf_intros]: "keeps_contract (void_method (\<lambda>c. Inr (Collector_clear c)))"
  by (rule contract_void) (use Collector_clear_wf in \<open>auto simp: Collector_clear_def managed_def\<close>)

text \<open>A class that overrides only what the contract allows is a collector class.\<close>

lemma base_collector_class:
  assumes "\<And>now. keeps_contract (collect now)" and "keeps_contract avail"
  shows "collector_class (base_vtable collect avail)"
proof
  fix f assume "f \<in> methods (base_vtable collect avail)"
  then show "keeps_contract f"
    using assms
    by (auto simp: methods_def base_vtable_def Collector_start_def Collector_stop_def managed_def
        contract_postprocess contract_summarize contract_clear intro!: contract_pure)
qed

lemma methods_override:
  "methods (V\<lparr>v_init := m\<rparr>) \<subseteq> insert m (methods V)"
  "methods (V\<lparr>v_deinit := m\<rparr>) \<subseteq> insert m (methods V)"
  "methods (V\<lparr>v_start := m\<rparr>) \<subseteq> insert m (methods V)"
  "methods (V\<lparr>v_stop := m\<rparr>) \<subseteq> insert m (methods V)"
  "methods (V\<lparr>v_clear := m\<rparr>) \<subseteq> insert m (methods V)"
  "methods (V\<lparr>v_postprocess := f\<rparr>) \<subseteq> range f \<union> methods V"
  by (simp_all add: methods_def) blast+

lemma collector_class_iff: "collector_class V \<longleftrightarrow> (\<forall>f \<in> methods V. keeps_contract f)"
  by (auto simp: collector_class_def)

lemma collector_class_override [wf_intros]:
  "collector_class V \<Longrightarrow> keeps_contract m \<Longrightarrow> collector_class (V\<lparr>v_init := m\<rparr>)"
  "collector_class V \<Longrightarrow> keeps_contract m \<Longrightarrow> collector_class (V\<lparr>v_deinit := m\<rparr>)"
  "collector_class V \<Longrightarrow> keeps_contract m \<Longrightarrow> collector_class (V\<lparr>v_start := m\<rparr>)"
  "collector_class V \<Longrightarrow> keeps_contract m \<Longrightarrow> collector_class (V\<lparr>v_stop := m\<rparr>)"
  "collector_class V \<Longrightarrow> keeps_contract m \<Longrightarrow> collector_class (V\<lparr>v_clear := m\<rparr>)"
  unfolding collector_class_iff using methods_override [where V = V] by blast+

lemma collector_class_override_postprocess [wf_intros]:
  "collector_class V \<Longrightarrow> (\<And>ts. keeps_contract (f ts)) \<Longrightarrow> collector_class (V\<lparr>v_postprocess := f\<rparr>)"
  unfolding collector_class_iff using methods_override(6) [where V = V and f = f] by blast

section \<open>Correctness of the resampling\<close>

fun frame_starts :: "int \<Rightarrow> i64 list \<Rightarrow> int list" where
  "frame_starts p [] = []"
| "frame_starts p (t # ts) = p # frame_starts (p + sint t) ts"

definition run_length :: "i64 list \<Rightarrow> int" where
  "run_length timing = sum_list (map sint timing)"

lemma run_length_simps [simp]:
  "run_length [] = 0" "run_length (t # ts) = sint t + run_length ts"
  by (simp_all add: run_length_def)

lemma run_length_nonneg: "list_all (\<lambda>t. 0 \<le> sint t) ts \<Longrightarrow> 0 \<le> run_length ts"
  by (induction ts) auto

lemma length_frame_starts [simp]: "length (frame_starts p ts) = length ts"
  by (induction p ts rule: frame_starts.induct) auto

lemma frame_starts_bounds:
  "list_all (\<lambda>t. 0 \<le> sint t) ts \<Longrightarrow> q \<in> set (frame_starts p ts) \<Longrightarrow>
     p \<le> q \<and> q \<le> p + run_length ts"
proof (induction p ts rule: frame_starts.induct)
  case (2 p t ts)
  then show ?case using run_length_nonneg [of ts] by fastforce
qed simp

lemma run_length_last:
  "ts \<noteq> [] \<Longrightarrow> run_length ts = run_length (butlast ts) + sint (last ts)"
  by (induction ts) auto

lemma frame_starts_butlast:
  "list_all (\<lambda>t. 0 \<le> sint t) ts \<Longrightarrow> q \<in> set (frame_starts p ts) \<Longrightarrow>
     q \<le> p + run_length (butlast ts)"
proof (induction p ts rule: frame_starts.induct)
  case (2 p t ts)
  have "0 \<le> run_length (butlast (t # ts))"
    using 2(2) by (intro run_length_nonneg) (auto simp: list_all_iff dest: in_set_butlastD)
  with 2 show ?case by (cases "ts = []") auto
qed simp

lemma frame_starts_last: "ts \<noteq> [] \<Longrightarrow> p + run_length (butlast ts) \<in> set (frame_starts p ts)"
  by (induction p ts rule: frame_starts.induct) (auto simp: add.assoc)

lemma frame_starts_before_end:
  assumes "list_all (\<lambda>t. 0 \<le> sint t) ts" and "0 < sint (last ts)" and "q \<in> set (frame_starts p ts)"
  shows "q < p + run_length ts"
proof -
  have "ts \<noteq> []" using assms(3) by auto
  then show ?thesis using frame_starts_butlast [OF assms(1,3)] run_length_last assms(2) by fastforce
qed

lemma total_duration_eq: "total_duration timing = DFin (of_int (run_length timing))"
proof -
  have "foldl (\<lambda>d v. dadd d (double_of_int (sint v))) (DFin (of_int p)) timing
      = DFin (of_int (p + run_length timing))" for p
  proof (induction timing arbitrary: p)
    case (Cons t ts)
    from Cons.IH [of "p + sint t"] show ?case
      by (simp add: double_of_int_def add.assoc del: of_int_sint)
  qed simp
  from this [of 0] show ?thesis by (simp add: total_duration_def)
qed

text \<open>The position of the sample for a frame that starts at \<open>p\<close> in a run of length \<open>D\<close>.\<close>

definition sample_index :: "int \<Rightarrow> int \<Rightarrow> nat \<Rightarrow> int" where
  "sample_index D p n = p * int n div D"

lemma sample_index_bounds:
  assumes "0 \<le> p" and "p \<le> D" and "0 < D"
  shows "0 \<le> sample_index D p n" and "sample_index D p n \<le> int n"
proof -
  have "p * int n \<le> D * int n" using assms by (intro mult_right_mono) auto
  then have "p * int n div D \<le> D * int n div D" using assms by (intro zdiv_mono1)
  then show "sample_index D p n \<le> int n" using assms by (simp add: sample_index_def)
qed (use assms in \<open>simp add: sample_index_def pos_imp_zdiv_nonneg_iff\<close>)

lemma sample_index_less:
  assumes "0 \<le> p" and "p < D" and "0 < n"
  shows "sample_index D p n < int n"
proof (rule ccontr)
  assume "\<not> sample_index D p n < int n"
  then have "int n * D \<le> p * int n div D * D"
    using assms by (intro mult_right_mono) (simp_all add: sample_index_def)
  also have "\<dots> \<le> p * int n"
    using assms by (simp add: minus_mod_eq_div_mult [symmetric])
  also have "\<dots> < int n * D" using assms by (simp add: mult.commute)
  finally show False by simp
qed

lemma remix_index:
  assumes "0 \<le> p" and "p \<le> D" and "0 < D" and "n < 2 ^ 31"
  shows "double_to_int32 (dmul (ddiv (double_of_int p) (DFin (of_int D))) (double_of_int (int n)))
     = Inr (sample_index D p n)"
proof -
  have "of_int p / of_int D * of_int (int n) = (of_int (p * int n) / of_int D :: real)" by simp
  then have "trunc_real (of_int p / of_int D * of_int (int n)) = sample_index D p n"
    using assms unfolding sample_index_def
    by (subst trunc_real_nonneg) (simp_all add: floor_divide_of_int_eq del: of_int_mult)
  moreover have "int n < 2 ^ 31" using assms(4) by (metis of_nat_less_iff of_nat_numeral of_nat_power)
  ultimately show ?thesis
    using assms sample_index_bounds [OF assms(1-3), of n]
    by (simp add: double_to_int32_def double_of_int_def Let_def)
qed

lemma vl_size_nat: "vl_size l = length (vl_list l)"
  by (simp add: vl_size_def)

lemma remix_step:
  assumes "0 \<le> sint cur" and "sint cur < D" and "0 < vl_size l" and "vl_size l < 2 ^ 31"
    and "vl_type out \<noteq> TYPE_UNASSIGNED"
  shows "remix l (DFin (of_int D)) cur (t # ts) out
     = remix l (DFin (of_int D)) (cur + t) ts (out\<lparr>vl_list := vl_list out @
         [vl_list l ! nat (sample_index D (sint cur) (vl_size l))]\<rparr>)"
proof -
  have "0 \<le> sample_index D (sint cur) (vl_size l)" "sample_index D (sint cur) (vl_size l) < int (vl_size l)"
    using assms sample_index_bounds(1) sample_index_less by auto
  then have "vl_at l (sample_index D (sint cur) (vl_size l))
      = Inr (vl_list l ! nat (sample_index D (sint cur) (vl_size l)))"
    by (simp add: vl_at_def vl_size_nat)
  then show ?thesis
    using remix_index [OF assms(1) _ _ assms(4), of D] assms by (simp add: push_back_value_def)
qed

lemma remix_eq:
  assumes "list_all (\<lambda>t. 0 \<le> sint t) timing" and "0 \<le> sint cur"
    and "\<forall>q \<in> set (frame_starts (sint cur) timing). q < D"
    and "sint cur + run_length timing < 2 ^ 63"
    and "0 < D" and "0 < vl_size l" and "vl_size l < 2 ^ 31" and "vl_type out \<noteq> TYPE_UNASSIGNED"
  shows "remix l (DFin (of_int D)) cur timing out = Inr (out\<lparr>vl_list := vl_list out @
     map (\<lambda>q. vl_list l ! nat (sample_index D q (vl_size l))) (frame_starts (sint cur) timing)\<rparr>)"
  using assms
proof (induction timing arbitrary: cur out)
  case (Cons t ts)
  have "sint (cur + t) = sint cur + sint t"
    using Cons.prems run_length_nonneg [of ts] by (intro sint_add_small) auto
  with Cons show ?case by (subst remix_step) auto
qed simp

text \<open>
  The resampled counter: for every frame the sample whose rank among the samples is the same
  fraction of the recording as the frame's start is of the whole run, rounded down.
\<close>

definition resampled :: "i64 list \<Rightarrow> CollectorValueList \<Rightarrow> CollectorValueList" where
  "resampled timing l = \<lparr>vl_type = vl_type l,
     vl_list = map (\<lambda>p. vl_list l ! nat (sample_index (run_length timing) p (vl_size l))) (frame_starts 0 timing),
     vl_summaries = []\<rparr>"

lemma remix_resampled:
  assumes "list_all (\<lambda>t. 0 \<le> sint t) timing" and "0 < sint (last timing)"
    and "run_length timing < 2 ^ 63"
    and "0 < run_length timing" and "0 < vl_size l" and "vl_size l < 2 ^ 31" and "vl_wf l"
  shows "remix l (total_duration timing) 0 timing (empty_list\<lparr>vl_type := vl_type l\<rparr>) = Inr (resampled timing l)"
proof -
  have "vl_type l \<noteq> TYPE_UNASSIGNED" using assms(5,7) vl_wf_unassigned by (auto simp: vl_size_def)
  moreover have "\<forall>q \<in> set (frame_starts (sint (0 :: i64)) timing). q < run_length timing"
    using frame_starts_before_end [OF assms(1,2), of _ 0] by simp
  ultimately show ?thesis
    using assms by (simp add: total_duration_eq remix_eq del: of_int_sint)
      (simp add: resampled_def empty_list_def)
qed

lemma remix_all_eq:
  assumes "\<And>k l. (k, l) \<in> set kvs \<Longrightarrow> 0 < vl_size l
      \<and> remix l D 0 timing (empty_list\<lparr>vl_type := vl_type l\<rparr>) = Inr (g l)"
  shows "remix_all D timing kvs tmp
     = Inr (Some (fold (\<lambda>(k, v). map_set k v) (map (\<lambda>(k, l). (k, g l)) kvs) tmp))"
  using assms
proof (induction kvs arbitrary: tmp)
  case (Cons kv kvs)
  obtain k l where "kv = (k, l)" by (cases kv)
  with Cons show ?case by force
qed simp

lemma map_wf_map_values: "map_wf m \<Longrightarrow> map_wf (map (\<lambda>(k, l). (k, g l)) m)"
  by (simp add: map_wf_def comp_def case_prod_beta)


definition example_collector :: "json collector" where
  "example_collector = (Collector_new tree_json JNull ''temp'')\<lparr>mIsThreaded := True,
     mResults := [(''temp'', \<lparr>vl_type = TYPE_I64, vl_list = [CV_i64 7, CV_i64 8, CV_i64 9, CV_i64 10],
       vl_summaries = []\<rparr>)]\<rparr>"

lemma example_collector_fields:
  "mIsThreaded example_collector" "\<not> mIsSummarized example_collector"
  "mResults example_collector = [(''temp'', \<lparr>vl_type = TYPE_I64,
     vl_list = [CV_i64 7, CV_i64 8, CV_i64 9, CV_i64 10], vl_summaries = []\<rparr>)]"
  "results_wf (mResults example_collector)"
  by (simp_all add: example_collector_def Collector_new_def results_wf_def map_wf_def vl_wf_def)


lemma remix_past_end:
  assumes "list_all (\<lambda>t. 0 \<le> sint t) timing" and "0 \<le> sint cur"
    and "sint cur + run_length timing = D" and "D < 2 ^ 63" and "D \<in> set (frame_starts (sint cur) timing)"
    and "0 < D" and "0 < vl_size l" and "vl_size l < 2 ^ 31" and "vl_type out \<noteq> TYPE_UNASSIGNED"
  shows "remix l (DFin (of_int D)) cur timing out = Inl OutOfRange"
  using assms
proof (induction timing arbitrary: cur out)
  case (Cons t ts)
  have ts: "0 \<le> run_length ts" "0 \<le> sint t" using Cons.prems(1) run_length_nonneg by auto
  then have cur: "0 \<le> sint cur" "sint cur \<le> D" using Cons.prems by auto
  note index = remix_index [OF cur Cons.prems(6,8)]
  show ?case
  proof (cases "sint cur = D")
    case True
    then have "sample_index D (sint cur) (vl_size l) = int (vl_size l)"
      using Cons.prems(6) by (simp add: sample_index_def)
    with index show ?thesis by (simp add: vl_at_def vl_size_nat)
  next
    case False
    have "sint (cur + t) = sint cur + sint t"
      using Cons.prems ts by (intro sint_add_small) auto
    then have "remix l (DFin (of_int D)) (cur + t) ts (out\<lparr>vl_list := vs\<rparr>) = Inl OutOfRange" for vs
      using False cur ts Cons.prems by (intro Cons.IH) auto
    with False cur Cons.prems(7-9) show ?thesis by (subst remix_step) auto
  qed
qed simp

lemma remix_zero_length:
  assumes "timing \<noteq> []" and "sint cur = 0"
  shows "remix l (DFin 0) cur timing out = Inl BadCast"
  using assms by (cases timing) (simp_all add: double_to_int32_def double_of_int_def dsign_def dinf_def)

text \<open>
  Resampling needs a last frame that took time. When the last frame time is zero, the frame
  starts at the very end of the run and its sample index is one past the last sample: the bounds
  check of \<open>at\<close> throws. When no frame took any time the index is the conversion of NaN.
\<close>

theorem postprocess_last_frame_zero:
  assumes "mIsThreaded c" and "\<not> mIsSummarized c" and "results_wf (mResults c)"
    and "mResults c \<noteq> []" and "0 < vl_size (snd (hd (mResults c)))" and "vl_size (snd (hd (mResults c))) < 2 ^ 31"
    and "list_all (\<lambda>t. 0 \<le> sint t) timing" and "timing \<noteq> []" and "last timing = 0"
    and "run_length timing < 2 ^ 63"
  shows "Collector_postprocess timing c = Inl (if run_length timing = 0 then BadCast else OutOfRange)"
proof -
  obtain k l kvs where r: "mResults c = (k, l) # kvs" using assms(4) by (cases "mResults c") auto
  have l: "0 < vl_size l" "vl_size l < 2 ^ 31" "vl_wf l"
    using assms(5,6) r results_wf_mem [OF assms(3), of k l] by auto
  have ty: "vl_type l \<noteq> TYPE_UNASSIGNED" using l vl_wf_unassigned by (auto simp: vl_size_def)
  have start: "run_length timing \<in> set (frame_starts 0 timing)"
    using frame_starts_last [OF assms(8), of 0] run_length_last [OF assms(8)] assms(9) by simp
  have "remix l (total_duration timing) 0 timing (empty_list\<lparr>vl_type := vl_type l\<rparr>)
      = Inl (if run_length timing = 0 then BadCast else OutOfRange)"
    using run_length_nonneg [OF assms(7)] l ty start assms(7,8,10)
    by (auto simp: total_duration_eq remix_zero_length intro!: remix_past_end)
  with assms(1,2) r l(1) show ?thesis by (simp add: Collector_postprocess_def)
qed

theorem postprocess_last_frame_zero_witness:
  "Collector_postprocess [10, 0] example_collector = Inl OutOfRange"
  using postprocess_last_frame_zero [of example_collector "[10, 0]"]
  by (simp add: example_collector_fields vl_size_def results_wf_def map_wf_def vl_wf_def)

end
