(* ===== verification/Collection.thy ===== *)
theory Collection
  imports Collector
begin

text \<open>
  The manager class \<open>Collection\<close> of \<open>interface.hpp\<close> and \<open>interface.cpp\<close>. Collector
  objects live in a store indexed by their addresses; the manager's lists hold addresses, so the
  same object is seen through \<open>mCollectors\<close>, \<open>mRunning\<close> and \<open>mCollectorMap\<close>. The
  class of the object at an address is given by the table \<open>V\<close> of its virtual functions.
  Everything outside the process is the world \<open>'w\<close> the virtual functions read and write; the
  clock is read by the caller and passed in. The thread of a threaded collector takes one turn of
  \<open>Collector::loop\<close> at a time (\<open>thread_tick\<close>).
\<close>

section \<open>State\<close>

record ('j, 'x, 'w) collection =
  running :: bool
  mEnablePerapiPerf :: bool
  gConfig :: "'j"
  mCollectors :: "nat list"
  mRunning :: "nat list"
  mCollectorMap :: "(string, nat option) std_map"
  mTiming :: "i64 list"
  mTimingSummarized :: "i64 list"
  mCustom :: "i64 list list"
  mCustomSummarized :: "i64 list list"
  mCustomHeaders :: "string list"
  mStartTime :: i64
  mPreviousTime :: i64
  gDebug :: bool
  objs :: "nat \<Rightarrow> ('j, 'x) collector_scheme"
  world :: 'w

text \<open>A virtual call on the object at address \<open>p\<close>.\<close>

definition call ::
  "(nat \<Rightarrow> ('j, 'x, 'w) vtable) \<Rightarrow> (('j, 'x, 'w) vtable \<Rightarrow> ('j, 'x, 'w) vmethod) \<Rightarrow> nat \<Rightarrow>
     ('j, 'x, 'w) collection \<Rightarrow> (bool \<times> ('j, 'x, 'w) collection) result" where
  "call V sel p s =
     bind_res (sel (V p) (objs s p) (world s))
       (\<lambda>(b, c', w'). Inr (b, s\<lparr>objs := (objs s)(p := c'), world := w'\<rparr>))"

definition update_obj ::
  "nat \<Rightarrow> (('j, 'x) collector_scheme \<Rightarrow> ('j, 'x) collector_scheme) \<Rightarrow>
     ('j, 'x, 'w) collection \<Rightarrow> ('j, 'x, 'w) collection" where
  "update_obj p f s = s\<lparr>objs := (objs s)(p := f (objs s p))\<rparr>"

text \<open>\<open>v[k]\<close> on a value that is not constant creates the member when it is missing.\<close>

definition json_touch :: "'j json_ops \<Rightarrow> 'j \<Rightarrow> string \<Rightarrow> 'j" where
  "json_touch J v k = (if j_isMember J v k then v else j_set J v k (j_null J))"

section \<open>Construction\<close>

text \<open>The classes the constructor instantiates, with their own constructor arguments.\<close>

datatype builtin =
    PerfCollector bool
  | SysfsCollector "string list" bool
  | CPUFreqCollector
  | StreamlineCollector
  | MemoryCollector
  | CPUTemperatureCollector
  | GPUFreqCollector
  | PowerDataCollector
  | FerretCollector
  | ProcFSStatCollector
  | MaliCounterCollector
  | RusageCollector

text \<open>
  The collectors \<open>init_from_json\<close> creates, in order. \<open>android\<close> is the platform
  conditional of the source; the platforms where \<open>__APPLE__\<close> is defined are not modelled.
\<close>

definition builtin_collectors :: "bool \<Rightarrow> bool \<Rightarrow> (string \<times> builtin) list" where
  "builtin_collectors android perapi =
     (if perapi then [(''perf'', PerfCollector True)]
      else
       [(''perf'', PerfCollector False),
        (''battery_temperature'', SysfsCollector
          [''/sys/class/power_supply/battery/temp'',
           ''/sys/devices/platform/android-battery/power_supply/android-battery/temp'',
           ''/sys/class/power_supply/battery/batt_temp''] False),
        (''cpufreq'', CPUFreqCollector),
        (''memfreq'', SysfsCollector
          [''/sys/class/devfreq/exynos5-busfreq-mif/cur_freq'',
           ''/sys/class/devfreq/exynos5-devfreq-mif/cur_freq'',
           ''/sys/devices/17000010.devfreq_mif/devfreq/17000010.devfreq_mif/cur_freq''] False),
        (''memfreqdisplay'', SysfsCollector
          [''/sys/devices/17000030.devfreq_disp/devfreq/17000030.devfreq_disp/cur_freq''] False),
        (''memfreqint'', SysfsCollector
          [''/sys/class/devfreq/exynos5-busfreq-int/cur_freq'',
           ''/sys/class/devfreq/exynos5-devfreq-int/cur_freq'',
           ''/sys/devices/17000020.devfreq_int/devfreq/17000020.devfreq_int/cur_freq''] False),
        (''gpu_active_time'', SysfsCollector
          [''/sys/devices/platform/mali.0/power/runtime_active_time'',
           ''/sys/devices/platform/pvrsrvkm.0/power/runtime_active_time'',
           ''/sys/devices/virtual/graphics/fb0/power/runtime_active_time''] True),
        (''gpu_suspended_time'', SysfsCollector
          [''/sys/devices/platform/mali.0/power/runtime_suspended_time'',
           ''/sys/devices/platform/pvrsrvkm.0/power/runtime_suspended_time'',
           ''/sys/devices/virtual/graphics/fb0/power/runtime_suspended_time''] True),
        (''cpufreqtrans'', SysfsCollector
          [''/sys/devices/system/cpu/cpu0/cpufreq/stats/total_trans''] True)]
       @ (if android then [(''streamline'', StreamlineCollector)] else [])
       @ [(''memory'', MemoryCollector), (''cputemp'', CPUTemperatureCollector),
          (''gpufreq'', GPUFreqCollector), (''power'', PowerDataCollector),
          (''ferret'', FerretCollector), (''procfs'', ProcFSStatCollector),
          (''malicounters'', MaliCounterCollector), (''rusage'', RusageCollector)])"

text \<open>\<open>collector(name)\<close>: \<open>operator[]\<close> inserts a null pointer for an unknown name.\<close>

definition collector_named ::
  "string \<Rightarrow> ('j, 'x, 'w) collection \<Rightarrow> nat option \<times> ('j, 'x, 'w) collection" where
  "collector_named nm s =
     (case map_of (mCollectorMap s) nm of
        Some q \<Rightarrow> (q, s)
      | None \<Rightarrow> (None, s\<lparr>mCollectorMap := map_set nm None (mCollectorMap s)\<rparr>))"

text \<open>
  The constructor from a parsed configuration. \<open>new\<close> runs the constructor of a built-in class;
  addresses are handed out in order.
\<close>

definition register_builtin ::
  "bool \<Rightarrow> ('j, 'x, 'w) collection \<Rightarrow> nat \<Rightarrow> ('j, 'x, 'w) collection" where
  "register_builtin debug s p =
     (let s1 = (if debug then update_obj p (setDebug True) s else s) in
      s1\<lparr>mCollectorMap := map_set (mName (objs s1 p)) (Some p) (mCollectorMap s1)\<rparr>)"

definition create_builtins ::
  "('j \<Rightarrow> string \<Rightarrow> builtin \<Rightarrow> ('j, 'x) collector_scheme) \<Rightarrow> 'j \<Rightarrow> (string \<times> builtin) list \<Rightarrow>
     ('j, 'x, 'w) collection \<Rightarrow> ('j, 'x, 'w) collection" where
  "create_builtins new config bs s =
     s\<lparr>mCollectors := [0..<length bs],
       objs := (\<lambda>p. if p < length bs then new config (fst (bs ! p)) (snd (bs ! p)) else objs s p)\<rparr>"

definition config_debug :: "'j json_ops \<Rightarrow> 'j \<Rightarrow> ('j, 'x, 'w) collection \<Rightarrow> bool" where
  "config_debug J config s \<longleftrightarrow> gDebug s \<or>
     \<not> mEnablePerapiPerf s \<and> j_isMember J config ''debug'' \<and> j_asBool J (j_at J config ''debug'')"

definition init_from_json ::
  "'j json_ops \<Rightarrow> bool \<Rightarrow> ('j \<Rightarrow> string \<Rightarrow> builtin \<Rightarrow> ('j, 'x) collector_scheme) \<Rightarrow>
     ('j \<Rightarrow> ('j, 'x, 'w) collection \<Rightarrow> ('j, 'x, 'w) collection result)" where
  "init_from_json J android new config s =
     (let debug = config_debug J config s;
          s1 = (create_builtins new config (builtin_collectors android (mEnablePerapiPerf s)) s)\<lparr>gDebug := debug\<rparr>;
          s2 = foldl (register_builtin debug) s1 (mCollectors s1)
      in if mEnablePerapiPerf s then Inr s2
         else case collector_named ''battery_temperature'' s2 of
             (Some p, s3) \<Rightarrow> Inr (update_obj p (doubleTransform (DFin (1 / 10))) s3)
           | (None, s3) \<Rightarrow> Inl NullPointer)"

definition empty_collection ::
  "(nat \<Rightarrow> ('j, 'x) collector_scheme) \<Rightarrow> 'w \<Rightarrow> 'j \<Rightarrow> bool \<Rightarrow> ('j, 'x, 'w) collection" where
  "empty_collection fresh w config perapi =
       \<lparr>running = False, mEnablePerapiPerf = perapi, gConfig = config, mCollectors = [],
        mRunning = [], mCollectorMap = [], mTiming = [], mTimingSummarized = [], mCustom = [],
        mCustomSummarized = [], mCustomHeaders = [], mStartTime = 0, mPreviousTime = 0,
        gDebug = False, objs = fresh, world = w\<rparr>"

definition Collection_new ::
  "'j json_ops \<Rightarrow> bool \<Rightarrow> ('j \<Rightarrow> string \<Rightarrow> builtin \<Rightarrow> ('j, 'x) collector_scheme) \<Rightarrow>
     (nat \<Rightarrow> ('j, 'x) collector_scheme) \<Rightarrow> 'w \<Rightarrow> 'j \<Rightarrow> bool \<Rightarrow> ('j, 'x, 'w) collection result" where
  "Collection_new J android new fresh w config perapi =
     init_from_json J android new config (empty_collection fresh w config perapi)"

text \<open>
  The constructor from a string keeps whatever the parser produced, and reports a parse error
  when the parse succeeded; the second component tells whether that message is printed.
\<close>

definition Collection_new_string ::
  "'j json_ops \<Rightarrow> (string \<Rightarrow> bool \<times> 'j) \<Rightarrow> bool \<Rightarrow>
     ('j \<Rightarrow> string \<Rightarrow> builtin \<Rightarrow> ('j, 'x) collector_scheme) \<Rightarrow>
     (nat \<Rightarrow> ('j, 'x) collector_scheme) \<Rightarrow> 'w \<Rightarrow> string \<Rightarrow> bool \<Rightarrow>
     (('j, 'x, 'w) collection \<times> bool) result" where
  "Collection_new_string J parse android new fresh w config_str perapi =
     (case parse config_str of (success, config) \<Rightarrow>
        bind_res (Collection_new J android new fresh w config perapi) (\<lambda>s. Inr (s, success)))"

section \<open>Queries and registration\<close>

fun available_of ::
  "bool \<Rightarrow> (nat \<Rightarrow> ('j, 'x, 'w) vtable) \<Rightarrow> nat list \<Rightarrow> ('j, 'x, 'w) collection \<Rightarrow>
     (string list \<times> ('j, 'x, 'w) collection) result" where
  "available_of want V [] s = Inr ([], s)"
| "available_of want V (p # ps) s =
     bind_res (call V v_available p s) (\<lambda>(b, s1).
     bind_res (available_of want V ps s1) (\<lambda>(names, s2).
       Inr (if b = want then mName (objs s1 p) # names else names, s2)))"

definition available where
  "available V s = available_of True V (mCollectors s) s"

definition unavailable where
  "unavailable V s = available_of False V (mCollectors s) s"

definition setDebug_all :: "bool \<Rightarrow> ('j, 'x, 'w) collection \<Rightarrow> ('j, 'x, 'w) collection" where
  "setDebug_all value s =
     foldl (\<lambda>s p. update_obj p (setDebug True) s) (s\<lparr>gDebug := value\<rparr>) (mCollectors s)"

definition addCollector :: "nat \<Rightarrow> ('j, 'x, 'w) collection \<Rightarrow> ('j, 'x, 'w) collection" where
  "addCollector p s = s\<lparr>mCollectors := mCollectors s @ [p]\<rparr>"

section \<open>Initialisation\<close>

definition configure_threading ::
  "'j json_ops \<Rightarrow> 'j \<Rightarrow> ('j, 'x) collector_scheme \<Rightarrow> ('j, 'x) collector_scheme result" where
  "configure_threading J own c =
     (if j_asBool J (j_get J own ''threaded'' (j_of_bool J False))
      then useThreading (j_asInt J (j_get J own ''sample_rate'' (j_of_int J 100))) c
      else Inr c)"

definition enable_collector ::
  "'j json_ops \<Rightarrow> string \<Rightarrow> nat \<Rightarrow> ('j, 'x, 'w) collection \<Rightarrow>
     (bool \<times> ('j, 'x, 'w) collection) result" where
  "enable_collector J nm p s =
     (let config = json_touch J (gConfig s) nm in
      bind_res (configure_threading J (j_at J config nm) (objs s p)) (\<lambda>c.
        Inr (True, s\<lparr>mRunning := mRunning s @ [p], gConfig := config, objs := (objs s)(p := c)\<rparr>)))"

definition initialize_collector ::
  "'j json_ops \<Rightarrow> (nat \<Rightarrow> ('j, 'x, 'w) vtable) \<Rightarrow> string \<Rightarrow> ('j, 'x, 'w) collection \<Rightarrow>
     (bool \<times> ('j, 'x, 'w) collection) result" where
  "initialize_collector J V nm s =
     (if \<exists>p \<in> set (mRunning s). mName (objs s p) = nm then Inr (True, s)
      else case collector_named nm s of
        (None, s0) \<Rightarrow> Inl NullPointer
      | (Some p, s0) \<Rightarrow>
          bind_res (call V v_init p s0) (\<lambda>(ok, s1).
            if ok then enable_collector J nm p s1 else Inr (False, s1)))"

text \<open>
  One name of the list \<open>initialize\<close> works on: unknown names and collectors that are not
  available are failures that the configuration may declare fatal.
\<close>

definition try_enable ::
  "'j json_ops \<Rightarrow> (nat \<Rightarrow> ('j, 'x, 'w) vtable) \<Rightarrow> string \<Rightarrow> ('j, 'x, 'w) collection \<Rightarrow>
     (bool \<times> ('j, 'x, 'w) collection) result" where
  "try_enable J V nm s = (case map_of (mCollectorMap s) nm of
       None \<Rightarrow> Inr (False, s)
     | Some None \<Rightarrow> Inl NullPointer
     | Some (Some p) \<Rightarrow>
         bind_res (call V v_available p s) (\<lambda>(avail, s1).
           if \<not> avail then Inr (False, s1) else initialize_collector J V nm s1))"

definition required :: "'j json_ops \<Rightarrow> 'j \<Rightarrow> string \<Rightarrow> bool" where
  "required J config nm \<longleftrightarrow> j_isMember J config nm \<and> j_isObject J (j_at J config nm)
     \<and> j_asBool J (j_get J (j_at J config nm) ''required'' (j_of_bool J False))"

fun initialize_list ::
  "'j json_ops \<Rightarrow> (nat \<Rightarrow> ('j, 'x, 'w) vtable) \<Rightarrow> string list \<Rightarrow> ('j, 'x, 'w) collection \<Rightarrow>
     (bool \<times> ('j, 'x, 'w) collection) result" where
  "initialize_list J V [] s = Inr (True, s)"
| "initialize_list J V (nm # l) s =
     (if nm = ''debug'' \<or> nm = ''provenance'' then initialize_list J V l s
      else
        bind_res (try_enable J V nm s) (\<lambda>(done, s2).
          if done then initialize_list J V l s2
          else if required J (gConfig s2) nm then Inr (False, s2\<lparr>mRunning := []\<rparr>)
          else initialize_list J V l s2))"

definition initialize ::
  "'j json_ops \<Rightarrow> (nat \<Rightarrow> ('j, 'x, 'w) vtable) \<Rightarrow> string list \<Rightarrow> ('j, 'x, 'w) collection \<Rightarrow>
     (bool \<times> ('j, 'x, 'w) collection) result" where
  "initialize J V l s =
     initialize_list J V
       (l @ filter (\<lambda>nm. j_isObject J (j_at J (gConfig s) nm)) (j_getMemberNames J (gConfig s))) s"

section \<open>Recording\<close>

text \<open>
  Starting the thread of a threaded collector. Assigning over a \<open>std::thread\<close> that was never
  joined terminates the program; in the per-API mode the new thread calls an empty function object.
\<close>

definition start_thread ::
  "bool \<Rightarrow> ('j, 'x) collector_scheme \<Rightarrow> ('j, 'x) collector_scheme result" where
  "start_thread perapi c =
     (if thread c = Joinable then Inl Terminated
      else if perapi then Inl BadFunctionCall
      else Inr (c\<lparr>finished := False, thread := Joinable\<rparr>))"

definition start_one ::
  "(nat \<Rightarrow> ('j, 'x, 'w) vtable) \<Rightarrow> ('j, 'x, 'w) collection \<Rightarrow> nat \<Rightarrow> ('j, 'x, 'w) collection result" where
  "start_one V s p =
     bind_res (call V v_clear p s) (\<lambda>(_, s1).
     bind_res (call V v_start p s1) (\<lambda>(ok, s2).
       if ok \<and> mIsThreaded (objs s2 p)
       then bind_res (start_thread (mEnablePerapiPerf s2) (objs s2 p))
              (\<lambda>c. Inr (s2\<lparr>objs := (objs s2)(p := c)\<rparr>))
       else Inr s2))"

definition resize :: "nat \<Rightarrow> 'a \<Rightarrow> 'a list \<Rightarrow> 'a list" where
  "resize n d xs = take n xs @ replicate (n - length xs) d"

definition start ::
  "(nat \<Rightarrow> ('j, 'x, 'w) vtable) \<Rightarrow> string list \<Rightarrow> i64 \<Rightarrow> ('j, 'x, 'w) collection \<Rightarrow>
     ('j, 'x, 'w) collection result" where
  "start V headers now s =
     bind_res
       (fold_res (start_one V)
         (s\<lparr>mTiming := [], mStartTime := now, mPreviousTime := now, mCustomHeaders := headers,
            mCustom := resize (length headers) [] [],
            mCustomSummarized := resize (length headers) [] (mCustomSummarized s)\<rparr>)
         (mRunning s))
       (\<lambda>s'. Inr (s'\<lparr>running := True\<rparr>))"

definition signal_finished :: "('j, 'x, 'w) collection \<Rightarrow> nat \<Rightarrow> ('j, 'x, 'w) collection" where
  "signal_finished s p =
     (if mIsThreaded (objs s p) then update_obj p (finished_update (\<lambda>_. True)) s else s)"

definition join_thread :: "('j, 'x) collector_scheme \<Rightarrow> ('j, 'x) collector_scheme result" where
  "join_thread c = (case thread c of NotJoinable \<Rightarrow> Inl InvalidJoin
     | Joinable \<Rightarrow> Inr (c\<lparr>thread := NotJoinable\<rparr>))"

text \<open>One turn of the second loop of \<open>stop\<close>; the list collects the valid results.\<close>

definition stop_one ::
  "(nat \<Rightarrow> ('j, 'x, 'w) vtable) \<Rightarrow> nat list \<times> ('j, 'x, 'w) collection \<Rightarrow> nat \<Rightarrow>
     (nat list \<times> ('j, 'x, 'w) collection) result" where
  "stop_one V ts p = (case ts of (tmp, s) \<Rightarrow>
     bind_res (if mIsThreaded (objs s p) then join_thread (objs s p) else Inr (objs s p)) (\<lambda>c.
     bind_res (call V v_stop p (s\<lparr>objs := (objs s)(p := c)\<rparr>)) (\<lambda>(_, s1).
     bind_res (call V (\<lambda>vt. v_postprocess vt (mTiming s1)) p s1) (\<lambda>(ok, s2).
       Inr (if ok then tmp @ [p] else tmp, s2)))))"

definition stop ::
  "(nat \<Rightarrow> ('j, 'x, 'w) vtable) \<Rightarrow> ('j, 'x, 'w) collection \<Rightarrow> ('j, 'x, 'w) collection result" where
  "stop V s =
     bind_res (fold_res (stop_one V) ([], foldl signal_finished s (mRunning s)) (mRunning s))
       (\<lambda>(tmp, s'). Inr (s'\<lparr>mRunning := tmp, running := False\<rparr>))"

text \<open>A loop over the running collectors that have no thread of their own.\<close>

definition each_unthreaded ::
  "(nat \<Rightarrow> ('j, 'x, 'w) vtable) \<Rightarrow> (('j, 'x, 'w) vtable \<Rightarrow> ('j, 'x, 'w) vmethod) \<Rightarrow>
     ('j, 'x, 'w) collection \<Rightarrow> ('j, 'x, 'w) collection result" where
  "each_unthreaded V sel s =
     fold_res (\<lambda>s p. if mIsThreaded (objs s p) then Inr s
                     else bind_res (call V sel p s) (\<lambda>(_, s'). Inr s')) s (mRunning s)"

fun push_custom :: "i64 list list \<Rightarrow> i64 list \<Rightarrow> i64 list list result" where
  "push_custom cs [] = Inr cs"
| "push_custom [] (v # vs) = Inl OutOfBounds"
| "push_custom (c # cs) (v # vs) = bind_res (push_custom cs vs) (\<lambda>cs'. Inr ((c @ [v]) # cs'))"

definition collect ::
  "(nat \<Rightarrow> ('j, 'x, 'w) vtable) \<Rightarrow> i64 list \<Rightarrow> i64 \<Rightarrow> ('j, 'x, 'w) collection \<Rightarrow>
     ('j, 'x, 'w) collection result" where
  "collect V custom now s =
     bind_res (each_unthreaded V (\<lambda>vt. v_collect vt now)
         (s\<lparr>mTiming := mTiming s @ [now - mPreviousTime s], mPreviousTime := now\<rparr>)) (\<lambda>s1.
     bind_res (assert_res (length custom = length (mCustomHeaders s1))) (\<lambda>_.
     bind_res (push_custom (mCustom s1) custom) (\<lambda>cs. Inr (s1\<lparr>mCustom := cs\<rparr>))))"

definition collect_scope_start where
  "collect_scope_start V label flags tid s =
     each_unthreaded V (\<lambda>vt. v_collect_scope_start vt label flags tid) s"

definition collect_scope_stop where
  "collect_scope_stop V label flags tid s =
     each_unthreaded V (\<lambda>vt. v_collect_scope_stop vt label flags tid) s"

text \<open>One turn of the thread of the collector at \<open>p\<close>; it is over once it sees \<open>finished\<close>.\<close>

definition thread_tick ::
  "(nat \<Rightarrow> ('j, 'x, 'w) vtable) \<Rightarrow> nat \<Rightarrow> i64 \<Rightarrow> ('j, 'x, 'w) collection \<Rightarrow>
     ('j, 'x, 'w) collection result" where
  "thread_tick V p now s =
     (if thread (objs s p) = Joinable \<and> \<not> finished (objs s p)
      then bind_res (call V (\<lambda>vt. v_collect vt now) p s) (\<lambda>(_, s'). Inr s')
      else Inr s)"

section \<open>Summaries\<close>

definition mean :: "i64 list \<Rightarrow> i64 result" where
  "mean ts = sdiv64 (foldl (+) 0 ts) (of_nat (length ts))"

fun summarize_custom :: "i64 list list \<Rightarrow> i64 list list \<Rightarrow> i64 list list result" where
  "summarize_custom [] acc = Inr acc"
| "summarize_custom (c # cs) [] = Inl OutOfBounds"
| "summarize_custom (c # cs) (s # acc) =
     bind_res (mean c) (\<lambda>q. bind_res (summarize_custom cs acc) (\<lambda>rest. Inr ((s @ [q]) # rest)))"

definition summarize ::
  "(nat \<Rightarrow> ('j, 'x, 'w) vtable) \<Rightarrow> ('j, 'x, 'w) collection \<Rightarrow> ('j, 'x, 'w) collection result" where
  "summarize V s =
     bind_res (fold_res (\<lambda>s p. bind_res (call V v_summarize p s) (\<lambda>(_, s'). Inr s')) s (mCollectors s)) (\<lambda>s1.
     bind_res (mean (mTiming s1)) (\<lambda>q.
     bind_res (summarize_custom (mCustom s1) (mCustomSummarized s1)) (\<lambda>acc.
       Inr (s1\<lparr>mTimingSummarized := mTimingSummarized s1 @ [q], mTiming := [],
              mCustomSummarized := acc, mCustom := map (\<lambda>_. []) (mCustom s1)\<rparr>))))"

section \<open>What virtual calls leave alone\<close>

text \<open>
  \<open>only_objects s s'\<close>: the step from \<open>s\<close> to \<open>s'\<close> changed nothing of the manager, and
  of the collectors only what a virtual function may change.
\<close>

definition only_objects :: "('j, 'x, 'w) collection \<Rightarrow> ('j, 'x, 'w) collection \<Rightarrow> bool" where
  "only_objects s s' \<longleftrightarrow> s' = s\<lparr>objs := objs s', world := world s'\<rparr>
     \<and> (\<forall>p. managed (objs s' p) = managed (objs s p))
     \<and> ((\<forall>p. results_wf (mResults (objs s p))) \<longrightarrow> (\<forall>p. results_wf (mResults (objs s' p))))"

lemma only_objects_refl [simp]: "only_objects s s"
  by (simp add: only_objects_def)

lemma only_objects_trans: "only_objects s1 s2 \<Longrightarrow> only_objects s2 s3 \<Longrightarrow> only_objects s1 s3"
  by (cases s1; cases s2; cases s3) (simp add: only_objects_def)

lemma only_objects_fields:
  assumes "only_objects s s'"
  shows "running s' = running s" "mEnablePerapiPerf s' = mEnablePerapiPerf s" "gConfig s' = gConfig s"
    "mCollectors s' = mCollectors s" "mRunning s' = mRunning s" "mCollectorMap s' = mCollectorMap s"
    "mTiming s' = mTiming s" "mTimingSummarized s' = mTimingSummarized s" "mCustom s' = mCustom s"
    "mCustomSummarized s' = mCustomSummarized s" "mCustomHeaders s' = mCustomHeaders s"
    "mStartTime s' = mStartTime s" "mPreviousTime s' = mPreviousTime s" "gDebug s' = gDebug s"
proof -
  have e: "s' = s\<lparr>objs := objs s', world := world s'\<rparr>" using assms by (simp add: only_objects_def)
  show "running s' = running s" "mEnablePerapiPerf s' = mEnablePerapiPerf s" "gConfig s' = gConfig s"
    "mCollectors s' = mCollectors s" "mRunning s' = mRunning s" "mCollectorMap s' = mCollectorMap s"
    "mTiming s' = mTiming s" "mTimingSummarized s' = mTimingSummarized s" "mCustom s' = mCustom s"
    "mCustomSummarized s' = mCustomSummarized s" "mCustomHeaders s' = mCustomHeaders s"
    "mStartTime s' = mStartTime s" "mPreviousTime s' = mPreviousTime s" "gDebug s' = gDebug s"
    by (subst e, simp)+
qed

lemma only_objects_managed:
  assumes "only_objects s s'"
  shows "mName (objs s' p) = mName (objs s p)" "thread (objs s' p) = thread (objs s p)"
    "finished (objs s' p) = finished (objs s p)" "mIsThreaded (objs s' p) = mIsThreaded (objs s p)"
  using assms by (auto simp: only_objects_def managed_def)

lemma only_objects_wf:
  "only_objects s s' \<Longrightarrow> \<forall>p. results_wf (mResults (objs s p)) \<Longrightarrow> results_wf (mResults (objs s' p))"
  by (simp add: only_objects_def)

lemmas only_objects_simps = only_objects_fields only_objects_managed

text \<open>The manager's side of the contract: every object is of a collector class.\<close>

locale manager =
  fixes V :: "nat \<Rightarrow> ('j, 'x, 'w) vtable"
  assumes classes: "collector_class (V p)"
begin

lemma call_only_objects:
  assumes "call V sel p s = Inr (b, s')" and "sel (V p) \<in> methods (V p)"
  shows "only_objects s s'"
  using assms collector_class.method_managed [OF classes assms(2)]
    collector_class.method_results_wf [OF classes assms(2)]
  by (fastforce simp: call_def only_objects_def)

lemma fold_calls_only_objects:
  assumes "fold_res f s ps = Inr s'"
    and "\<And>s p s'. f s p = Inr s' \<Longrightarrow> only_objects s s'"
  shows "only_objects s s'"
  using fold_res_invariant [OF assms(1), of "only_objects s"] assms(2) only_objects_trans by force

lemma each_unthreaded_only_objects:
  assumes "each_unthreaded V sel s = Inr s'" and "\<And>p. sel (V p) \<in> methods (V p)"
  shows "only_objects s s'"
proof (rule fold_calls_only_objects [OF assms(1) [unfolded each_unthreaded_def]])
  fix s p s'
  assume "(if mIsThreaded (objs s p) then Inr s
      else bind_res (call V sel p s) (\<lambda>(_, s'). Inr s')) = Inr s'"
  then show "only_objects s s'"
    using call_only_objects [of sel p s _ s'] assms(2) by (auto split: if_splits)
qed

lemma available_of_only_objects:
  "available_of want V ps s = Inr (names, s') \<Longrightarrow> only_objects s s'"
proof (induction ps arbitrary: s names)
  case (Cons p ps)
  then obtain b s1 n where 1: "call V v_available p s = Inr (b, s1)"
    and 2: "available_of want V ps s1 = Inr (n, s')" by auto
  with Cons.IH [OF 2] call_only_objects [OF 1] show ?case by (blast intro: only_objects_trans)
qed simp

end

section \<open>The invariant of the manager\<close>

text \<open>
  Names in the map are the names of the collectors they lead to; no collector runs twice; a thread
  exists only for a threaded collector of a run in progress; the columns of custom data match
  their headers; the samples of every collector are well typed.
\<close>

definition names_ok :: "('j, 'x, 'w) collection \<Rightarrow> bool" where
  "names_ok s \<longleftrightarrow> (\<forall>nm p. map_of (mCollectorMap s) nm = Some (Some p) \<longrightarrow>
     mName (objs s p) = nm \<and> p \<in> set (mCollectors s))"

definition running_ok :: "('j, 'x, 'w) collection \<Rightarrow> bool" where
  "running_ok s \<longleftrightarrow> set (mRunning s) \<subseteq> set (mCollectors s)
     \<and> distinct (map (\<lambda>p. mName (objs s p)) (mRunning s))"

definition threads_ok :: "('j, 'x, 'w) collection \<Rightarrow> bool" where
  "threads_ok s \<longleftrightarrow> (\<forall>p. thread (objs s p) = Joinable \<longrightarrow>
     running s \<and> p \<in> set (mRunning s) \<and> mIsThreaded (objs s p))"

definition custom_ok :: "('j, 'x, 'w) collection \<Rightarrow> bool" where
  "custom_ok s \<longleftrightarrow> length (mCustom s) = length (mCustomHeaders s)
     \<and> length (mCustomSummarized s) = length (mCustomHeaders s)"

definition results_ok :: "('j, 'x, 'w) collection \<Rightarrow> bool" where
  "results_ok s \<longleftrightarrow> (\<forall>p. results_wf (mResults (objs s p)))"

definition coll_wf :: "('j, 'x, 'w) collection \<Rightarrow> bool" where
  "coll_wf s \<longleftrightarrow> names_ok s \<and> running_ok s \<and> threads_ok s \<and> custom_ok s \<and> results_ok s"

lemmas coll_wf_defs = coll_wf_def names_ok_def running_ok_def threads_ok_def custom_ok_def results_ok_def

lemma coll_wf_only_objects: "only_objects s s' \<Longrightarrow> coll_wf s \<Longrightarrow> coll_wf s'"
  by (simp add: coll_wf_defs only_objects_simps only_objects_wf)

lemma coll_wf_running_distinct: "coll_wf s \<Longrightarrow> distinct (mRunning s)"
  by (auto simp: coll_wf_defs distinct_map)

lemma length_resize [simp]: "length (resize n d xs) = n"
  by (simp add: resize_def)

lemma push_custom_length: "push_custom cs vs = Inr cs' \<Longrightarrow> length cs' = length cs"
  by (induction cs vs arbitrary: cs' rule: push_custom.induct) auto

lemma summarize_custom_length: "summarize_custom cs acc = Inr acc' \<Longrightarrow> length acc' = length acc"
  by (induction cs acc arbitrary: acc' rule: summarize_custom.induct) auto

context manager begin

lemma collect_wf:
  assumes "collect V custom now s = Inr s'" and "coll_wf s"
  shows "coll_wf s'"
proof -
  let ?s0 = "s\<lparr>mTiming := mTiming s @ [now - mPreviousTime s], mPreviousTime := now\<rparr>"
  from assms(1) obtain s1 cs where 1: "each_unthreaded V (\<lambda>vt. v_collect vt now) ?s0 = Inr s1"
    and 2: "push_custom (mCustom s1) custom = Inr cs" and 3: "s' = s1\<lparr>mCustom := cs\<rparr>"
    by (auto simp: collect_def)
  have "coll_wf ?s0" using assms(2) by (simp add: coll_wf_defs)
  moreover have "only_objects ?s0 s1" using each_unthreaded_only_objects [OF 1] by auto
  ultimately have "coll_wf s1" by (rule coll_wf_only_objects [rotated])
  then show ?thesis using push_custom_length [OF 2] by (simp add: 3 coll_wf_defs)
qed

lemma summarize_wf:
  assumes "summarize V s = Inr s'" and "coll_wf s"
  shows "coll_wf s'"
proof -
  let ?f = "\<lambda>s p. bind_res (call V v_summarize p s) (\<lambda>(_, s'). Inr s')"
  from assms(1) obtain s1 q acc where 1: "fold_res ?f s (mCollectors s) = Inr s1"
    and 2: "summarize_custom (mCustom s1) (mCustomSummarized s1) = Inr acc"
    and 3: "s' = s1\<lparr>mTimingSummarized := mTimingSummarized s1 @ [q], mTiming := [],
              mCustomSummarized := acc, mCustom := map (\<lambda>_. []) (mCustom s1)\<rparr>"
    by (auto simp: summarize_def)
  have "only_objects s s1"
    by (rule fold_calls_only_objects [OF 1]) (auto intro: call_only_objects)
  then have "coll_wf s1" using assms(2) by (rule coll_wf_only_objects)
  then show ?thesis using summarize_custom_length [OF 2] by (simp add: 3 coll_wf_defs)
qed

lemma thread_tick_wf:
  assumes "thread_tick V p now s = Inr s'" and "coll_wf s"
  shows "coll_wf s'"
proof -
  have "only_objects s s'" using assms(1) call_only_objects [of "\<lambda>vt. v_collect vt now" p s _ s']
    by (auto simp: thread_tick_def split: if_splits)
  then show ?thesis using assms(2) by (rule coll_wf_only_objects)
qed

text \<open>Starting one collector: only its own thread can appear.\<close>

lemma start_one_effect:
  assumes "start_one V s p = Inr s'"
  shows "\<exists>s2 ok. only_objects s s2 \<and>
     (if ok \<and> mIsThreaded (objs s p)
      then thread (objs s p) \<noteq> Joinable
         \<and> s' = update_obj p (\<lambda>c. c\<lparr>finished := False, thread := Joinable\<rparr>) s2
      else s' = s2)"
proof -
  from assms obtain b1 s1 ok s2 where 1: "call V v_clear p s = Inr (b1, s1)"
    and 2: "call V v_start p s1 = Inr (ok, s2)"
    and 3: "(if ok \<and> mIsThreaded (objs s2 p)
       then bind_res (start_thread (mEnablePerapiPerf s2) (objs s2 p))
              (\<lambda>c. Inr (s2\<lparr>objs := (objs s2)(p := c)\<rparr>))
       else Inr s2) = Inr s'"
    by (auto simp: start_one_def)
  have oo: "only_objects s s2"
    using call_only_objects [OF 1] call_only_objects [OF 2] by (blast intro: only_objects_trans)
  show ?thesis
    using oo 3 only_objects_managed [OF oo, of p]
    by (intro exI [of _ s2] exI [of _ ok])
      (auto simp: start_thread_def update_obj_def split: if_splits)
qed

lemma start_one_wf:
  assumes "start_one V s p = Inr s'" and "coll_wf (s\<lparr>running := True\<rparr>)" and "p \<in> set (mRunning s)"
  shows "coll_wf (s'\<lparr>running := True\<rparr>) \<and> mRunning s' = mRunning s"
proof -
  obtain s2 ok where oo: "only_objects s s2" and
    s': "if ok \<and> mIsThreaded (objs s p)
      then thread (objs s p) \<noteq> Joinable
         \<and> s' = update_obj p (\<lambda>c. c\<lparr>finished := False, thread := Joinable\<rparr>) s2
      else s' = s2"
    using start_one_effect [OF assms(1)] by blast
  have 2: "coll_wf (s2\<lparr>running := True\<rparr>)"
    using assms(2) only_objects_wf [OF oo] by (simp add: coll_wf_defs only_objects_simps [OF oo])
  show ?thesis
  proof (cases "ok \<and> mIsThreaded (objs s p)")
    case True
    then have t: "mIsThreaded (objs s2 p)" "mRunning s2 = mRunning s"
      by (simp_all add: only_objects_simps [OF oo])
    have "mName (objs s' q) = mName (objs s2 q)" "mIsThreaded (objs s' q) = mIsThreaded (objs s2 q)"
      "mResults (objs s' q) = mResults (objs s2 q)"
      "thread (objs s' q) = (if q = p then Joinable else thread (objs s2 q))" for q
      using s' True by (simp_all add: update_obj_def)
    moreover have "mRunning s' = mRunning s2" "mCollectors s' = mCollectors s2"
      "mCollectorMap s' = mCollectorMap s2" "mCustom s' = mCustom s2"
      "mCustomHeaders s' = mCustomHeaders s2" "mCustomSummarized s' = mCustomSummarized s2"
      using s' True by (simp_all add: update_obj_def)
    ultimately show ?thesis using 2 t assms(3) by (simp add: coll_wf_defs)
  next
    case False
    then show ?thesis using s' 2 by (auto simp: only_objects_simps [OF oo])
  qed
qed

lemma start_wf:
  assumes "start V headers now s = Inr s'" and "coll_wf s"
  shows "coll_wf s'"
proof -
  let ?s0 = "s\<lparr>mTiming := [], mStartTime := now, mPreviousTime := now, mCustomHeaders := headers,
            mCustom := resize (length headers) [] [],
            mCustomSummarized := resize (length headers) [] (mCustomSummarized s)\<rparr>"
  from assms(1) obtain s1 where 1: "fold_res (start_one V) ?s0 (mRunning s) = Inr s1"
    and s': "s' = s1\<lparr>running := True\<rparr>"
    by (auto simp: start_def)
  have "coll_wf (?s0\<lparr>running := True\<rparr>)" using assms(2) by (auto simp: coll_wf_defs)
  then have "coll_wf (s1\<lparr>running := True\<rparr>) \<and> mRunning s1 = mRunning s"
    using start_one_wf
    by (intro fold_res_invariant [OF 1, of "\<lambda>t. coll_wf (t\<lparr>running := True\<rparr>) \<and> mRunning t = mRunning s"])
      auto
  then show ?thesis by (simp add: s')
qed

end

text \<open>
  \<open>same_manager s s'\<close>: the manager's own fields are unchanged, and so are the names of the
  collectors and which of them are threaded; threads may have ended.
\<close>

definition same_manager :: "('j, 'x, 'w) collection \<Rightarrow> ('j, 'x, 'w) collection \<Rightarrow> bool" where
  "same_manager s s' \<longleftrightarrow> s' = s\<lparr>objs := objs s', world := world s'\<rparr>
     \<and> (\<forall>p. mName (objs s' p) = mName (objs s p) \<and> mIsThreaded (objs s' p) = mIsThreaded (objs s p))
     \<and> (results_ok s \<longrightarrow> results_ok s')"

lemma same_manager_refl [simp]: "same_manager s s"
  by (simp add: same_manager_def)

lemma same_manager_trans: "same_manager s1 s2 \<Longrightarrow> same_manager s2 s3 \<Longrightarrow> same_manager s1 s3"
  by (cases s1; cases s2; cases s3) (simp add: same_manager_def)

lemma only_objects_same_manager: "only_objects s s' \<Longrightarrow> same_manager s s'"
  unfolding same_manager_def results_ok_def
  using only_objects_managed(1,4) only_objects_wf only_objects_def by blast

lemma same_manager_update:
  assumes "mName c = mName (objs s p)" and "mIsThreaded c = mIsThreaded (objs s p)"
    and "mResults c = mResults (objs s p)"
  shows "same_manager s (s\<lparr>objs := (objs s)(p := c)\<rparr>)"
  unfolding same_manager_def
proof (intro conjI)
  let ?s' = "s\<lparr>objs := (objs s)(p := c)\<rparr>"
  show "?s' = s\<lparr>objs := objs ?s', world := world ?s'\<rparr>"
    by (rule collection.equality) simp_all
qed (use assms in \<open>simp_all add: results_ok_def\<close>)

lemma same_manager_fields:
  assumes "same_manager s s'"
  shows "mCollectors s' = mCollectors s" "mRunning s' = mRunning s" "mCollectorMap s' = mCollectorMap s"
    "mTiming s' = mTiming s" "mCustom s' = mCustom s" "mCustomSummarized s' = mCustomSummarized s"
    "mCustomHeaders s' = mCustomHeaders s" "running s' = running s"
    "mName (objs s' p) = mName (objs s p)" "mIsThreaded (objs s' p) = mIsThreaded (objs s p)"
    "results_ok s \<Longrightarrow> results_ok s'"
proof -
  have e: "s' = s\<lparr>objs := objs s', world := world s'\<rparr>" using assms by (simp add: same_manager_def)
  show "mCollectors s' = mCollectors s" "mRunning s' = mRunning s" "mCollectorMap s' = mCollectorMap s"
    "mTiming s' = mTiming s" "mCustom s' = mCustom s" "mCustomSummarized s' = mCustomSummarized s"
    "mCustomHeaders s' = mCustomHeaders s" "running s' = running s"
    by (subst e, simp)+
qed (use assms in \<open>auto simp: same_manager_def\<close>)

lemma signal_finished_fold:
  "same_manager s (foldl signal_finished s ps)
   \<and> (\<forall>q. thread (objs (foldl signal_finished s ps) q) = thread (objs s q))
   \<and> (\<forall>q. finished (objs (foldl signal_finished s ps) q) \<longleftrightarrow>
        finished (objs s q) \<or> q \<in> set ps \<and> mIsThreaded (objs s q))"
proof (induction ps arbitrary: s)
  case (Cons p ps)
  have "same_manager s (signal_finished s p)"
    by (simp add: signal_finished_def update_obj_def same_manager_update)
  then show ?case using Cons.IH [of "signal_finished s p"] same_manager_trans
    by (auto simp: signal_finished_def update_obj_def) blast+
qed simp

context manager begin

lemma stop_one_effect:
  assumes "stop_one V (tmp, s) p = Inr (tmp', s')"
  shows "same_manager s s' \<and> (mIsThreaded (objs s p) \<longrightarrow> thread (objs s p) = Joinable)
     \<and> (\<forall>q. thread (objs s' q) = (if q = p \<and> mIsThreaded (objs s p) then NotJoinable else thread (objs s q)))
     \<and> (\<exists>ok. tmp' = (if ok then tmp @ [p] else tmp))"
proof -
  let ?s0 = "\<lambda>c. s\<lparr>objs := (objs s)(p := c)\<rparr>"
  from assms obtain c b1 s1 ok where
    c: "(if mIsThreaded (objs s p) then join_thread (objs s p) else Inr (objs s p)) = Inr c"
    and 1: "call V v_stop p (?s0 c) = Inr (b1, s1)"
    and 2: "call V (\<lambda>vt. v_postprocess vt (mTiming s1)) p s1 = Inr (ok, s')"
    and 3: "tmp' = (if ok then tmp @ [p] else tmp)"
    by (auto simp: stop_one_def)
  have oo: "only_objects (?s0 c) s'"
    using call_only_objects [OF 1] call_only_objects [OF 2] by (blast intro: only_objects_trans)
  have j: "mIsThreaded (objs s p) \<Longrightarrow> thread (objs s p) = Joinable \<and> c = objs s p\<lparr>thread := NotJoinable\<rparr>"
    "\<not> mIsThreaded (objs s p) \<Longrightarrow> c = objs s p"
    using c by (auto simp: join_thread_def split: thread_handle.splits)
  have "same_manager s (?s0 c)"
    by (rule same_manager_update) (use j in \<open>cases "mIsThreaded (objs s p)"; auto\<close>)+
  then have "same_manager s s'"
    using only_objects_same_manager [OF oo] by (rule same_manager_trans)
  then show ?thesis using j 3 by (auto simp: only_objects_managed [OF oo])
qed

lemma stop_fold_effect:
  assumes "fold_res (stop_one V) (tmp, s) ps = Inr (tmp', s')"
  shows "same_manager s s'
     \<and> (\<forall>q. thread (objs s' q) = (if q \<in> set ps \<and> mIsThreaded (objs s q) then NotJoinable else thread (objs s q)))
     \<and> (\<exists>A. tmp' = tmp @ nths ps A)"
  using assms
proof (induction ps arbitrary: tmp s)
  case Nil
  then show ?case by simp
next
  case (Cons p ps)
  then obtain t1 s1 where 1: "stop_one V (tmp, s) p = Inr (t1, s1)"
    and 2: "fold_res (stop_one V) (t1, s1) ps = Inr (tmp', s')" by (auto)
  note e1 = stop_one_effect [OF 1] and e2 = Cons.IH [OF 2]
  obtain b where b: "t1 = (if b then tmp @ [p] else tmp)" using e1 by blast
  obtain A where A: "tmp' = t1 @ nths ps A" using e2 by blast
  have "tmp' = tmp @ nths (p # ps) ((if b then {0} else {}) \<union> Suc ` A)"
    using b A by (simp add: nths_Cons inj_image_mem_iff)
  moreover have "same_manager s s'" using e1 e2 same_manager_trans by blast
  ultimately show ?case using e1 e2 same_manager_fields(10) [of s s1] by auto
qed

lemma stop_wf:
  assumes "stop V s = Inr s'" and "coll_wf s"
  shows "coll_wf s' \<and> \<not> running s' \<and> (\<forall>p. thread (objs s' p) = NotJoinable)"
proof -
  let ?s0 = "foldl signal_finished s (mRunning s)"
  from assms(1) obtain tmp s1 where 1: "fold_res (stop_one V) ([], ?s0) (mRunning s) = Inr (tmp, s1)"
    and s': "s' = s1\<lparr>mRunning := tmp, running := False\<rparr>"
    by (auto simp: stop_def)
  note e0 = signal_finished_fold [of s "mRunning s"] and e1 = stop_fold_effect [OF 1]
  have sm: "same_manager s s1" using e0 e1 same_manager_trans by blast
  obtain A where A: "tmp = nths (mRunning s) A" using e1 by auto
  have thr: "thread (objs s1 p) = NotJoinable" for p
    using assms(2) e0 e1 same_manager_fields(10) [of s ?s0 p]
    by (cases "thread (objs s p)") (auto simp: coll_wf_defs)
  have "set tmp \<subseteq> set (mRunning s)" using A set_nths_subset by fast
  moreover have "distinct (map (\<lambda>p. mName (objs s p)) tmp)"
    using assms(2) by (simp add: A coll_wf_defs flip: nths_map)
  ultimately show ?thesis using assms(2) thr same_manager_fields [OF sm]
    by (auto simp: s' coll_wf_defs)
qed

end

section \<open>Initialisation keeps the invariant\<close>

lemma collector_named_wf: "collector_named nm s = (q, s0) \<Longrightarrow> coll_wf s \<Longrightarrow> coll_wf s0"
  by (auto simp: collector_named_def coll_wf_defs map_of_map_set split: option.splits if_splits)

lemma collector_named_frame:
  "collector_named nm s = (q, s0) \<Longrightarrow> objs s0 = objs s \<and> mRunning s0 = mRunning s \<and> running s0 = running s
     \<and> gConfig s0 = gConfig s \<and> mCollectors s0 = mCollectors s
     \<and> (case q of None \<Rightarrow> True | Some p \<Rightarrow> map_of (mCollectorMap s) nm = Some (Some p) \<and> s0 = s)"
  by (auto simp: collector_named_def split: option.splits)

lemma coll_wf_clear_running: "coll_wf s \<Longrightarrow> \<not> running s \<Longrightarrow> coll_wf (s\<lparr>mRunning := []\<rparr>)"
  by (simp add: coll_wf_defs)

context manager begin

lemma initialize_collector_cases:
  assumes "initialize_collector J V nm s = Inr (ok, s')"
  obtains (already) p where "p \<in> set (mRunning s)" "mName (objs s p) = nm" "ok" "s' = s"
  | (failed) "\<not> ok" "only_objects s s'"
  | (enabled) p s1 c where "map_of (mCollectorMap s) nm = Some (Some p)" "ok" "only_objects s s1"
      "\<forall>q \<in> set (mRunning s). mName (objs s q) \<noteq> nm"
      "c = objs s1 p \<or> (\<exists>rate. c = objs s1 p\<lparr>mIsThreaded := True, mSampleRate := rate\<rparr>)"
      "s' = s1\<lparr>mRunning := mRunning s @ [p], gConfig := json_touch J (gConfig s) nm,
                objs := (objs s1)(p := c)\<rparr>"
proof (cases "\<exists>p \<in> set (mRunning s). mName (objs s p) = nm")
  case True
  then have "ok" "s' = s" using assms by (simp_all add: initialize_collector_def)
  with True show thesis using already by blast
next
  case False
  obtain q s0 where q: "collector_named nm s = (q, s0)" by fastforce
  with assms False obtain p where p: "q = Some p" by (cases q) (auto simp: initialize_collector_def)
  then have p': "map_of (mCollectorMap s) nm = Some (Some p)" "s0 = s"
    using collector_named_frame [OF q] by auto
  from assms False q p p' obtain b s1 where i: "call V v_init p s = Inr (b, s1)"
    and u: "(if b then enable_collector J nm p s1 else Inr (False, s1)) = Inr (ok, s')"
    by (auto simp: initialize_collector_def)
  have oo: "only_objects s s1" using call_only_objects [OF i] by auto
  show thesis
  proof (cases b)
    case True
    with u obtain c where c: "configure_threading J (j_at J (json_touch J (gConfig s1) nm) nm) (objs s1 p) = Inr c"
      and s': "s' = s1\<lparr>mRunning := mRunning s1 @ [p], gConfig := json_touch J (gConfig s1) nm,
        objs := (objs s1)(p := c)\<rparr>" and ok
      by (auto simp: enable_collector_def Let_def)
    have "c = objs s1 p \<or> (\<exists>rate. c = objs s1 p\<lparr>mIsThreaded := True, mSampleRate := rate\<rparr>)"
      using c by (auto simp: configure_threading_def useThreading_def split: if_splits)
    then show thesis
      using enabled [OF p'(1) \<open>ok\<close> oo, of c] False s' by (simp add: only_objects_fields [OF oo])
  qed (use u failed oo in auto)
qed

lemma initialize_collector_wf:
  assumes "initialize_collector J V nm s = Inr (ok, s')" and "coll_wf s"
  shows "coll_wf s' \<and> running s' = running s"
  using assms(1)
proof (cases rule: initialize_collector_cases)
  case already
  then show ?thesis using assms(2) by simp
next
  case failed
  then show ?thesis using coll_wf_only_objects assms(2) by (auto simp: only_objects_fields)
next
  case (enabled p s1 c)
  note oo = enabled(3)
  have name: "mName (objs s' q) = mName (objs s q)" "thread (objs s' q) = thread (objs s q)"
    "mResults (objs s' q) = mResults (objs s1 q)"
    "mIsThreaded (objs s q) \<Longrightarrow> mIsThreaded (objs s' q)" for q
    using enabled(5,6) by (auto simp: only_objects_managed [OF oo])
  have "mName (objs s p) = nm" "p \<in> set (mCollectors s)"
    using enabled(1) assms(2) by (auto simp: coll_wf_defs)
  moreover have "mRunning s' = mRunning s @ [p]" "mCollectors s' = mCollectors s" "running s' = running s"
    "mCollectorMap s' = mCollectorMap s" "mCustom s' = mCustom s" "mCustomHeaders s' = mCustomHeaders s"
    "mCustomSummarized s' = mCustomSummarized s"
    using enabled(6) by (simp_all add: only_objects_fields [OF oo])
  ultimately show ?thesis
    using assms(2) enabled(4) name only_objects_wf [OF oo] by (auto simp: coll_wf_defs)
qed

lemma try_enable_wf:
  assumes "try_enable J V nm s = Inr (b, s2)" and "coll_wf s"
  shows "coll_wf s2 \<and> running s2 = running s"
proof (cases "map_of (mCollectorMap s) nm")
  case None
  then show ?thesis using assms by (auto simp: try_enable_def)
next
  case (Some q)
  then obtain p a s1 where c: "call V v_available p s = Inr (a, s1)"
    and i: "if a then initialize_collector J V nm s1 = Inr (b, s2) else s2 = s1"
    using assms(1) by (cases q) (auto simp: try_enable_def split: if_splits)
  have oo: "only_objects s s1" using call_only_objects [OF c] by auto
  then have "coll_wf s1" "running s1 = running s"
    using assms(2) coll_wf_only_objects by (auto simp: only_objects_fields [OF oo])
  then show ?thesis using i initialize_collector_wf by (cases a) auto
qed

lemma initialize_list_wf:
  "initialize_list J V l s = Inr (ok, s') \<Longrightarrow> coll_wf s \<Longrightarrow> \<not> running s \<Longrightarrow> coll_wf s' \<and> \<not> running s'"
proof (induction l arbitrary: s)
  case (Cons nm l)
  show ?case
  proof (cases "nm = ''debug'' \<or> nm = ''provenance''")
    case True
    with Cons show ?thesis by auto
  next
    case False
    from Cons.prems(1) False obtain b s2 where t: "try_enable J V nm s = Inr (b, s2)"
      and r: "initialize_list J V l s2 = Inr (ok, s') \<or> s' = s2\<lparr>mRunning := []\<rparr>"
      by (auto split: if_splits)
    have "coll_wf s2 \<and> \<not> running s2"
      using try_enable_wf [OF t Cons.prems(2)] Cons.prems(3) by simp
    then show ?thesis using r Cons.IH coll_wf_clear_running by auto
  qed
qed simp

lemma initialize_wf:
  "initialize J V l s = Inr (ok, s') \<Longrightarrow> coll_wf s \<Longrightarrow> \<not> running s \<Longrightarrow> coll_wf s' \<and> \<not> running s'"
  unfolding initialize_def by (rule initialize_list_wf)

end

section \<open>Runs of the interface\<close>

text \<open>
  A client calls the operations of the interface in any order, except that it initialises
  collectors only while no run is in progress; between any two calls the thread of any collector
  may take a turn. A step is a call that returns.
\<close>

inductive api_step ::
  "'j json_ops \<Rightarrow> (nat \<Rightarrow> ('j, 'x, 'w) vtable) \<Rightarrow> ('j, 'x, 'w) collection \<Rightarrow> ('j, 'x, 'w) collection \<Rightarrow> bool"
  for J V where
  step_initialize: "\<not> running s \<Longrightarrow> initialize J V l s = Inr (ok, s') \<Longrightarrow> api_step J V s s'"
| step_initialize_collector: "initialize_collector J V nm s = Inr (ok, s') \<Longrightarrow> api_step J V s s'"
| step_available: "available V s = Inr (names, s') \<Longrightarrow> api_step J V s s'"
| step_unavailable: "unavailable V s = Inr (names, s') \<Longrightarrow> api_step J V s s'"
| step_collector: "collector_named nm s = (q, s') \<Longrightarrow> api_step J V s s'"
| step_add: "api_step J V s (addCollector p s)"
| step_debug: "api_step J V s (setDebug_all value s)"
| step_start: "start V headers now s = Inr s' \<Longrightarrow> api_step J V s s'"
| step_stop: "stop V s = Inr s' \<Longrightarrow> api_step J V s s'"
| step_collect: "collect V custom now s = Inr s' \<Longrightarrow> api_step J V s s'"
| step_scope_start: "collect_scope_start V label flags tid s = Inr s' \<Longrightarrow> api_step J V s s'"
| step_scope_stop: "collect_scope_stop V label flags tid s = Inr s' \<Longrightarrow> api_step J V s s'"
| step_summarize: "summarize V s = Inr s' \<Longrightarrow> api_step J V s s'"
| step_tick: "thread_tick V p now s = Inr s' \<Longrightarrow> api_step J V s s'"

inductive reachable ::
  "'j json_ops \<Rightarrow> (nat \<Rightarrow> ('j, 'x, 'w) vtable) \<Rightarrow> ('j, 'x, 'w) collection \<Rightarrow> ('j, 'x, 'w) collection \<Rightarrow> bool"
  for J V s0 where
  reach_init: "reachable J V s0 s0"
| reach_step: "reachable J V s0 s \<Longrightarrow> api_step J V s s' \<Longrightarrow> reachable J V s0 s'"

inductive_cases reachable_cases: "reachable J V s0 s"

lemma coll_wf_update_obj:
  assumes "coll_wf s" and "\<And>c. mName (f c) = mName c \<and> thread (f c) = thread c
      \<and> mIsThreaded (f c) = mIsThreaded c \<and> mResults (f c) = mResults c"
  shows "coll_wf (update_obj p f s) \<and> mCollectors (update_obj p f s) = mCollectors s"
proof -
  have "mName (objs (update_obj p f s) q) = mName (objs s q)"
    "thread (objs (update_obj p f s) q) = thread (objs s q)"
    "mIsThreaded (objs (update_obj p f s) q) = mIsThreaded (objs s q)"
    "mResults (objs (update_obj p f s) q) = mResults (objs s q)" for q
    using assms(2) by (simp_all add: update_obj_def)
  moreover have "running (update_obj p f s) = running s" "mCollectors (update_obj p f s) = mCollectors s"
    "mRunning (update_obj p f s) = mRunning s" "mCollectorMap (update_obj p f s) = mCollectorMap s"
    "mCustom (update_obj p f s) = mCustom s" "mCustomHeaders (update_obj p f s) = mCustomHeaders s"
    "mCustomSummarized (update_obj p f s) = mCustomSummarized s"
    by (simp_all add: update_obj_def)
  ultimately show ?thesis using assms(1) by (simp add: coll_wf_defs)
qed

lemma coll_wf_doubleTransform: "coll_wf s \<Longrightarrow> coll_wf (update_obj p (doubleTransform f) s)"
  using coll_wf_update_obj [of s "doubleTransform f"] by (simp add: doubleTransform_def)

lemma setDebug_keeps:
  "mName (setDebug b c) = mName c \<and> thread (setDebug b c) = thread c
     \<and> mIsThreaded (setDebug b c) = mIsThreaded c \<and> mResults (setDebug b c) = mResults c"
  by (simp add: setDebug_def)

lemma setDebug_all_wf: "coll_wf s \<Longrightarrow> coll_wf (setDebug_all b s)"
proof -
  have *: "coll_wf s \<Longrightarrow> coll_wf (foldl (\<lambda>s p. update_obj p (setDebug True) s) s ps)" for s ps
    by (induction ps arbitrary: s) (simp_all add: coll_wf_update_obj setDebug_keeps)
  assume "coll_wf s"
  then show ?thesis unfolding setDebug_all_def by (intro *) (simp add: coll_wf_defs)
qed

lemma addCollector_wf: "coll_wf s \<Longrightarrow> coll_wf (addCollector p s)"
  by (auto simp: addCollector_def coll_wf_defs)

context manager begin

lemma scope_wf:
  "collect_scope_start V label flags tid s = Inr s' \<Longrightarrow> coll_wf s \<Longrightarrow> coll_wf s'"
  "collect_scope_stop V label flags tid s = Inr s' \<Longrightarrow> coll_wf s \<Longrightarrow> coll_wf s'"
  unfolding collect_scope_start_def collect_scope_stop_def
  by (auto dest!: each_unthreaded_only_objects intro: coll_wf_only_objects)

lemma api_step_wf: "api_step J V s s' \<Longrightarrow> coll_wf s \<Longrightarrow> coll_wf s'"
proof (induction rule: api_step.induct)
  case (step_available s names s')
  then show ?case unfolding available_def
    using available_of_only_objects coll_wf_only_objects by blast
next
  case (step_unavailable s names s')
  then show ?case unfolding unavailable_def
    using available_of_only_objects coll_wf_only_objects by blast
qed (simp_all add: initialize_wf initialize_collector_wf collector_named_wf setDebug_all_wf
      addCollector_wf start_wf stop_wf collect_wf scope_wf summarize_wf thread_tick_wf)

lemma reachable_wf: "reachable J V s0 s \<Longrightarrow> coll_wf s0 \<Longrightarrow> coll_wf s"
  by (induction rule: reachable.induct) (auto intro: api_step_wf)

end

subsection \<open>The initial state\<close>

lemma register_builtin_wf:
  assumes "coll_wf s" and "p \<in> set (mCollectors s)"
  shows "coll_wf (register_builtin debug s p) \<and> mCollectors (register_builtin debug s p) = mCollectors s"
proof -
  let ?s1 = "if debug then update_obj p (setDebug True) s else s"
  have 1: "coll_wf ?s1" "mCollectors ?s1 = mCollectors s"
    using coll_wf_update_obj [OF assms(1) setDebug_keeps] assms(1) by auto
  let ?s2 = "?s1\<lparr>mCollectorMap := map_set (mName (objs ?s1 p)) (Some p) (mCollectorMap ?s1)\<rparr>"
  have r: "register_builtin debug s p = ?s2"
    unfolding register_builtin_def Let_def ..
  have w: "coll_wf (t\<lparr>mCollectorMap := map_set (mName (objs t p)) (Some p) (mCollectorMap t)\<rparr>)"
    if "coll_wf t" "p \<in> set (mCollectors t)" for t :: "('a, 'b, 'c) collection"
    using that by (auto simp: coll_wf_defs map_of_map_set split: if_splits)
  show ?thesis unfolding r using w [OF 1(1)] 1(2) assms(2) by auto
qed

lemma register_all_wf:
  "coll_wf s \<Longrightarrow> set ps \<subseteq> set (mCollectors s) \<Longrightarrow> coll_wf (foldl (register_builtin debug) s ps)"
  by (induction ps arbitrary: s) (simp_all add: register_builtin_wf)

text \<open>The objects a constructor makes: named as asked, no thread, no samples yet.\<close>

definition fresh_object :: "('j, 'x) collector_scheme \<Rightarrow> bool" where
  "fresh_object c \<longleftrightarrow> thread c = NotJoinable \<and> mResults c = []"

definition constructs :: "('j \<Rightarrow> string \<Rightarrow> builtin \<Rightarrow> ('j, 'x) collector_scheme) \<Rightarrow> bool" where
  "constructs new \<longleftrightarrow> (\<forall>config nm b. mName (new config nm b) = nm \<and> fresh_object (new config nm b))"

lemma results_wf_Nil [simp]: "results_wf []"
  by (simp add: results_wf_def map_wf_def)

lemma create_builtins_wf:
  assumes "constructs new" and "\<forall>p. fresh_object (fresh p)"
  shows "coll_wf ((create_builtins new config bs (empty_collection fresh w config perapi))\<lparr>gDebug := debug\<rparr>)"
  using assms
  by (simp add: coll_wf_defs create_builtins_def empty_collection_def constructs_def fresh_object_def)

lemma init_from_json_wf:
  assumes "init_from_json J android new config s0 = Inr s"
    and "\<And>bs debug. coll_wf ((create_builtins new config bs s0)\<lparr>gDebug := debug\<rparr>)"
  shows "coll_wf s"
proof -
  let ?debug = "config_debug J config s0"
  let ?s1 = "(create_builtins new config (builtin_collectors android (mEnablePerapiPerf s0)) s0)\<lparr>gDebug := ?debug\<rparr>"
  have 2: "coll_wf (foldl (register_builtin ?debug) ?s1 (mCollectors ?s1))"
    using assms(2) by (intro register_all_wf) auto
  have "s = foldl (register_builtin ?debug) ?s1 (mCollectors ?s1) \<or> (\<exists>p s3.
      collector_named ''battery_temperature'' (foldl (register_builtin ?debug) ?s1 (mCollectors ?s1)) = (Some p, s3)
      \<and> s = update_obj p (doubleTransform (DFin (1 / 10))) s3)"
    using assms(1) unfolding init_from_json_def Let_def
    by (auto split: if_splits option.splits prod.splits)
  then show ?thesis using 2 by (blast intro: coll_wf_doubleTransform dest: collector_named_wf)
qed

lemma Collection_new_wf:
  assumes "Collection_new J android new fresh w config perapi = Inr s"
    and "constructs new" and "\<forall>p. fresh_object (fresh p)"
  shows "coll_wf s"
  using assms(1) create_builtins_wf [OF assms(2,3)] unfolding Collection_new_def
  by (rule init_from_json_wf)

end
