(* ===== verification/C_Library.thy ===== *)
theory C_Library
  imports Prelude
begin

text \<open>
  The parts of the C library the sources use on strings: \<open>strtol\<close> in base ten, \<open>strchr\<close>,
  the conversions of \<open>sscanf\<close> that occur in format strings of the sources, and the decimal
  output of \<open>%lld\<close>, \<open>%llu\<close> and \<open>_to_string\<close>. A C string is the list of its
  characters without the terminating NUL. The C locale is assumed.
\<close>

section \<open>Characters\<close>

definition NUL :: char where
  "NUL = CHR 0x00"

definition c_isspace :: "char \<Rightarrow> bool" where
  "c_isspace c = (c \<in> {CHR '' '', CHR 0x09, CHR 0x0A, CHR 0x0B, CHR 0x0C, CHR 0x0D})"

definition c_isdigit :: "char \<Rightarrow> bool" where
  "c_isdigit c = (48 \<le> (of_char c :: nat) \<and> (of_char c :: nat) \<le> 57)"

definition digit_value :: "char \<Rightarrow> nat" where
  "digit_value c = of_char c - 48"

text \<open>The C string held in a buffer: everything before the first NUL.\<close>

definition c_string :: "string \<Rightarrow> string" where
  "c_string buf = takeWhile (\<lambda>c. c \<noteq> NUL) buf"

text \<open>\<open>strstr\<close>: whether the second string occurs in the first.\<close>

fun strstr :: "string \<Rightarrow> string \<Rightarrow> bool" where
  "strstr [] pat = (pat = [])"
| "strstr (c # s) pat = (take (length pat) (c # s) = pat \<or> strstr s pat)"

lemma strstr_iff: "strstr s pat \<longleftrightarrow> (\<exists>u v. s = u @ pat @ v)"
proof (induction s pat rule: strstr.induct)
  case (2 c s pat)
  have "take (length pat) (c # s) = pat \<longleftrightarrow> (\<exists>v. c # s = pat @ v)"
    by (metis append_eq_conv_conj append_take_drop_id)
  moreover have "(\<exists>u v. c # s = u @ pat @ v) \<longleftrightarrow> (\<exists>v. c # s = pat @ v) \<or> (\<exists>u v. s = u @ pat @ v)"
    by (metis Cons_eq_append_conv append_Cons append_Nil)
  ultimately show ?case using 2 by simp
qed auto

section \<open>Numbers in strings\<close>

definition skip_space :: "string \<Rightarrow> string" where
  "skip_space s = dropWhile c_isspace s"

fun take_sign :: "string \<Rightarrow> bool \<times> string" where
  "take_sign [] = (False, [])"
| "take_sign (c # s) =
     (if c = CHR ''-'' then (True, s) else if c = CHR ''+'' then (False, s) else (False, c # s))"

definition digits_value :: "string \<Rightarrow> nat" where
  "digits_value ds = foldl (\<lambda>n c. 10 * n + digit_value c) 0 ds"

text \<open>
  The number at the front of a string, white space and sign skipped, and the rest of the string;
  \<open>None\<close> when there is no digit.
\<close>

definition scan_int :: "string \<Rightarrow> (int \<times> string) option" where
  "scan_int s =
     (case take_sign (skip_space s) of (neg, t) \<Rightarrow>
        let ds = takeWhile c_isdigit t in
        if ds = [] then None
        else Some (if neg then - int (digits_value ds) else int (digits_value ds), dropWhile c_isdigit t))"

definition saturate64 :: "int \<Rightarrow> i64" where
  "saturate64 n = word_of_int (max (- (2 ^ 63)) (min (2 ^ 63 - 1) n))"

text \<open>\<open>strtol(s, &end, 10)\<close>: the value and what \<open>end\<close> points to.\<close>

definition strtol :: "string \<Rightarrow> i64 \<times> string" where
  "strtol s = (case scan_int s of None \<Rightarrow> (0, s) | Some (n, rest) \<Rightarrow> (saturate64 n, rest))"

text \<open>\<open>atoi(s)\<close>, as the C library computes it.\<close>

definition atoi :: "string \<Rightarrow> i32" where
  "atoi s = ucast (fst (strtol s))"

section \<open>Formatted input\<close>

text \<open>
  A format string is a list of directives. White space skips any white space, a literal must match
  the next character, and a conversion stores a value; scanning stops at the first directive that
  does not match. The result is the list of stored values: \<open>sscanf\<close> returns its length.
\<close>

datatype directive = F_space | F_lit char | F_d | F_u | F_lu | F_s | F_c

datatype scanned = S_d i32 | S_u u32 | S_lu u64 | S_s string | S_c char

fun scan_conv :: "directive \<Rightarrow> string \<Rightarrow> (scanned \<times> string) option" where
  "scan_conv F_d s = map_option (\<lambda>(n, r). (S_d (word_of_int n), r)) (scan_int s)"
| "scan_conv F_u s = map_option (\<lambda>(n, r). (S_u (word_of_int n), r)) (scan_int s)"
| "scan_conv F_lu s = map_option (\<lambda>(n, r). (S_lu (word_of_int n), r)) (scan_int s)"
| "scan_conv F_s s =
     (let t = skip_space s; w = takeWhile (\<lambda>c. \<not> c_isspace c) t in
      if w = [] then None else Some (S_s w, dropWhile (\<lambda>c. \<not> c_isspace c) t))"
| "scan_conv F_c s = (case s of [] \<Rightarrow> None | c # r \<Rightarrow> Some (S_c c, r))"
| "scan_conv _ s = None"

fun sscanf :: "directive list \<Rightarrow> string \<Rightarrow> scanned list" where
  "sscanf [] s = []"
| "sscanf (F_space # fs) s = sscanf fs (skip_space s)"
| "sscanf (F_lit c # fs) s = (case s of [] \<Rightarrow> [] | d # r \<Rightarrow> if d = c then sscanf fs r else [])"
| "sscanf (f # fs) s = (case scan_conv f s of None \<Rightarrow> [] | Some (v, r) \<Rightarrow> v # sscanf fs r)"

definition F_text :: "string \<Rightarrow> directive list" where
  "F_text s = map (\<lambda>c. if c = CHR '' '' then F_space else F_lit c) s"

section \<open>Formatted output\<close>

definition digit_char :: "nat \<Rightarrow> char" where
  "digit_char n = char_of (48 + n)"

fun show_nat :: "nat \<Rightarrow> string" where
  "show_nat n = (if n < 10 then [digit_char n] else show_nat (n div 10) @ [digit_char (n mod 10)])"

declare show_nat.simps [simp del]

definition show_int :: "int \<Rightarrow> string" where
  "show_int n = (if n < 0 then CHR ''-'' # show_nat (nat (- n)) else show_nat (nat n))"

section \<open>What is written can be read back\<close>

lemma digit_char_isdigit: "n < 10 \<Longrightarrow> c_isdigit (digit_char n) \<and> digit_value (digit_char n) = n"
  by (simp add: digit_char_def c_isdigit_def digit_value_def)

lemma show_nat_digits: "list_all c_isdigit (show_nat n) \<and> show_nat n \<noteq> []"
proof (induction n rule: show_nat.induct)
  case (1 n)
  show ?case
    using 1 digit_char_isdigit by (subst (1 2) show_nat.simps) simp
qed

lemma digits_value_snoc: "digits_value (ds @ [c]) = 10 * digits_value ds + digit_value c"
  by (simp add: digits_value_def)

lemma digits_value_show_nat: "digits_value (show_nat n) = n"
proof (induction n rule: show_nat.induct)
  case (1 n)
  show ?case
    using 1 digit_char_isdigit [of n] digit_char_isdigit [of "n mod 10"]
    by (subst show_nat.simps) (simp add: digits_value_snoc, simp add: digits_value_def)
qed

lemma takeWhile_dropWhile_digits:
  assumes "list_all c_isdigit ds" and "r = [] \<or> \<not> c_isdigit (hd r)"
  shows "takeWhile c_isdigit (ds @ r) = ds \<and> dropWhile c_isdigit (ds @ r) = r"
  using assms by (cases r) (induction ds; simp)+

lemma digit_not_sign: "c_isdigit c \<Longrightarrow> \<not> c_isspace c \<and> c \<noteq> CHR ''-'' \<and> c \<noteq> CHR ''+''"
  by (auto simp: c_isdigit_def c_isspace_def)

lemma sign_not_space: "\<not> c_isspace (CHR ''-'')"
  by (simp add: c_isspace_def)

lemma scan_int_show_int:
  assumes "r = [] \<or> \<not> c_isdigit (hd r)"
  shows "scan_int (show_int n @ r) = Some (n, r)"
proof -
  let ?ds = "\<lambda>n. show_nat n"
  have d: "list_all c_isdigit (?ds m)" "?ds m \<noteq> []" for m using show_nat_digits by auto
  have h: "take_sign (skip_space (?ds m @ r)) = (False, ?ds m @ r)" for m
  proof -
    obtain c cs where c: "?ds m = c # cs" using d(2) [of m] by (cases "?ds m") auto
    then have "c_isdigit c" using d(1) [of m] by simp
    then show ?thesis using digit_not_sign [of c] by (simp add: c skip_space_def)
  qed
  have neg: "take_sign (skip_space (CHR ''-'' # ?ds m @ r)) = (True, ?ds m @ r)" for m
    by (simp add: skip_space_def sign_not_space)
  have tw: "takeWhile c_isdigit (?ds m @ r) = ?ds m" "dropWhile c_isdigit (?ds m @ r) = r" for m
    using takeWhile_dropWhile_digits [OF d(1) assms] by auto
  show ?thesis
    by (cases "n < 0") (simp_all add: scan_int_def show_int_def h neg tw d(2) digits_value_show_nat)
qed

lemma saturate64_exact: "- (2 ^ 63) \<le> n \<Longrightarrow> n < 2 ^ 63 \<Longrightarrow> saturate64 n = word_of_int n"
  by (simp add: saturate64_def)

lemma strtol_show_int:
  assumes "r = [] \<or> \<not> c_isdigit (hd r)" and "- (2 ^ 63) \<le> n" and "n < 2 ^ 63"
  shows "strtol (show_int n @ r) = (word_of_int n, r)"
  using scan_int_show_int [OF assms(1)] saturate64_exact [OF assms(2,3)] by (simp add: strtol_def)

lemma take_sign_length: "length (snd (take_sign s)) \<le> length s"
  by (cases s) auto

lemma scan_int_shorter: "scan_int s = Some (n, r) \<Longrightarrow> length r < length s"
proof -
  assume a: "scan_int s = Some (n, r)"
  obtain neg t where t: "take_sign (skip_space s) = (neg, t)" by fastforce
  with a have r: "takeWhile c_isdigit t \<noteq> []" "r = dropWhile c_isdigit t"
    by (auto simp: scan_int_def Let_def split: if_splits)
  then have "length r < length t" by (cases t) (auto simp: length_dropWhile_le le_imp_less_Suc split: if_splits)
  also have "length t \<le> length (skip_space s)" using take_sign_length [of "skip_space s"] t by simp
  also have "\<dots> \<le> length s" by (simp add: skip_space_def length_dropWhile_le)
  finally show ?thesis .
qed

lemma strtol_rest: "length (snd (strtol s)) \<le> length s"
  using scan_int_shorter by (fastforce simp: strtol_def split: option.splits)

end
