(* ===== verification/Sysfs.thy ===== *)
theory Sysfs
  imports Collector C_Library
begin

text \<open>
  \<open>SysfsCollector\<close> (\<open>interface.cpp\<close>) and its subclasses \<open>CPUTemperatureCollector\<close>,
  \<open>GPUFreqCollector\<close> and \<open>ProcFSStatCollector\<close>: each keeps one file of the kernel open, reads
  it again at every sample and overrides only the parser. The system calls are an argument of the
  model, a record of functions on the state of the operating system. The locale
  \<open>sysfs_parser\<close> is what the shared code needs of a parser; the four parsers interpret it.
\<close>

section \<open>System calls\<close>

record 'w os_ops =
  os_open :: "string \<Rightarrow> 'w \<Rightarrow> int \<times> 'w"
  os_read :: "int \<Rightarrow> nat \<Rightarrow> 'w \<Rightarrow> string option \<times> 'w"
  os_rewind :: "int \<Rightarrow> 'w \<Rightarrow> bool \<times> 'w"
  os_close :: "int \<Rightarrow> 'w \<Rightarrow> 'w"
  os_getpid :: "'w \<Rightarrow> i32"
  os_clock_ticks :: "'w \<Rightarrow> i64"

section \<open>The shared code\<close>

record sysfs_state =
  mSysfsFile :: string
  mOptions :: "string list"
  mFD :: int
  mAccumulative :: bool

type_synonym ('j, 'p) sysfs_collector = "('j, 'p sysfs_state_scheme) collector_scheme"

definition fd :: "('j, 'p) sysfs_collector \<Rightarrow> int" where
  "fd c = mFD (collector.more c)"

definition set_private :: "('y \<Rightarrow> 'y) \<Rightarrow> ('j, 'y) collector_scheme \<Rightarrow> ('j, 'y) collector_scheme" where
  "set_private f c = collector.more_update f c"

text \<open>A method that changes neither what the manager owns nor the samples keeps the contract.\<close>

definition same_results :: "('j, 'x) collector_scheme \<Rightarrow> ('j, 'x) collector_scheme \<Rightarrow> bool" where
  "same_results c c' \<longleftrightarrow> managed c' = managed c \<and> mResults c' = mResults c"

lemma same_results_simps [simp]:
  "same_results c c" "same_results c (set_private f c)"
  "same_results c (d\<lparr>mCollecting := b\<rparr>) = same_results c d" "same_results c (d\<lparr>mCustomResult := v\<rparr>) = same_results c d"
  "same_results c (d\<lparr>mIsSummarized := b\<rparr>) = same_results c d"
  "same_results c (set_private f d) = same_results c d"
  by (simp_all add: same_results_def managed_def set_private_def)

lemma keeps_same: "(\<And>c w b c' w'. f c w = Inr (b, c', w') \<Longrightarrow> same_results c c') \<Longrightarrow> keeps_contract f"
  by (metis keeps_contract_def same_results_def)

definition SysfsCollector_new ::
  "'j json_ops \<Rightarrow> 'j \<Rightarrow> string \<Rightarrow> string list \<Rightarrow> bool \<Rightarrow> 'p \<Rightarrow> ('j, 'p) sysfs_collector" where
  "SysfsCollector_new J config nm sysfsfiles accumulative priv =
     collector.extend (Collector_new J config nm)
       \<lparr>mSysfsFile = [], mOptions = sysfsfiles, mFD = -2, mAccumulative = accumulative, \<dots> = priv\<rparr>"

text \<open>The loop of \<open>init\<close> over the candidate files.\<close>

fun open_first ::
  "'w os_ops \<Rightarrow> string list \<Rightarrow> 'p sysfs_state_scheme \<Rightarrow> 'w \<Rightarrow> 'p sysfs_state_scheme \<times> 'w" where
  "open_first OS [] x w = (x, w)"
| "open_first OS (s # ss) x w =
     (case os_open OS s w of (f, w') \<Rightarrow>
        if f < 0 then open_first OS ss (x\<lparr>mFD := -1\<rparr>) w'
        else (x\<lparr>mFD := f, mSysfsFile := s\<rparr>, w'))"

definition Sysfs_init :: "'w os_ops \<Rightarrow> ('j, 'p sysfs_state_scheme, 'w) vmethod" where
  "Sysfs_init OS c w =
     (if fd c = -2
      then case open_first OS (mOptions (collector.more c)) (collector.more c) w of
        (x, w') \<Rightarrow> Inr (mFD x \<noteq> -1, set_private (\<lambda>_. x) c, w')
      else Inr (fd c \<noteq> -1, c, w))"

definition Sysfs_available :: "'w os_ops \<Rightarrow> ('j, 'p sysfs_state_scheme, 'w) vmethod" where
  "Sysfs_available OS c w =
     bind_res (Sysfs_init OS c w) (\<lambda>(_, c', w'). Inr (0 \<le> fd c', c', w'))"

type_synonym ('j, 'p) sysfs_parse =
  "string \<Rightarrow> ('j, 'p) sysfs_collector \<Rightarrow> (bool \<times> ('j, 'p) sysfs_collector) result"

text \<open>
  \<open>collect\<close>: read into a zeroed buffer of 1024 bytes, return to the start of the file or
  re-open it, and parse. The buffer always ends in a NUL.
\<close>

definition sysfs_reset :: "'w os_ops \<Rightarrow> ('j, 'p) sysfs_collector \<Rightarrow> 'w \<Rightarrow> bool \<times> ('j, 'p) sysfs_collector \<times> 'w" where
  "sysfs_reset OS c w =
     (case os_rewind OS (fd c) w of
        (True, w1) \<Rightarrow> (True, c, w1)
      | (False, w1) \<Rightarrow>
          (case os_open OS (mSysfsFile (collector.more c)) (os_close OS (fd c) w1) of (f, w2) \<Rightarrow>
             if f < 0 then (False, set_private (mFD_update (\<lambda>_. -1)) c, w2)
             else (True, set_private (mFD_update (\<lambda>_. f)) c, w2)))"

definition Sysfs_collect ::
  "('j, 'p) sysfs_parse \<Rightarrow> 'w os_ops \<Rightarrow> i64 \<Rightarrow> ('j, 'p sysfs_state_scheme, 'w) vmethod" where
  "Sysfs_collect parse OS now c w =
     bind_res (assert_res (fd c \<noteq> -1)) (\<lambda>_.
       case os_read OS (fd c) 1023 w of
         (None, w1) \<Rightarrow> Inr (False, c, w1)
       | (Some bytes, w1) \<Rightarrow>
           (case sysfs_reset OS c w1 of
              (False, c2, w2) \<Rightarrow> Inr (False, c2, w2)
            | (True, c2, w2) \<Rightarrow>
                bind_res (parse (c_string (take 1023 bytes)) c2) (\<lambda>(ok, c3). Inr (ok, c3, w2))))"

text \<open>The destructor, up to the release of the memory.\<close>

definition Sysfs_destroy :: "'w os_ops \<Rightarrow> ('j, 'p) sysfs_collector \<Rightarrow> 'w \<Rightarrow> ('j, 'p) sysfs_collector \<times> 'w" where
  "Sysfs_destroy OS c w =
     ((set_private (mFD_update (\<lambda>_. -1)) c)\<lparr>mCollecting := False\<rparr>,
      if fd c \<noteq> -1 then os_close OS (fd c) w else w)"

definition sysfs_vtable ::
  "('j, 'p) sysfs_parse \<Rightarrow> 'w os_ops \<Rightarrow> ('j, 'p sysfs_state_scheme, 'w) vtable" where
  "sysfs_vtable parse OS =
     (base_vtable (Sysfs_collect parse OS) (Sysfs_available OS))\<lparr>v_init := Sysfs_init OS\<rparr>"

section \<open>The parsers\<close>

text \<open>\<open>SysfsCollector::parse\<close>: the test \<open>!*end\<close> fails a number that ends the string.\<close>

definition Sysfs_parse :: "('j, 'p) sysfs_parse" where
  "Sysfs_parse buffer c =
     (case strtol buffer of (temp, rest) \<Rightarrow>
        if rest = [] then Inr (False, c)
        else if is_nan (mFactor c)
          then bind_res (add_long (mName c) temp c) (\<lambda>c'. Inr (True, c'))
          else bind_res (add_double (mName c) (dmul (double_of_int (sint temp)) (mFactor c)) c)
                 (\<lambda>c'. Inr (True, c')))"

definition option_map :: "(string, double) std_map" where
  "option_map = fold (\<lambda>(k, v). map_set k v)
     [(''/sys/devices/platform/exynos5-tmu/curr_temp'', DFin 10),
      (''/sys/devices/platform/exynos5-tmu/temp'', DFin 10),
      (''/sys/class/thermal/thermal_zone1/temp'', DFin 10),
      (''/sys/devices/virtual/thermal/thermal_zone0/temp'', DFin 100),
      (''class/thermal/thermal_zone0/temp'', DFin 100)] []"

definition extract_keys :: "('k, 'v) std_map \<Rightarrow> 'k list" where
  "extract_keys input_map = map fst input_map"

definition CPUTemperatureCollector_new :: "'j json_ops \<Rightarrow> 'j \<Rightarrow> string \<Rightarrow> ('j, unit) sysfs_collector" where
  "CPUTemperatureCollector_new J config nm =
     SysfsCollector_new J config nm (extract_keys option_map) False ()"

text \<open>
  \<open>CPUTemperatureCollector::parse\<close>. \<open>rest\<close> is what \<open>end\<close> points to; \<open>tmp == buffer\<close>
  holds exactly when nothing of the buffer has been consumed, and so only in the first turn.
  \<open>skip_prefix\<close> moves past the next colon, if there is one.
\<close>

fun skip_prefix :: "string \<Rightarrow> string option" where
  "skip_prefix [] = None"
| "skip_prefix (c # s) = (if c = CHR '':'' then Some s else skip_prefix s)"

lemma skip_prefix_shorter: "skip_prefix s = Some t \<Longrightarrow> length t < length s"
  by (induction s) (auto split: if_splits)

definition cputemp_key :: "nat \<Rightarrow> string" where
  "cputemp_key count = ''cpu_temperature_'' @ show_nat count"

text \<open>What remains after one number and its delimiter.\<close>

definition cputemp_rest :: "string \<Rightarrow> string" where
  "cputemp_rest start = tl (snd (strtol start))"

definition cputemp_start :: "string \<Rightarrow> string" where
  "cputemp_start s = (case skip_prefix s of None \<Rightarrow> s | Some t \<Rightarrow> t)"

lemma cputemp_rest_shorter: "s \<noteq> [] \<Longrightarrow> length (cputemp_rest (cputemp_start s)) < length s"
proof -
  assume "s \<noteq> []"
  have "length (cputemp_start s) \<le> length s"
    using skip_prefix_shorter [of s] by (fastforce simp: cputemp_start_def split: option.splits)
  then have "length (snd (strtol (cputemp_start s))) \<le> length s"
    using strtol_rest [of "cputemp_start s"] by simp
  with \<open>s \<noteq> []\<close> show ?thesis
    by (cases "snd (strtol (cputemp_start s))") (auto simp: cputemp_rest_def)
qed

function cputemp_loop ::
  "nat \<Rightarrow> string \<Rightarrow> nat \<Rightarrow> ('j, 'p) sysfs_collector \<Rightarrow> (bool \<times> ('j, 'p) sysfs_collector) result" where
  "cputemp_loop len rest count c =
     (let start = cputemp_start rest; temp = double_of_int (sint (fst (strtol start))) in
      if length (snd (strtol start)) = len then Inr (0 < count, c)
      else
        case map_of option_map (mSysfsFile (collector.more c)) of
          None \<Rightarrow> Inl OutOfRange
        | Some divisor \<Rightarrow>
            bind_res (add_double (cputemp_key count) (ddiv temp divisor) c) (\<lambda>c'.
              if cputemp_rest start = [] then Inr (True, c')
              else cputemp_loop len (cputemp_rest start) (count + 1) c'))"
  by pat_completeness auto
termination
proof (relation "measure (\<lambda>(len, rest, count, c). length rest)", goal_cases)
  case (2 len rest start count c)
  then show ?case using cputemp_rest_shorter [of rest]
    by (cases "rest = []") (auto simp: cputemp_rest_def cputemp_start_def strtol_def scan_int_def skip_space_def)
qed simp

declare cputemp_loop.simps [simp del]

definition CPUTemperature_parse :: "('j, 'p) sysfs_parse" where
  "CPUTemperature_parse buffer c = cputemp_loop (length buffer) buffer 0 c"

definition gpufreq_options :: "string list" where
  "gpufreq_options =
    [''/sys/devices/platform/gpusysfs/gpu_clock'',
     ''/sys/devices/e8970000.mali/devfreq/gpufreq/cur_freq'',
     ''/sys/devices/platform/e82c0000.mali/devfreq/gpufreq/cur_freq'',
     ''/sys/devices/platform/mali.0/clock'',
     ''/sys/devices/platform/mali-t604.0/clock'',
     ''/sys/devices/ffa30000.gpu/clock'',
     ''/sys/class/devfreq/gk20a.0/cur_freq'',
     ''/sys/devices/soc/b00000.qcom,kgsl-3d0/kgsl/kgsl-3d0/gpuclk'',
     ''/sys/devices/soc.0/fdb00000.qcom,kgsl-3d0/kgsl/kgsl-3d0/gpuclk'',
     ''/sys/devices/soc.0/1c00000.qcom,kgsl-3d0/devfreq/1c00000.qcom,kgsl-3d0/cur_freq'',
     ''/sys/devices/platform/soc/5000000.qcom,kgsl-3d0/kgsl/kgsl-3d0/gpuclk'',
     ''/sys/module/mali/parameters/mali_gpu_clk'',
     ''/sys/kernel/gpu/gpu_clock'',
     ''/sys/kernel/debug/clk/clk-g3d/clk_rate'',
     ''/sys/devices/platform/soc/3d00000.qcom,kgsl-3d0/kgsl/kgsl-3d0/devfreq/cur_freq'']"

definition GPUFreqCollector_new :: "'j json_ops \<Rightarrow> 'j \<Rightarrow> string \<Rightarrow> ('j, unit) sysfs_collector" where
  "GPUFreqCollector_new J config nm =
     (let c = SysfsCollector_new J config nm gpufreq_options False () in
      if j_isMember J (mConfig c) ''path''
      then set_private (mOptions_update (\<lambda>os.
             j_asString J (j_at J (j_at J config ''gpufreq'') ''path'') # os)) c
      else c)"

text \<open>The frequency in MHz that \<open>GPUFreqCollector::parse\<close> finds, \<open>None\<close> on failure.\<close>

definition gpufreq_number :: "string \<Rightarrow> i32 option" where
  "gpufreq_number buffer =
     (case strtol buffer of (n, rest) \<Rightarrow>
        if rest = buffer then None
        else
          let freq = ucast n :: i32;
              freq1 = (if sint freq < 0 then 0 else freq)
          in Some (if sint freq1 > 1000000 then word_of_int (sint freq1 sdiv 1000000) else freq1))"

definition gpufreq_mhz :: "string \<Rightarrow> i32 option" where
  "gpufreq_mhz buffer =
     (case sscanf (F_text ''Current sclk_g3d[G3D_BLK] = '' @ [F_d] @ F_text ''Mhz'') buffer of
        [S_d freq] \<Rightarrow> Some freq
      | _ \<Rightarrow>
          (case sscanf (F_text ''Current clk mali = '' @ [F_d] @ F_text ''Mhz'') buffer of
             [S_d freq] \<Rightarrow> Some freq
           | _ \<Rightarrow> gpufreq_number buffer))"

definition GPUFreq_parse :: "('j, 'p) sysfs_parse" where
  "GPUFreq_parse buffer c =
     (case gpufreq_mhz buffer of
        None \<Rightarrow> Inr (False, c)
      | Some freq \<Rightarrow> bind_res (add_int ''gpufreq'' (freq * 1000) c) (\<lambda>c'. Inr (True, c')))"

record procfs_state = sysfs_state +
  mTicks :: i64
  mLastSampleTime :: u64

definition getStatPaths :: "'w os_ops \<Rightarrow> 'w \<Rightarrow> string list" where
  "getStatPaths OS w = [''/proc/'' @ show_int (sint (os_getpid OS w)) @ ''/stat'']"

definition ProcFSStatCollector_new ::
  "'j json_ops \<Rightarrow> 'w os_ops \<Rightarrow> 'w \<Rightarrow> 'j \<Rightarrow> string \<Rightarrow> ('j, procfs_state) collector_scheme" where
  "ProcFSStatCollector_new J OS w config nm =
     SysfsCollector_new J config nm (getStatPaths OS w) False
       \<lparr>mTicks = (if os_clock_ticks OS w = 0 then 1 else os_clock_ticks OS w), mLastSampleTime = 0\<rparr>"

definition stat_format :: "directive list" where
  "stat_format =
     [F_d, F_space, F_s, F_space, F_c, F_space, F_d, F_space, F_d, F_space, F_d, F_space, F_d, F_space,
      F_d, F_space, F_u, F_space, F_lu, F_space, F_lu, F_space, F_lu, F_space, F_lu, F_space, F_lu,
      F_space, F_lu, F_space, F_u, F_space, F_u, F_space, F_d, F_space, F_d, F_space, F_d]"

definition ProcFSStat_parse ::
  "string \<Rightarrow> ('j, procfs_state) collector_scheme \<Rightarrow> (bool \<times> ('j, procfs_state) collector_scheme) result" where
  "ProcFSStat_parse buffer c =
     (case sscanf stat_format buffer of
        [S_d pid, S_s comm, S_c state, S_d ppid, S_d pgrp, S_d session, S_d tty_nr, S_d tpgid, S_u flags,
         S_lu minflt, S_lu cminflt, S_lu majflt, S_lu cmajflt, S_lu utime, S_lu stime, S_u cutime, S_u cstime,
         S_d priority, S_d nice, S_d num_threads] \<Rightarrow>
          (let tot_time = utime + stime + ucast cutime + ucast cstime;
               prev = mLastSampleTime (collector.more c);
               ticks = mTicks (collector.more c)
           in bind_res
                (if prev = 0 then add_double ''cpu_time'' (DFin 0) c
                 else add_double ''cpu_time''
                   (ddiv (double_of_int (uint (tot_time - prev))) (double_of_int (sint ticks))) c) (\<lambda>c1.
              bind_res (add_int ''threads'' num_threads (set_private (mLastSampleTime_update (\<lambda>_. tot_time)) c1))
                (\<lambda>c2. Inr (True, c2))))
      | _ \<Rightarrow> Inr (False, c))"

section \<open>What the shared code needs of a parser\<close>

lemma set_private_fields [simp]:
  "managed (set_private f c) = managed c" "mResults (set_private f c) = mResults c"
  "mName (set_private f c) = mName c" "mFactor (set_private f c) = mFactor c"
  "collector.more (set_private f c) = f (collector.more c)"
  by (simp_all add: set_private_def managed_def)

locale sysfs_parser =
  fixes parse :: "('j, 'p) sysfs_parse"
  assumes parse_managed: "parse buf c = Inr (ok, c') \<Longrightarrow> managed c' = managed c"
    and parse_wf: "parse buf c = Inr (ok, c') \<Longrightarrow> results_wf (mResults c) \<Longrightarrow> results_wf (mResults c')"
    and parse_fd: "parse buf c = Inr (ok, c') \<Longrightarrow> fd c' = fd c"
begin

lemma Sysfs_init_contract: "keeps_contract (Sysfs_init OS)"
  by (auto simp: keeps_contract_def Sysfs_init_def split: if_splits prod.splits)

lemma Sysfs_available_contract: "keeps_contract (Sysfs_available OS)"
  using Sysfs_init_contract by (fastforce simp: keeps_contract_def Sysfs_available_def)

lemma sysfs_reset_frame:
  "sysfs_reset OS c w = (ok, c', w') \<Longrightarrow> managed c' = managed c \<and> mResults c' = mResults c \<and> mName c' = mName c"
  by (auto simp: sysfs_reset_def split: prod.splits bool.splits if_splits)

lemma Sysfs_collect_cases:
  assumes "Sysfs_collect parse OS now c w = Inr (ok, c', w')"
  obtains (failed) "\<not> ok" "managed c' = managed c" "mResults c' = mResults c"
  | (parsed) buf c2 where "managed c2 = managed c" "mResults c2 = mResults c" "parse buf c2 = Inr (ok, c')"
proof -
  obtain bs w1 where r: "os_read OS (fd c) 1023 w = (bs, w1)" by fastforce
  show thesis
  proof (cases bs)
    case None
    with assms r failed show thesis by (auto simp: Sysfs_collect_def)
  next
    case (Some bytes)
    obtain b c2 w2 where s: "sysfs_reset OS c w1 = (b, c2, w2)" by (cases "sysfs_reset OS c w1") auto
    from assms r Some s failed parsed [of c2] sysfs_reset_frame [OF s]
    show thesis by (cases b) (auto simp: Sysfs_collect_def)
  qed
qed

lemma Sysfs_collect_contract: "keeps_contract (Sysfs_collect parse OS now)"
  unfolding keeps_contract_def
proof (intro allI impI)
  fix c w b c' w'
  assume "Sysfs_collect parse OS now c w = Inr (b, c', w')"
  then show "managed c' = managed c \<and> (results_wf (mResults c) \<longrightarrow> results_wf (mResults c'))"
    by (cases rule: Sysfs_collect_cases) (auto dest: parse_managed parse_wf)
qed

lemma sysfs_collector_class: "collector_class (sysfs_vtable parse OS)"
  unfolding sysfs_vtable_def
  by (intro collector_class_override base_collector_class Sysfs_init_contract Sysfs_collect_contract
      Sysfs_available_contract)

end

text \<open>A parser that stores one sample of each of its counters, or none when it fails.\<close>

locale sysfs_sampler = sysfs_parser parse
  for parse :: "('j, 'p) sysfs_parse" +
  fixes keys :: "string \<Rightarrow> string set"
  assumes parse_samples: "parse buf c = Inr (ok, c') \<Longrightarrow>
      samples (mResults c') k = samples (mResults c) k + (if ok \<and> k \<in> keys (mName c) then 1 else 0)"
begin

lemma sysfs_sampling_class: "sampling_class (sysfs_vtable parse OS) (\<lambda>c. keys (mName c))"
proof -
  have cc: "collector_class (sysfs_vtable parse OS)" by (rule sysfs_collector_class)
  have 1: "samples (mResults c') k = samples (mResults c) k + (if ok \<and> k \<in> keys (mName c) then 1 else 0)"
    and 2: "mName c' = mName c"
    if "Sysfs_collect parse OS now c w = Inr (ok, c', w')" for now c w ok c' w' k
    using that
  proof (atomize(full), cases rule: Sysfs_collect_cases)
    case failed
    then show "samples (mResults c') k = samples (mResults c) k + (if ok \<and> k \<in> keys (mName c) then 1 else 0)
      \<and> mName c' = mName c" by (simp add: managed_def)
  next
    case (parsed buf c2)
    then show "samples (mResults c') k = samples (mResults c) k + (if ok \<and> k \<in> keys (mName c) then 1 else 0)
      \<and> mName c' = mName c"
      using parse_samples [OF parsed(3), of k] parse_managed [OF parsed(3)] by (simp add: managed_def)
  qed
  then show ?thesis
    by (intro sampling_class.intro cc sampling_class_axioms.intro)
      (auto simp: sysfs_vtable_def base_vtable_def)
qed

end

section \<open>The four parsers\<close>

lemma add_double_simps:
  "add_double k v c = Inr c' \<Longrightarrow> managed c' = managed c \<and> collector.more c' = collector.more c
     \<and> (results_wf (mResults c) \<longrightarrow> results_wf (mResults c'))
     \<and> samples (mResults c') j = samples (mResults c) j + (if j = k then 1 else 0)"
  "add_int k n c = Inr c' \<Longrightarrow> managed c' = managed c \<and> collector.more c' = collector.more c
     \<and> (results_wf (mResults c) \<longrightarrow> results_wf (mResults c'))
     \<and> samples (mResults c') j = samples (mResults c) j + (if j = k then 1 else 0)"
  "add_long k l c = Inr c' \<Longrightarrow> managed c' = managed c \<and> collector.more c' = collector.more c
     \<and> (results_wf (mResults c) \<longrightarrow> results_wf (mResults c'))
     \<and> samples (mResults c') j = samples (mResults c) j + (if j = k then 1 else 0)"
  unfolding add_defs using add_with_frame add_with_samples add_with_wf pushes_one_push_back by blast+

interpretation sysfs: sysfs_sampler Sysfs_parse "\<lambda>nm. {nm}"
proof
  fix buf and c c' :: "('a, 'b) sysfs_collector" and ok k
  assume "Sysfs_parse buf c = Inr (ok, c')"
  then have p: "(\<not> ok \<and> c' = c) \<or> (ok \<and> (\<exists>v. add_long (mName c) v c = Inr c'))
      \<or> (ok \<and> (\<exists>v. add_double (mName c) v c = Inr c'))"
    by (auto simp: Sysfs_parse_def split: prod.splits if_splits)
  then show "managed c' = managed c" "fd c' = fd c"
    "samples (mResults c') k = samples (mResults c) k + (if ok \<and> k \<in> {mName c} then 1 else 0)"
    "results_wf (mResults c) \<Longrightarrow> results_wf (mResults c')"
    using add_double_simps by (fastforce simp: fd_def)+
qed

interpretation gpufreq: sysfs_sampler GPUFreq_parse "\<lambda>_. {''gpufreq''}"
proof
  fix buf and c c' :: "('a, 'b) sysfs_collector" and ok k
  assume "GPUFreq_parse buf c = Inr (ok, c')"
  then have p: "(\<not> ok \<and> c' = c) \<or> (ok \<and> (\<exists>v. add_int ''gpufreq'' v c = Inr c'))"
    by (auto simp: GPUFreq_parse_def split: option.splits)
  then show "managed c' = managed c" "fd c' = fd c"
    "samples (mResults c') k = samples (mResults c) k + (if ok \<and> k \<in> {''gpufreq''} then 1 else 0)"
    "results_wf (mResults c) \<Longrightarrow> results_wf (mResults c')"
    using add_double_simps by (fastforce simp: fd_def)+
qed

lemma ProcFSStat_parse_cases:
  assumes "ProcFSStat_parse buf c = Inr (ok, c')"
  shows "(\<not> ok \<and> c' = c) \<or> (ok \<and> (\<exists>v n c1 t. add_double ''cpu_time'' v c = Inr c1
     \<and> add_int ''threads'' n (set_private (mLastSampleTime_update (\<lambda>_. t)) c1) = Inr c'))"
  using assms
  by (auto simp: ProcFSStat_parse_def Let_def split: list.splits scanned.splits if_splits)

interpretation procfs: sysfs_sampler ProcFSStat_parse "\<lambda>_. {''cpu_time'', ''threads''}"
proof
  fix buf and c c' :: "('a, procfs_state) collector_scheme" and ok k
  assume "ProcFSStat_parse buf c = Inr (ok, c')"
  note p = ProcFSStat_parse_cases [OF this]
  have "managed c' = managed c \<and> fd c' = fd c \<and>
    samples (mResults c') k = samples (mResults c) k + (if ok \<and> k \<in> {''cpu_time'', ''threads''} then 1 else 0)
    \<and> (results_wf (mResults c) \<longrightarrow> results_wf (mResults c'))"
  proof (cases ok)
    case True
    with p obtain v n c1 t where 1: "add_double ''cpu_time'' v c = Inr c1"
      and 2: "add_int ''threads'' n (set_private (mLastSampleTime_update (\<lambda>_. t)) c1) = Inr c'" by auto
    show ?thesis using True add_double_simps(1) [OF 1, of k] add_double_simps(2) [OF 2, of k]
      by (auto simp: fd_def)
  qed (use p in auto)
  then show "managed c' = managed c" "fd c' = fd c"
    "samples (mResults c') k = samples (mResults c) k + (if ok \<and> k \<in> {''cpu_time'', ''threads''} then 1 else 0)"
    "results_wf (mResults c) \<Longrightarrow> results_wf (mResults c')" by auto
qed

lemma cputemp_loop_frame:
  "cputemp_loop len rest count c = Inr (ok, c') \<Longrightarrow> managed c' = managed c \<and> fd c' = fd c
     \<and> (results_wf (mResults c) \<longrightarrow> results_wf (mResults c'))"
proof (induction len rest count c rule: cputemp_loop.induct)
  case (1 len rest count c)
  let ?start = "cputemp_start rest" and ?t = "double_of_int (sint (fst (strtol (cputemp_start rest))))"
  show ?case
  proof (cases "length (snd (strtol ?start)) = len")
    case True
    then show ?thesis using 1(2) by (simp add: cputemp_loop.simps [of len rest])
  next
    case False
    with 1(2) obtain d where d: "map_of option_map (mSysfsFile (collector.more c)) = Some d"
      by (auto simp: cputemp_loop.simps [of len rest] Let_def split: option.splits)
    with 1(2) False obtain c1 where c1: "add_double (cputemp_key count) (ddiv ?t d) c = Inr c1"
      and r: "(if cputemp_rest ?start = [] then Inr (True, c1)
         else cputemp_loop len (cputemp_rest ?start) (count + 1) c1) = Inr (ok, c')"
      by (auto simp: cputemp_loop.simps [of len rest] Let_def)
    note a = add_double_simps(1) [OF c1]
    show ?thesis
    proof (cases "cputemp_rest ?start = []")
      case True
      then show ?thesis using r a by (auto simp: fd_def)
    next
      case more: False
      then have "cputemp_loop len (cputemp_rest ?start) (count + 1) c1 = Inr (ok, c')" using r by simp
      from 1(1) [OF refl refl False d more this] a show ?thesis by (auto simp: fd_def)
    qed
  qed
qed

interpretation cputemp: sysfs_parser CPUTemperature_parse
  by unfold_locales (auto simp: CPUTemperature_parse_def dest: cputemp_loop_frame)

section \<open>Properties\<close>

lemma open_first_effect:
  assumes "\<And>s w. s \<in> set ss \<Longrightarrow> fst (os_open OS s w) = opens s"
  shows "\<exists>w'. open_first OS ss x w =
     (case find (\<lambda>s. 0 \<le> opens s) ss of
        None \<Rightarrow> (if ss = [] then x else x\<lparr>mFD := -1\<rparr>, w')
      | Some s \<Rightarrow> (x\<lparr>mFD := opens s, mSysfsFile := s\<rparr>, w'))"
  using assms
proof (induction ss arbitrary: x w)
  case (Cons s ss)
  obtain f w1 where o: "os_open OS s w = (f, w1)" by fastforce
  then have f: "f = opens s" using Cons.prems [of s w] by simp
  show ?case
  proof (cases "f < 0")
    case True
    obtain w' where "open_first OS ss (x\<lparr>mFD := -1\<rparr>) w1 =
       (case find (\<lambda>s. 0 \<le> opens s) ss of
          None \<Rightarrow> (if ss = [] then x\<lparr>mFD := -1\<rparr> else x\<lparr>mFD := -1\<rparr>\<lparr>mFD := -1\<rparr>, w')
        | Some s \<Rightarrow> (x\<lparr>mFD := -1\<rparr>\<lparr>mFD := opens s, mSysfsFile := s\<rparr>, w'))"
      using Cons.IH [of "x\<lparr>mFD := -1\<rparr>" w1] Cons.prems by auto
    then show ?thesis using o True f by (auto split: option.splits)
  qed (use o f in auto)
qed simp

text \<open>
  On a fresh object \<open>SysfsCollector::init\<close> opens the first candidate file that can be opened
  and remembers its name and descriptor; it reports failure exactly when there are candidates and
  none of them can be opened. A second call opens nothing.
\<close>

theorem sysfs_init_opens_first:
  assumes "\<forall>s w. s \<in> set (mOptions (collector.more c)) \<longrightarrow> fst (os_open OS s w) = opens s" and "fd c = -2"
    and "mOptions (collector.more c) \<noteq> []"
  shows "\<exists>c' w'. Sysfs_init OS c w = Inr (\<exists>s \<in> set (mOptions (collector.more c)). 0 \<le> opens s, c', w')
     \<and> (case find (\<lambda>s. 0 \<le> opens s) (mOptions (collector.more c)) of
          None \<Rightarrow> fd c' = -1
        | Some s \<Rightarrow> fd c' = opens s \<and> mSysfsFile (collector.more c') = s)
     \<and> Sysfs_init OS c' w' = Inr (\<exists>s \<in> set (mOptions (collector.more c)). 0 \<le> opens s, c', w')"
proof -
  let ?x = "collector.more c" and ?ss = "mOptions (collector.more c)"
  obtain w' where o: "open_first OS ?ss ?x w =
     (case find (\<lambda>s. 0 \<le> opens s) ?ss of
        None \<Rightarrow> (if ?ss = [] then ?x else ?x\<lparr>mFD := -1\<rparr>, w')
      | Some s \<Rightarrow> (?x\<lparr>mFD := opens s, mSysfsFile := s\<rparr>, w'))"
    using open_first_effect [of ?ss OS opens ?x w] assms(1) by blast
  show ?thesis
  proof (cases "find (\<lambda>s. 0 \<le> opens s) ?ss")
    case None
    then have "\<not> (\<exists>s \<in> set ?ss. 0 \<le> opens s)" by (simp add: find_None_iff)
    with o None assms(2,3) show ?thesis by (auto simp: Sysfs_init_def fd_def)
  next
    case (Some s)
    then have s: "s \<in> set ?ss" "0 \<le> opens s" by (auto simp: find_Some_iff)
    then have "opens s \<noteq> -1" "opens s \<noteq> -2" by auto
    with o Some s assms(2) show ?thesis by (auto simp: Sysfs_init_def fd_def)
  qed
qed

text \<open>
  C28: the plain parser stores exactly the number the kernel wrote, once, when the number is followed
  by a line feed (scaled when a factor is set); the same number without the line feed is rejected
  and nothing is stored.
\<close>

theorem sysfs_parse_number:
  assumes "- (2 ^ 63) \<le> n" and "n < 2 ^ 63"
  shows "Sysfs_parse (show_int n) c = Inr (False, c)
     \<and> Sysfs_parse (show_int n @ [CHR 0x0A]) c =
         bind_res (if is_nan (mFactor c) then add_long (mName c) (word_of_int n) c
                   else add_double (mName c) (dmul (double_of_int n) (mFactor c)) c) (\<lambda>c'. Inr (True, c'))"
proof -
  have "\<not> c_isdigit (CHR 0x0A)" by (simp add: c_isdigit_def)
  moreover have "sint (word_of_int n :: i64) = n" using assms by (rule sint_of_int_small)
  ultimately show ?thesis
    using strtol_show_int [of "[]" n] strtol_show_int [of "[CHR 0x0A]" n] assms
    by (simp add: Sysfs_parse_def)
qed

definition example_sysfs :: "(json, sysfs_state) collector_scheme" where
  "example_sysfs = SysfsCollector_new tree_json JNull ''cpufreqtrans'' [''/a'', ''/b''] True ()"

lemma show_int_examples:
  "show_int 1234 = ''1234''" "show_int 45 = ''45''" "show_int (-3) = ''-3''"
  by code_simp+

theorem sysfs_parse_number_witness:
  "Sysfs_parse ''1234'' example_sysfs = Inr (False, example_sysfs)
   \<and> Sysfs_parse (''1234'' @ [CHR 0x0A]) example_sysfs
      = bind_res (add_long ''cpufreqtrans'' 1234 example_sysfs) (\<lambda>c'. Inr (True, c'))"
  using sysfs_parse_number [of 1234 example_sysfs]
  by (simp add: show_int_examples example_sysfs_def SysfsCollector_new_def Collector_new_def collector.defs is_nan_def)

definition example_os :: "unit os_ops" where
  "example_os = \<lparr>os_open = (\<lambda>s w. (if s = ''/b'' then 3 else -1, w)),
     os_read = (\<lambda>f n w. (Some (''7'' @ [CHR 0x0A]), w)), os_rewind = (\<lambda>f w. (True, w)),
     os_close = (\<lambda>f w. w), os_getpid = (\<lambda>w. 1), os_clock_ticks = (\<lambda>w. 100)\<rparr>"

theorem sysfs_init_opens_first_witness:
  "\<exists>c' w'. Sysfs_init example_os example_sysfs () = Inr (True, c', w')
     \<and> fd c' = 3 \<and> mSysfsFile (collector.more c') = ''/b''"
proof -
  have o: "mOptions (collector.more example_sysfs) = [''/a'', ''/b'']" "fd example_sysfs = -2"
    by (simp_all add: example_sysfs_def SysfsCollector_new_def collector.defs fd_def)
  show ?thesis
    using sysfs_init_opens_first [of example_sysfs example_os "\<lambda>s. if s = ''/b'' then 3 else -1" "()"] o
    by (simp add: example_os_def) blast
qed

lemma skip_prefix_None: "CHR '':'' \<notin> set s \<Longrightarrow> skip_prefix s = None"
  by (induction s) auto

lemma show_int_no_colon: "CHR '':'' \<notin> set (show_int n)"
proof -
  have "c \<in> set (show_nat m) \<Longrightarrow> c_isdigit c" for c m
    using show_nat_digits [of m] by (auto simp: list_all_iff)
  moreover have "\<not> c_isdigit (CHR '':'')" by (simp add: c_isdigit_def)
  ultimately show ?thesis by (auto simp: show_int_def)
qed

lemma show_int_Nil [simp]: "show_int n \<noteq> []"
  using show_nat_digits by (simp add: show_int_def)

definition spaced :: "int list \<Rightarrow> string" where
  "spaced ns = concat (map (\<lambda>n. show_int n @ '' '') ns)"

lemma spaced_no_colon: "CHR '':'' \<notin> set (spaced ns)"
  by (auto simp: spaced_def show_int_no_colon)

definition store_temps ::
  "double \<Rightarrow> nat \<Rightarrow> int list \<Rightarrow> ('j, 'p) sysfs_collector \<Rightarrow> ('j, 'p) sysfs_collector result" where
  "store_temps d count ns c =
     fold_res (\<lambda>c (i, n). add_double (cputemp_key i) (ddiv (double_of_int n) d) c) c (enumerate count ns)"

lemma cputemp_loop_spaced:
  assumes "ns \<noteq> []" and "length (spaced ns) \<le> len" and "\<forall>n \<in> set ns. - (2 ^ 63) \<le> n \<and> n < 2 ^ 63"
    and "map_of option_map (mSysfsFile (collector.more c)) = Some d"
  shows "cputemp_loop len (spaced ns) count c = bind_res (store_temps d count ns c) (\<lambda>c'. Inr (True, c'))"
  using assms
proof (induction ns arbitrary: count c)
  case (Cons n ns)
  let ?s = "spaced (n # ns)" and ?r = "CHR '' '' # spaced ns"
  have s: "?s = show_int n @ ?r" by (simp add: spaced_def)
  have start: "cputemp_start ?s = ?s"
    using skip_prefix_None [OF spaced_no_colon] by (simp add: cputemp_start_def)
  have st: "strtol ?s = (word_of_int n, ?r)"
    using Cons.prems(3) by (subst s, intro strtol_show_int) (auto simp: c_isdigit_def)
  have v: "sint (word_of_int n :: i64) = n" using Cons.prems(3) by (intro sint_of_int_small) auto
  have len: "length ?r \<noteq> len" using Cons.prems(2) s by (cases "show_int n") auto
  have rest: "cputemp_rest ?s = spaced ns" using st by (simp add: cputemp_rest_def)
  show ?case
  proof (cases "add_double (cputemp_key count) (ddiv (double_of_int n) d) c")
    case (Inl e)
    then show ?thesis
      using Cons.prems(4) len by (subst cputemp_loop.simps) (simp add: start st v rest store_temps_def)
  next
    case (Inr c1)
    have m: "collector.more c1 = collector.more c" using add_double_simps(1) [OF Inr] by simp
    have nil: "spaced ns = [] \<longleftrightarrow> ns = []" by (cases ns) (simp_all add: spaced_def)
    have "ns \<noteq> [] \<Longrightarrow> cputemp_loop len (spaced ns) (Suc count) c1
        = bind_res (store_temps d (Suc count) ns c1) (\<lambda>c'. Inr (True, c'))"
      using Cons.prems m s by (intro Cons.IH) auto
    then show ?thesis
      using Inr Cons.prems(4) len nil
      by (subst cputemp_loop.simps) (auto simp: start st v rest store_temps_def)
  qed
qed simp

text \<open>
  The temperature parser ends on every input (it is a total function) and reads a line of
  numbers, each followed by a space, completely: the i-th number, divided by the scale of the file,
  becomes the sample of \<open>cpu_temperature_i\<close>.
\<close>

theorem cputemp_reads_all:
  assumes "ns \<noteq> []" and "\<forall>n \<in> set ns. - (2 ^ 63) \<le> n \<and> n < 2 ^ 63"
    and "map_of option_map (mSysfsFile (collector.more c)) = Some d"
  shows "CPUTemperature_parse (concat (map (\<lambda>n. show_int n @ '' '') ns)) c =
     bind_res (fold_res (\<lambda>c (i, n). add_double (cputemp_key i) (ddiv (double_of_int n) d) c) c
       (enumerate 0 ns)) (\<lambda>c'. Inr (True, c'))"
  using cputemp_loop_spaced [OF assms(1) _ assms(2,3), of "length (spaced ns)" 0]
  by (simp add: CPUTemperature_parse_def spaced_def store_temps_def)

theorem cputemp_reads_all_witness:
  "CPUTemperature_parse ''45 -3 '' (set_private (mSysfsFile_update (\<lambda>_. ''/sys/class/thermal/thermal_zone1/temp'')) example_sysfs)
   = bind_res (fold_res (\<lambda>c (i, n). add_double (cputemp_key i) (ddiv (double_of_int n) (DFin 10)) c)
       (set_private (mSysfsFile_update (\<lambda>_. ''/sys/class/thermal/thermal_zone1/temp'')) example_sysfs)
       [(0, 45), (1, -3)]) (\<lambda>c'. Inr (True, c'))"
  using cputemp_reads_all [of "[45, -3]"
      "set_private (mSysfsFile_update (\<lambda>_. ''/sys/class/thermal/thermal_zone1/temp'')) example_sysfs" "DFin 10"]
  by (simp add: show_int_examples option_map_def)

end
