(* ===== verification/System_Collectors.thy ===== *)
theory System_Collectors
  imports Sysfs
begin

text \<open>
  The collectors that ask the operating system directly: \<open>RusageCollector\<close> (differences of
  resource usage between samples), \<open>MemoryCollector\<close> and \<open>CPUFreqCollector\<close> (average
  frequency of every core, from the time spent in each frequency). What the system answers is an
  argument of the model.
\<close>

section \<open>RusageCollector\<close>

record timeval =
  tv_sec :: i64
  tv_usec :: i64

record rusage =
  ru_utime :: timeval
  ru_stime :: timeval
  ru_maxrss :: i64
  ru_minflt :: i64
  ru_majflt :: i64
  ru_inblock :: i64
  ru_oublock :: i64
  ru_nvcsw :: i64
  ru_nivcsw :: i64

record 'w usage_ops =
  u_getrusage :: "'w \<Rightarrow> rusage option \<times> 'w"
  u_statm :: "'w \<Rightarrow> i64 option"
  u_avphys_pages :: "'w \<Rightarrow> i64"
  u_page_size :: "'w \<Rightarrow> i64"

definition zero_rusage :: rusage where
  "zero_rusage = \<lparr>ru_utime = \<lparr>tv_sec = 0, tv_usec = 0\<rparr>, ru_stime = \<lparr>tv_sec = 0, tv_usec = 0\<rparr>,
     ru_maxrss = 0, ru_minflt = 0, ru_majflt = 0, ru_inblock = 0, ru_oublock = 0, ru_nvcsw = 0,
     ru_nivcsw = 0\<rparr>"

definition timersub :: "timeval \<Rightarrow> timeval \<Rightarrow> timeval" where
  "timersub a b =
     (let s = tv_sec a - tv_sec b; u = tv_usec a - tv_usec b in
      if sint u < 0 then \<lparr>tv_sec = s - 1, tv_usec = u + 1000000\<rparr> else \<lparr>tv_sec = s, tv_usec = u\<rparr>)"

definition micros :: "timeval \<Rightarrow> i64" where
  "micros t = tv_sec t * 1000 * 1000 + tv_usec t"

definition Rusage_init :: "('j, rusage, 'w) vmethod" where
  "Rusage_init c w = Inr (True, set_private (\<lambda>_. zero_rusage) c, w)"

definition Rusage_start :: "'w usage_ops \<Rightarrow> ('j, rusage, 'w) vmethod" where
  "Rusage_start U c w =
     (if mCollecting c then Inr (True, c, w)
      else case u_getrusage U w of
        (None, w') \<Rightarrow> Inr (False, c, w')
      | (Some prev, w') \<Rightarrow> Inr (True, (set_private (\<lambda>_. prev) c)\<lparr>mCollecting := True\<rparr>, w'))"

definition usage_samples :: "rusage \<Rightarrow> rusage \<Rightarrow> (string \<times> i64) list" where
  "usage_samples usage prev =
     [(''KernelCPUTime'', micros (timersub (ru_stime usage) (ru_stime prev))),
      (''UserCPUTime'', micros (timersub (ru_utime usage) (ru_utime prev))),
      (''PageFaultsNoIO'', ru_minflt usage - ru_minflt prev),
      (''PageFaultsWithIO'', ru_majflt usage - ru_majflt prev),
      (''IOBlockOnInput'', ru_inblock usage - ru_inblock prev),
      (''IOBlockOnOutput'', ru_oublock usage - ru_oublock prev),
      (''VoluntaryContextSwitches'', ru_nvcsw usage - ru_nvcsw prev),
      (''InvoluntaryContextSwitches'', ru_nivcsw usage - ru_nivcsw prev)]"

definition add_longs ::
  "(string \<times> i64) list \<Rightarrow> ('j, 'x) collector_scheme \<Rightarrow> ('j, 'x) collector_scheme result" where
  "add_longs kvs c = fold_res (\<lambda>c (k, v). add_long k v c) c kvs"

definition Rusage_collect :: "'w usage_ops \<Rightarrow> i64 \<Rightarrow> ('j, rusage, 'w) vmethod" where
  "Rusage_collect U now c w =
     (case u_getrusage U w of
        (None, w') \<Rightarrow> Inr (False, c, w')
      | (Some usage, w') \<Rightarrow>
          bind_res (add_longs (usage_samples usage (collector.more c)) c)
            (\<lambda>c'. Inr (True, set_private (\<lambda>_. usage) c', w')))"

definition rusage_vtable :: "'w usage_ops \<Rightarrow> ('j, rusage, 'w) vtable" where
  "rusage_vtable U =
     (base_vtable (Rusage_collect U) (pure_method (\<lambda>c. (True, c))))
       \<lparr>v_init := Rusage_init, v_start := Rusage_start U\<rparr>"

section \<open>MemoryCollector\<close>

text \<open>The private state is \<open>initialAvailableRAM\<close>; \<open>size_t\<close> is 64 bits wide.\<close>

definition getCurrentRSS :: "'w usage_ops \<Rightarrow> 'w \<Rightarrow> u64" where
  "getCurrentRSS U w = (case u_statm U w of None \<Rightarrow> 0 | Some rss \<Rightarrow> rss * u_page_size U w)"

definition getFreeSystemMemory :: "'w usage_ops \<Rightarrow> 'w \<Rightarrow> u64" where
  "getFreeSystemMemory U w = u_avphys_pages U w * u_page_size U w"

definition Memory_init :: "'w usage_ops \<Rightarrow> ('j, i64, 'w) vmethod" where
  "Memory_init U c w = Inr (True, set_private (\<lambda>_. getFreeSystemMemory U w) c, w)"

definition Memory_start :: "('j, i64, 'w) vmethod" where
  "Memory_start c w = Inr (True, if mCollecting c then c else c\<lparr>mCollecting := True\<rparr>, w)"

definition Memory_collect :: "'w usage_ops \<Rightarrow> i64 \<Rightarrow> ('j, i64, 'w) vmethod" where
  "Memory_collect U now c w =
     (case u_getrusage U w of
        (None, w') \<Rightarrow> Inr (False, c, w')
      | (Some usage, w') \<Rightarrow>
          (let diff = collector.more c - getFreeSystemMemory U w' in
           bind_res (add_long ''memory_max_rss'' (ru_maxrss usage) c) (\<lambda>c1.
           bind_res (add_ulong ''memory_cur_rss'' (getCurrentRSS U w' div 1024) c1) (\<lambda>c2.
           bind_res (add_long ''memory_used'' (word_of_int (sint diff sdiv 1024)) c2) (\<lambda>c3.
             Inr (True, c3, w'))))))"

definition memory_vtable :: "'w usage_ops \<Rightarrow> ('j, i64, 'w) vtable" where
  "memory_vtable U =
     (base_vtable (Memory_collect U) (pure_method (\<lambda>c. (True, c))))
       \<lparr>v_init := Memory_init U, v_start := Memory_start\<rparr>"

section \<open>CPUFreqCollector\<close>

text \<open>
  A core's open files are named by the core's number: \<open>time_in_state\<close> and \<open>freq_file\<close> tell
  whether the pointer is not null. The system answers which files of a core can be opened and what
  a rewound file yields when it is scanned for pairs or single numbers until the scan fails.
\<close>

record Core =
  time_in_state :: bool
  freq_file :: bool
  core :: nat
  corename :: string
  frequencies :: "i32 list"
  times :: "i64 list"

record 'w cpu_ops =
  f_has_freq :: "nat \<Rightarrow> 'w \<Rightarrow> bool"
  f_has_states :: "nat \<Rightarrow> 'w \<Rightarrow> bool"
  f_states :: "nat \<Rightarrow> 'w \<Rightarrow> (i64 \<times> i64) list"
  f_freqs :: "nat \<Rightarrow> 'w \<Rightarrow> i64 list"

type_synonym ('j) cpufreq_collector = "('j, Core list) collector_scheme"

definition close_core :: "Core \<Rightarrow> Core result" where
  "close_core c = (if freq_file c then Inr (c\<lparr>time_in_state := False, freq_file := False\<rparr>) else Inl NullPointer)"

definition CPUFreq_deinit :: "('j, Core list, 'w) vmethod" where
  "CPUFreq_deinit c w =
     bind_res (fold_res (\<lambda>done k. bind_res (close_core k) (\<lambda>k'. Inr (done @ [k']))) [] (collector.more c))
       (\<lambda>ks. Inr (True, set_private (\<lambda>_. ks) c, w))"

definition open_core :: "'w cpu_ops \<Rightarrow> nat \<Rightarrow> 'w \<Rightarrow> Core" where
  "open_core F n w =
     \<lparr>time_in_state = f_has_states F n w, freq_file = True, core = n, corename = ''cpu_'' @ show_nat n,
      frequencies = (if f_has_states F n w then map (\<lambda>(f, t). ucast f) (f_states F n w) else []), times = []\<rparr>"

text \<open>The loop over the cores ends at the first core without a frequency file.\<close>

partial_function (option) open_cores :: "'w cpu_ops \<Rightarrow> 'w \<Rightarrow> nat \<Rightarrow> Core list option" where
  "open_cores F w n =
     (if f_has_freq F n w then Option.bind (open_cores F w (Suc n)) (\<lambda>cs. Some (open_core F n w # cs)) else Some [])"

text \<open>\<open>init\<close>; \<open>None\<close> when the loop never ends.\<close>

definition CPUFreq_init ::
  "'w cpu_ops \<Rightarrow> 'j cpufreq_collector \<Rightarrow> 'w \<Rightarrow> (bool \<times> 'j cpufreq_collector \<times> 'w) result option" where
  "CPUFreq_init F c w =
     (case CPUFreq_deinit c w of
        Inl e \<Rightarrow> Some (Inl e)
      | Inr (_, c1, w1) \<Rightarrow>
          map_option (\<lambda>cs. Inr (0 < length cs, set_private (\<lambda>_. cs) c1, w1)) (open_cores F w1 0))"

definition CPUFreq_start :: "'w cpu_ops \<Rightarrow> ('j, Core list, 'w) vmethod" where
  "CPUFreq_start F c w =
     Inr (True, set_private (map (\<lambda>k. if time_in_state k
        then k\<lparr>times := times k @ map snd (f_states F (core k) w)\<rparr> else k)) c, w)"

text \<open>The scan of one core's \<open>time_in_state\<close>: index, sum and number of values so far.\<close>

fun states_loop ::
  "(i64 \<times> i64) list \<Rightarrow> nat \<Rightarrow> i64 \<Rightarrow> i64 \<Rightarrow> Core \<Rightarrow> (i64 \<times> i64 \<times> Core) result" where
  "states_loop [] idx s values k = Inr (s, values, k)"
| "states_loop ((freq, t) # ps) idx s values k =
     (if idx < length (times k) \<and> idx < length (frequencies k)
      then let relative = t - times k ! idx in
        states_loop ps (Suc idx) (s + relative * scast (frequencies k ! idx)) (values + relative)
          (k\<lparr>times := (times k)[idx := t]\<rparr>)
      else Inl OutOfBounds)"

definition core_sum :: "'w cpu_ops \<Rightarrow> 'w \<Rightarrow> Core \<Rightarrow> (i64 \<times> i64 \<times> Core) result" where
  "core_sum F w k =
     (if time_in_state k then states_loop (f_states F (core k) w) 0 0 0 k
      else if freq_file k then
        (case f_freqs F (core k) w of [] \<Rightarrow> Inr (0, 0, k) | fs \<Rightarrow> Inr (last fs, 1, k))
      else Inl NullPointer)"

text \<open>What is reused when the sum is zero: the last sample, or the current frequency.\<close>

definition core_fallback :: "'w cpu_ops \<Rightarrow> 'w \<Rightarrow> Core \<Rightarrow> 'j cpufreq_collector \<Rightarrow> i64 result" where
  "core_fallback F w k c =
     (let l = (case map_of (mResults c) (corename k) of None \<Rightarrow> empty_list | Some l \<Rightarrow> l) in
      if vl_size l = 0
      then if freq_file k then
        (case f_freqs F (core k) w of
           [] \<Rightarrow> Inr (if time_in_state k \<and> f_states F (core k) w \<noteq> []
                     then fst (last (f_states F (core k) w)) else 0)
         | freq # _ \<Rightarrow> Inr freq)
        else Inl NullPointer
      else cv_i64 (last (vl_data l)))"

definition collect_core ::
  "'w cpu_ops \<Rightarrow> 'w \<Rightarrow> (i64 \<times> Core list \<times> 'j cpufreq_collector) \<Rightarrow> Core \<Rightarrow>
     (i64 \<times> Core list \<times> 'j cpufreq_collector) result" where
  "collect_core F w st k = (case st of (highest, done, c) \<Rightarrow>
     bind_res (core_sum F w k) (\<lambda>(s, values, k').
     bind_res (if s = 0 then bind_res (core_fallback F w k' c) (\<lambda>f. Inr (f, 1)) else Inr (s, values)) (\<lambda>(s', v').
     bind_res (sdiv64 s' v') (\<lambda>avg.
     bind_res (add_long (corename k) avg c) (\<lambda>c'.
       Inr (if sint highest < sint avg then avg else highest, done @ [k'], c'))))))"

definition CPUFreq_collect :: "'w cpu_ops \<Rightarrow> i64 \<Rightarrow> ('j, Core list, 'w) vmethod" where
  "CPUFreq_collect F now c w =
     bind_res (fold_res (collect_core F w) (0, [], c) (collector.more c)) (\<lambda>(highest, ks, c1).
     bind_res (add_long ''highest_avg'' highest (set_private (\<lambda>_. ks) c1)) (\<lambda>c2. Inr (True, c2, w)))"

section \<open>Contracts\<close>

lemma add_longs_frame:
  assumes "add_longs kvs c = Inr c'"
  shows "managed c' = managed c \<and> collector.more c' = collector.more c
    \<and> (results_wf (mResults c) \<longrightarrow> results_wf (mResults c'))
    \<and> samples (mResults c') k = samples (mResults c) k + count_list (map fst kvs) k"
  using assms unfolding add_longs_def
proof (induction kvs arbitrary: c)
  case (Cons kv kvs)
  obtain x v where kv: "kv = (x, v)" by (cases kv)
  with Cons.prems obtain c1 where 1: "add_long x v c = Inr c1"
    and 2: "fold_res (\<lambda>c (k, v). add_long k v c) c1 kvs = Inr c'" by auto
  show ?case using Cons.IH [OF 2] add_double_simps(3) [OF 1, of k] kv by auto
qed simp

lemma usage_samples_keys:
  "map fst (usage_samples u p) = [''KernelCPUTime'', ''UserCPUTime'', ''PageFaultsNoIO'', ''PageFaultsWithIO'',
     ''IOBlockOnInput'', ''IOBlockOnOutput'', ''VoluntaryContextSwitches'', ''InvoluntaryContextSwitches'']"
  by (simp add: usage_samples_def)

lemma Rusage_collect_cases:
  assumes "Rusage_collect U now c w = Inr (ok, c', w')"
  shows "(\<not> ok \<and> c' = c) \<or> (ok \<and> (\<exists>usage c1. u_getrusage U w = (Some usage, w')
     \<and> add_longs (usage_samples usage (collector.more c)) c = Inr c1 \<and> c' = set_private (\<lambda>_. usage) c1))"
  using assms by (auto simp: Rusage_collect_def split: prod.splits option.splits)

definition usage_keys :: "string set" where
  "usage_keys = set (map fst (usage_samples zero_rusage zero_rusage))"

interpretation rusage: sampling_class "rusage_vtable U" "\<lambda>_. usage_keys"
proof -
  have frame: "managed c' = managed c \<and> (results_wf (mResults c) \<longrightarrow> results_wf (mResults c'))
      \<and> samples (mResults c') k = samples (mResults c) k + (if ok \<and> k \<in> usage_keys then 1 else 0)"
    if "Rusage_collect U now c w = Inr (ok, c', w')"
    for now and c c' :: "('b, rusage) collector_scheme" and w :: 'a and ok w' k
    using Rusage_collect_cases [OF that] add_longs_frame [of _ c _ k]
    by (auto simp: usage_samples_keys usage_keys_def)
  have "keeps_contract (Rusage_collect U now :: ('b, rusage, 'a) vmethod)" for now
    unfolding keeps_contract_def using frame by blast
  moreover have "keeps_contract (Rusage_init :: ('b, rusage, 'a) vmethod)"
    "keeps_contract (Rusage_start U :: ('b, rusage, 'a) vmethod)"
    by (auto simp: keeps_contract_def Rusage_init_def Rusage_start_def managed_def set_private_def
        split: if_splits prod.splits option.splits)
  ultimately have "collector_class (rusage_vtable U :: ('b, rusage, 'a) vtable)"
    unfolding rusage_vtable_def
    by (intro collector_class_override base_collector_class contract_pure) auto
  then show "sampling_class (rusage_vtable U :: ('b, rusage, 'a) vtable) (\<lambda>_. usage_keys)"
    using frame
    by (intro sampling_class.intro sampling_class_axioms.intro)
      (simp_all add: rusage_vtable_def base_vtable_def)
qed

section \<open>Properties\<close>

text \<open>Differences of times are differences of microseconds, whatever the borrow.\<close>

lemma micros_timersub: "micros (timersub a b) = micros a - micros b"
  by (simp add: micros_def timersub_def Let_def algebra_simps)

text \<open>The cumulative quantity behind each counter, and the sum of a counter's samples.\<close>

definition usage_counters :: "(string \<times> (rusage \<Rightarrow> i64)) list" where
  "usage_counters =
     [(''KernelCPUTime'', \<lambda>u. micros (ru_stime u)), (''UserCPUTime'', \<lambda>u. micros (ru_utime u)),
      (''PageFaultsNoIO'', ru_minflt), (''PageFaultsWithIO'', ru_majflt),
      (''IOBlockOnInput'', ru_inblock), (''IOBlockOnOutput'', ru_oublock),
      (''VoluntaryContextSwitches'', ru_nvcsw), (''InvoluntaryContextSwitches'', ru_nivcsw)]"

lemma usage_samples_counters: "usage_samples u p = map (\<lambda>(k, f). (k, f u - f p)) usage_counters"
  by (simp add: usage_samples_def usage_counters_def micros_timersub)

definition list_total :: "CollectorValue list \<Rightarrow> i64" where
  "list_total vs = sum_list (map (\<lambda>v. case v of CV_i64 w \<Rightarrow> w | _ \<Rightarrow> 0) vs)"

definition key_total :: "CollectorValueResults \<Rightarrow> string \<Rightarrow> i64" where
  "key_total r k = (case map_of r k of None \<Rightarrow> 0 | Some l \<Rightarrow> list_total (vl_list l))"

lemma add_long_total:
  "add_long key v c = Inr c' \<Longrightarrow>
     key_total (mResults c') k = key_total (mResults c) k + (if k = key then v else 0)"
  by (auto simp: add_long_def add_with_eq key_total_def map_of_map_set push_back_long_def
      push_back_typed_eq_Inr list_total_def empty_list_def split: option.splits)

lemma add_longs_total:
  "add_longs kvs c = Inr c' \<Longrightarrow> key_total (mResults c') k =
     key_total (mResults c) k + sum_list (map (\<lambda>(key, v). if k = key then v else 0) kvs)"
  unfolding add_longs_def
proof (induction kvs arbitrary: c)
  case (Cons kv kvs)
  obtain x v where kv: "kv = (x, v)" by (cases kv)
  with Cons.prems obtain c1 where 1: "add_long x v c = Inr c1"
    and 2: "fold_res (\<lambda>c (k, v). add_long k v c) c1 kvs = Inr c'" by auto
  show ?case using Cons.IH [OF 2] add_long_total [OF 1, of k] kv by simp
qed simp

lemma sum_list_key:
  "distinct (map fst kvs) \<Longrightarrow> (k, v) \<in> set kvs \<Longrightarrow>
     sum_list (map (\<lambda>(key, v). if k = key then v else 0) kvs) = (v :: i64)"
proof (induction kvs)
  case (Cons kv kvs)
  have "k \<notin> set (map fst kvs) \<Longrightarrow> sum_list (map (\<lambda>(key, v). if k = key then v else 0) kvs) = (0 :: i64)"
    by (induction kvs) auto
  with Cons show ?case by (cases kv) force
qed simp

text \<open>
  C26: the samples of a resource counter add up. Over any number of successful collections the sum
  of the stored differences is exactly the growth of the system's cumulative value, for each of
  the eight counters (CPU times in microseconds); no interval is counted twice or lost.
\<close>

theorem rusage_run_total:
  assumes "collect_run (rusage_vtable U) ts c w = Some (c', w')" and "(k, f) \<in> set usage_counters"
  shows "key_total (mResults c') k - key_total (mResults c) k = f (collector.more c') - f (collector.more c)"
  using assms(1)
proof (induction ts arbitrary: c w)
  case (Cons now ts)
  then obtain c1 w1 where 1: "v_collect (rusage_vtable U) now c w = Inr (True, c1, w1)"
    and 2: "collect_run (rusage_vtable U) ts c1 w1 = Some (c', w')"
    by (auto split: sum.splits prod.splits bool.splits)
  from 1 have "Rusage_collect U now c w = Inr (True, c1, w1)" by (simp add: rusage_vtable_def base_vtable_def)
  then obtain usage c0 where a: "add_longs (usage_samples usage (collector.more c)) c = Inr c0"
    and c1: "c1 = set_private (\<lambda>_. usage) c0"
    using Rusage_collect_cases [of U now c w True c1 w1] by auto
  have "sum_list (map (\<lambda>(key, v). if k = key then v else 0) (usage_samples usage (collector.more c)))
      = f usage - f (collector.more c)"
  proof (rule sum_list_key)
    show "distinct (map fst (usage_samples usage (collector.more c)))" by (simp add: usage_samples_keys)
    show "(k, f usage - f (collector.more c)) \<in> set (usage_samples usage (collector.more c))"
      using assms(2) by (force simp: usage_samples_counters)
  qed
  then have "key_total (mResults c1) k - key_total (mResults c) k = f (collector.more c1) - f (collector.more c)"
    using add_longs_total [OF a, of k] by (simp add: c1)
  then have "(key_total (mResults c') k - key_total (mResults c1) k) + (key_total (mResults c1) k - key_total (mResults c) k)
      = (f (collector.more c') - f (collector.more c1)) + (f (collector.more c1) - f (collector.more c))"
    using Cons.IH [OF 2] by (simp only:)
  then show ?case by simp
qed simp

text \<open>Nothing but the system can make a collection fail: counters that hold signed integers accept more.\<close>

definition i64_only :: "CollectorValueResults \<Rightarrow> bool" where
  "i64_only r \<longleftrightarrow> (\<forall>k l. map_of r k = Some l \<longrightarrow> vl_type l \<in> {TYPE_UNASSIGNED, TYPE_I64})"

lemma add_longs_returns:
  "i64_only (mResults c) \<Longrightarrow> \<exists>c'. add_longs kvs c = Inr c' \<and> i64_only (mResults c')"
  unfolding add_longs_def
proof (rule fold_res_returns [where P = "\<lambda>c. i64_only (mResults c)"])
  fix c :: "('a, 'b) collector_scheme" and kv :: "string \<times> i64"
  assume i: "i64_only (mResults c)"
  obtain k v where kv: "kv = (k, v)" by (cases kv)
  let ?l = "case map_of (mResults c) k of None \<Rightarrow> empty_list | Some l \<Rightarrow> l"
  have "vl_type ?l \<in> {TYPE_UNASSIGNED, TYPE_I64}"
    using i by (auto simp: i64_only_def empty_list_def split: option.splits)
  then have "add_long k v c = Inr (c\<lparr>mResults := map_set k (?l\<lparr>vl_type := TYPE_I64, vl_list := vl_list ?l @ [CV_i64 v]\<rparr>) (mResults c)\<rparr>)"
    by (simp add: add_long_def add_with_eq push_back_long_def push_back_typed_eq_Inr)
  then show "\<exists>s'. (case kv of (k, v) \<Rightarrow> add_long k v c) = Inr s' \<and> i64_only (mResults s')"
    using i by (auto simp: kv i64_only_def map_of_map_set)
qed

lemma rusage_run_returns:
  assumes "\<And>w. fst (u_getrusage U w) \<noteq> None"
  shows "i64_only (mResults c) \<Longrightarrow> \<exists>c' w'. collect_run (rusage_vtable U) ts c w = Some (c', w')"
proof (induction ts arbitrary: c w)
  case (Cons now ts)
  obtain u w1 where u: "u_getrusage U w = (Some u, w1)" using assms [of w] by (cases "u_getrusage U w") auto
  obtain c1 where c1: "add_longs (usage_samples u (collector.more c)) c = Inr c1" "i64_only (mResults c1)"
    using add_longs_returns [OF Cons.prems] by blast
  then have "v_collect (rusage_vtable U) now c w = Inr (True, set_private (\<lambda>_. u) c1, w1)"
    using u by (simp add: rusage_vtable_def base_vtable_def Rusage_collect_def)
  then show ?case using Cons.IH [of "set_private (\<lambda>_. u) c1" w1] c1(2) by simp
qed simp

definition example_usage :: "nat usage_ops" where
  "example_usage = \<lparr>u_getrusage = (\<lambda>n. (Some (zero_rusage\<lparr>ru_minflt := of_nat (n * n)\<rparr>), Suc n)),
     u_statm = (\<lambda>_. None), u_avphys_pages = (\<lambda>_. 1000), u_page_size = (\<lambda>_. 4096)\<rparr>"

definition example_rusage :: "(json, rusage) collector_scheme" where
  "example_rusage = collector.extend (Collector_new tree_json JNull ''rusage'') zero_rusage"

lemma rusage_run_state:
  assumes "\<And>w. u_getrusage U w = (Some (g w), Suc w)"
  shows "collect_run (rusage_vtable U) ts c w = Some (c', w') \<Longrightarrow> ts \<noteq> [] \<Longrightarrow>
     collector.more c' = g (w + length ts - 1)"
proof (induction ts arbitrary: c w)
  case (Cons now ts)
  then obtain c1 w1 where 1: "v_collect (rusage_vtable U) now c w = Inr (True, c1, w1)"
    and 2: "collect_run (rusage_vtable U) ts c1 w1 = Some (c', w')"
    by (auto split: sum.splits prod.splits bool.splits)
  from 1 have "Rusage_collect U now c w = Inr (True, c1, w1)" by (simp add: rusage_vtable_def base_vtable_def)
  from Rusage_collect_cases [OF this] assms have "collector.more c1 = g w" "w1 = Suc w" by auto
  with Cons.IH [OF 2] 2 show ?case by (cases ts) auto
qed simp

theorem rusage_run_total_witness:
  "\<exists>c' w'. collect_run (rusage_vtable example_usage) [10, 20] example_rusage 3 = Some (c', w')
     \<and> key_total (mResults c') ''PageFaultsNoIO'' = 16"
proof -
  obtain c' w' where r: "collect_run (rusage_vtable example_usage) [10, 20] example_rusage 3 = Some (c', w')"
    using rusage_run_returns [of example_usage example_rusage "[10, 20]" 3]
    by (auto simp: example_usage_def example_rusage_def Collector_new_def collector.defs i64_only_def)
  moreover have "key_total (mResults example_rusage) ''PageFaultsNoIO'' = 0"
    "ru_minflt (collector.more example_rusage) = 0"
    by (simp_all add: example_rusage_def Collector_new_def collector.defs key_total_def zero_rusage_def)
  ultimately show ?thesis
    using rusage_run_total [OF r, of "''PageFaultsNoIO''" ru_minflt] rusage_run_state [OF _ r, of "\<lambda>n. zero_rusage\<lparr>ru_minflt := of_nat (n * n)\<rparr>"]
    by (auto simp: usage_counters_def example_usage_def)
qed

subsection \<open>CPU frequencies\<close>

lemma open_cores_upto:
  assumes "\<forall>i < k. f_has_freq F (n + i) w" and "\<not> f_has_freq F (n + k) w"
  shows "open_cores F w n = Some (map (\<lambda>i. open_core F i w) [n..<n + k])"
  using assms
proof (induction k arbitrary: n)
  case 0
  then show ?case by (subst open_cores.simps) simp
next
  case (Suc k)
  have "open_cores F w (Suc n) = Some (map (\<lambda>i. open_core F i w) [Suc n..<Suc n + k])"
    using Suc.prems by (intro Suc.IH) auto
  moreover have "f_has_freq F n w" using Suc.prems(1) [rule_format, of 0] by simp
  ultimately show ?case by (subst open_cores.simps) (simp add: upt_conv_Cons del: upt_Suc)
qed

text \<open>
  C29: initialisation finds every core. On a machine whose cores 0 to \<open>k - 1\<close> have a frequency file
  and core \<open>k\<close> has none, \<open>init\<close> returns, it holds exactly these cores in order, and it
  reports success exactly when there is at least one.
\<close>

theorem cpufreq_init_finds_cores:
  assumes "\<forall>i < k. f_has_freq F i w" and "\<not> f_has_freq F k w" and "list_all freq_file (collector.more c)"
  shows "\<exists>c'. CPUFreq_init F c w = Some (Inr (0 < k, c', w))
     \<and> map core (collector.more c') = [0..<k] \<and> mResults c' = mResults c"
proof -
  have closes: "\<exists>ks'. fold_res (\<lambda>done k. bind_res (close_core k) (\<lambda>k'. Inr (done @ [k']))) ds ks = Inr ks'"
    if "list_all freq_file ks" for ds ks
    using that by (induction ks arbitrary: ds) (auto simp: close_core_def)
  obtain ks where "CPUFreq_deinit c w = Inr (True, set_private (\<lambda>_. ks) c, w)"
    using closes [OF assms(3), of "[]"] by (auto simp: CPUFreq_deinit_def)
  moreover have "open_cores F w 0 = Some (map (\<lambda>i. open_core F i w) [0..<k])"
    using open_cores_upto [of k F 0 w] assms by simp
  ultimately show ?thesis by (simp add: CPUFreq_init_def comp_def open_core_def)
qed

definition example_cpus :: "unit cpu_ops" where
  "example_cpus = \<lparr>f_has_freq = (\<lambda>n _. n < 2), f_has_states = (\<lambda>n _. n = 0),
     f_states = (\<lambda>_ _. [(1000, 5), (2000, 7)]), f_freqs = (\<lambda>_ _. [1500])\<rparr>"

theorem cpufreq_init_finds_cores_witness:
  "\<exists>c'. CPUFreq_init example_cpus (collector.extend (Collector_new tree_json JNull ''cpufreq'') []) ()
      = Some (Inr (True, c', ())) \<and> map core (collector.more c') = [0, 1]"
  using cpufreq_init_finds_cores [of 2 example_cpus "()"
      "collector.extend (Collector_new tree_json JNull ''cpufreq'') []"]
  by (auto simp: example_cpus_def collector.defs numeral_2_eq_2)

text \<open>
  The stored times of a core are read by position, and \<open>start\<close> appends to them: only the first
  entries count.
\<close>

lemma states_loop_extra:
  assumes "idx + length ps \<le> length (times k)" and "states_loop ps idx s v k = Inr (s', v', k')"
  shows "\<exists>k''. states_loop ps idx s v (k\<lparr>times := times k @ extra\<rparr>) = Inr (s', v', k'')"
  using assms
proof (induction ps arbitrary: idx s v k)
  case (Cons p ps)
  obtain f t where p: "p = (f, t)" by (cases p)
  from Cons.prems p have i: "idx < length (times k)" "idx < length (frequencies k)" by (auto split: if_splits)
  let ?r = "t - times k ! idx"
  have r: "states_loop ps (Suc idx) (s + ?r * scast (frequencies k ! idx)) (v + ?r)
      (k\<lparr>times := (times k)[idx := t]\<rparr>) = Inr (s', v', k')"
    using Cons.prems p i by (auto simp: Let_def)
  show ?case
    using Cons.IH [OF _ r] Cons.prems(1) p i
    by (auto simp: Let_def nth_append list_update_append)
qed simp

definition start_core :: "'w cpu_ops \<Rightarrow> 'w \<Rightarrow> Core \<Rightarrow> Core" where
  "start_core F w k = (if time_in_state k then k\<lparr>times := times k @ map snd (f_states F (core k) w)\<rparr> else k)"

lemma CPUFreq_start_cores: "CPUFreq_start F c w = Inr (True, set_private (map (start_core F w)) c, w)"
  by (simp add: CPUFreq_start_def start_core_def [abs_def])

text \<open>
  A second \<open>start\<close> does not set a new base for the average frequency: because it appends to the
  stored times, the next sample is still computed from the times of the first \<open>start\<close>, as if
  the second had not happened.
\<close>

theorem cpufreq_restart_stale:
  assumes "time_in_state k" and "times k = []" and "length (f_states F (core k) w3) \<le> length (f_states F (core k) w1)"
    and "core_sum F w3 (start_core F w1 k) = Inr (s, v, k')"
  shows "\<exists>k''. core_sum F w3 (start_core F w2 (start_core F w1 k)) = Inr (s, v, k'')"
proof -
  let ?k1 = "start_core F w1 k"
  have "start_core F w2 ?k1 = ?k1\<lparr>times := times ?k1 @ map snd (f_states F (core k) w2)\<rparr>"
    using assms(1) by (simp add: start_core_def)
  moreover have "states_loop (f_states F (core k) w3) 0 0 0 ?k1 = Inr (s, v, k')"
    using assms(1,4) by (simp add: core_sum_def start_core_def)
  ultimately show ?thesis
    using assms(1,2,3) states_loop_extra [of 0 "f_states F (core k) w3" ?k1 0 0 s v k']
    by (auto simp: core_sum_def start_core_def)
qed

definition example_states :: "nat cpu_ops" where
  "example_states = \<lparr>f_has_freq = (\<lambda>n _. n < 1), f_has_states = (\<lambda>_ _. True),
     f_states = (\<lambda>_ w. [(1000, of_nat w)]), f_freqs = (\<lambda>_ _. [])\<rparr>"

theorem cpufreq_restart_stale_witness:
  "\<exists>k''. core_sum example_states 90 (start_core example_states 80 (start_core example_states 10
      (open_core example_states 0 0))) = Inr (80000, 80, k'')"
  using cpufreq_restart_stale [of "open_core example_states 0 0" example_states 90 10 80000 80 _ 80]
  by (simp add: open_core_def example_states_def start_core_def core_sum_def)

end
