(* ===== verification/Dispatch.thy ===== *)
theory Dispatch
  imports Collection System_Collectors
begin

text \<open>
  Virtual dispatch: collectors of different classes in one store. The private fields of the classes
  are summands of one type, a method of a class becomes a method on that type, and
  \<open>dispatch\<close> picks the functions of the class of the object at an address. The manager's
  contract is interpreted on it.
\<close>

definition with_private :: "('j, 'x) collector_scheme \<Rightarrow> 'y \<Rightarrow> ('j, 'y) collector_scheme" where
  "with_private c y = collector.extend (collector.truncate c) y"

definition lift_method ::
  "('y \<Rightarrow> 'x) \<Rightarrow> ('x \<Rightarrow> 'y option) \<Rightarrow> ('j, 'y, 'w) vmethod \<Rightarrow> ('j, 'x, 'w) vmethod" where
  "lift_method into out m c w =
     (case out (collector.more c) of
        None \<Rightarrow> Inl BadCast
      | Some y \<Rightarrow> bind_res (m (with_private c y) w)
          (\<lambda>(b, c', w'). Inr (b, with_private c' (into (collector.more c')), w')))"

definition lift_vtable ::
  "('y \<Rightarrow> 'x) \<Rightarrow> ('x \<Rightarrow> 'y option) \<Rightarrow> ('j, 'y, 'w) vtable \<Rightarrow> ('j, 'x, 'w) vtable" where
  "lift_vtable into out V =
     \<lparr>v_init = lift_method into out (v_init V),
      v_deinit = lift_method into out (v_deinit V),
      v_available = lift_method into out (v_available V),
      v_start = lift_method into out (v_start V),
      v_stop = lift_method into out (v_stop V),
      v_collect = (\<lambda>now. lift_method into out (v_collect V now)),
      v_collect_scope_start = (\<lambda>f g t. lift_method into out (v_collect_scope_start V f g t)),
      v_collect_scope_stop = (\<lambda>f g t. lift_method into out (v_collect_scope_stop V f g t)),
      v_postprocess = (\<lambda>ts. lift_method into out (v_postprocess V ts)),
      v_summarize = lift_method into out (v_summarize V),
      v_clear = lift_method into out (v_clear V)\<rparr>"

lemma with_private_fields [simp]:
  "managed (with_private c y) = managed c" "mResults (with_private c y) = mResults c"
  "collector.more (with_private c y) = y" "mName (with_private c y) = mName c"
  "thread (with_private c y) = thread c" "mIsThreaded (with_private c y) = mIsThreaded c"
  "mCollecting (with_private c y) = mCollecting c"
  by (simp_all add: with_private_def collector.defs managed_def)

lemma lift_method_contract: "keeps_contract m \<Longrightarrow> keeps_contract (lift_method into out m)"
  by (auto simp: keeps_contract_def lift_method_def split: option.splits)
    (metis with_private_fields(1,2))+

lemma methods_lift: "methods (lift_vtable into out V) = lift_method into out ` methods V"
  by (auto simp: methods_def lift_vtable_def image_Un image_image case_prod_beta)

lemma lift_collector_class: "collector_class V \<Longrightarrow> collector_class (lift_vtable into out V)"
  by (auto simp: collector_class_iff methods_lift lift_method_contract)

datatype private_state =
    P_sysfs sysfs_state
  | P_procfs procfs_state
  | P_rusage rusage
  | P_memory i64

fun un_sysfs :: "private_state \<Rightarrow> sysfs_state option" where
  "un_sysfs (P_sysfs x) = Some x" | "un_sysfs _ = None"

fun un_procfs :: "private_state \<Rightarrow> procfs_state option" where
  "un_procfs (P_procfs x) = Some x" | "un_procfs _ = None"

fun un_rusage :: "private_state \<Rightarrow> rusage option" where
  "un_rusage (P_rusage x) = Some x" | "un_rusage _ = None"

fun un_memory :: "private_state \<Rightarrow> i64 option" where
  "un_memory (P_memory x) = Some x" | "un_memory _ = None"

text \<open>The classes whose methods are modelled as virtual functions.\<close>

datatype cls = K_Sysfs | K_CPUTemperature | K_GPUFreq | K_ProcFSStat | K_Rusage | K_Memory

fun class_vtable :: "'w os_ops \<Rightarrow> 'w usage_ops \<Rightarrow> cls \<Rightarrow> ('j, private_state, 'w) vtable" where
  "class_vtable OS U K_Sysfs = lift_vtable P_sysfs un_sysfs (sysfs_vtable Sysfs_parse OS)"
| "class_vtable OS U K_CPUTemperature = lift_vtable P_sysfs un_sysfs (sysfs_vtable CPUTemperature_parse OS)"
| "class_vtable OS U K_GPUFreq = lift_vtable P_sysfs un_sysfs (sysfs_vtable GPUFreq_parse OS)"
| "class_vtable OS U K_ProcFSStat = lift_vtable P_procfs un_procfs (sysfs_vtable ProcFSStat_parse OS)"
| "class_vtable OS U K_Rusage = lift_vtable P_rusage un_rusage (rusage_vtable U)"
| "class_vtable OS U K_Memory = lift_vtable P_memory un_memory (memory_vtable U)"

definition dispatch ::
  "'w os_ops \<Rightarrow> 'w usage_ops \<Rightarrow> (nat \<Rightarrow> cls) \<Rightarrow> nat \<Rightarrow> ('j, private_state, 'w) vtable" where
  "dispatch OS U kind p = class_vtable OS U (kind p)"

lemma add_ulong_frame:
  "add_ulong k v c = Inr c' \<Longrightarrow> managed c' = managed c \<and> (results_wf (mResults c) \<longrightarrow> results_wf (mResults c'))"
  unfolding add_defs using add_with_frame add_with_wf pushes_one_push_back by blast

lemma memory_collector_class: "collector_class (memory_vtable U :: ('j, i64, 'w) vtable)"
proof -
  have "keeps_contract (Memory_collect U now :: ('j, i64, 'w) vmethod)" for now
    unfolding keeps_contract_def
  proof (intro allI impI)
    fix c c' :: "('j, i64) collector_scheme" and w w' b
    assume "Memory_collect U now c w = Inr (b, c', w')"
    then have "c' = c \<or> (\<exists>a b d c1 c2. add_long ''memory_max_rss'' a c = Inr c1
       \<and> add_ulong ''memory_cur_rss'' b c1 = Inr c2 \<and> add_long ''memory_used'' d c2 = Inr c')"
      by (auto simp: Memory_collect_def Let_def split: prod.splits option.splits)
    then show "managed c' = managed c \<and> (results_wf (mResults c) \<longrightarrow> results_wf (mResults c'))"
      by (auto dest!: add_double_simps(3) add_ulong_frame)
  qed
  moreover have "keeps_contract (Memory_init U :: ('j, i64, 'w) vmethod)"
    "keeps_contract (Memory_start :: ('j, i64, 'w) vmethod)"
    by (auto simp: keeps_contract_def Memory_init_def Memory_start_def managed_def set_private_def)
  ultimately show ?thesis
    unfolding memory_vtable_def
    by (intro collector_class_override base_collector_class contract_pure) auto
qed

lemma class_vtable_class: "collector_class (class_vtable OS U k)"
  by (cases k) (simp_all add: lift_collector_class memory_collector_class
      sysfs.sysfs_collector_class cputemp.sysfs_collector_class gpufreq.sysfs_collector_class
      procfs.sysfs_collector_class rusage.collector_class_axioms)

interpretation system: manager "dispatch OS U kind"
  by (intro manager.intro) (simp add: dispatch_def class_vtable_class)

end
