(* ===== verification/Collection_Runs.thy ===== *)
theory Collection_Runs
  imports Dispatch
begin

text \<open>
  Properties of the manager over whole runs: the invariant in every reachable state, when the
  threads of a run can be joined, the timing column, and what \<open>initialize\<close> guarantees for
  collectors the configuration requires.
\<close>

section \<open>Examples\<close>

definition example_private :: private_state where
  "example_private = P_rusage zero_rusage"

definition example_new :: "json \<Rightarrow> string \<Rightarrow> builtin \<Rightarrow> (json, private_state) collector_scheme" where
  "example_new config nm b = with_private (Collector_new tree_json config nm) example_private"

lemma example_new_fields [simp]:
  "mName (example_new config nm b) = nm" "thread (example_new config nm b) = NotJoinable"
  "mResults (example_new config nm b) = []" "mIsThreaded (example_new config nm b) = False"
  "collector.more (example_new config nm b) = P_rusage zero_rusage"
  "mCollecting (example_new config nm b) = False"
  by (simp_all add: example_new_def Collector_new_def example_private_def)

definition example_usage_ops :: "unit usage_ops" where
  "example_usage_ops = \<lparr>u_getrusage = (\<lambda>w. (Some zero_rusage, w)), u_statm = (\<lambda>_. None),
     u_avphys_pages = (\<lambda>_. 1000), u_page_size = (\<lambda>_. 4096)\<rparr>"

definition example_V :: "nat \<Rightarrow> (json, private_state, unit) vtable" where
  "example_V = dispatch example_os example_usage_ops (\<lambda>_. K_Rusage)"

lemma example_V_class: "collector_class (example_V p)"
  unfolding example_V_def dispatch_def by (rule class_vtable_class)

section \<open>The invariant\<close>


lemma Collection_new_perapi: "\<exists>s. Collection_new J android new fresh w config True = Inr s"
  by (simp add: Collection_new_def init_from_json_def empty_collection_def Let_def)


section \<open>Joining threads\<close>

context manager begin

lemma stop_fold_joinable:
  "fold_res (stop_one V) (tmp, s) ps = Inr r \<Longrightarrow> distinct ps \<Longrightarrow> p \<in> set ps \<Longrightarrow>
     mIsThreaded (objs s p) \<Longrightarrow> thread (objs s p) = Joinable"
proof (induction ps arbitrary: tmp s)
  case (Cons q ps)
  then obtain t1 s1 where 1: "stop_one V (tmp, s) q = Inr (t1, s1)"
    and 2: "fold_res (stop_one V) (t1, s1) ps = Inr r" by auto
  note e = stop_one_effect [OF 1]
  show ?case
  proof (cases "p = q")
    case True
    then show ?thesis using e Cons.prems(4) by simp
  next
    case False
    then have "thread (objs s1 p) = Joinable"
      using Cons.IH [OF 2] Cons.prems same_manager_fields(10) [of s s1 p] e by auto
    then show ?thesis using e False by simp
  qed
qed simp

lemma stop_joinable:
  assumes "stop V s = Inr s'" and "coll_wf s" and "p \<in> set (mRunning s)" and "mIsThreaded (objs s p)"
  shows "thread (objs s p) = Joinable"
proof -
  let ?s0 = "foldl signal_finished s (mRunning s)"
  have "mIsThreaded (objs ?s0 p) = mIsThreaded (objs s p)" "thread (objs ?s0 p) = thread (objs s p)"
    using signal_finished_fold [of s "mRunning s"] same_manager_fields(10) [of s ?s0] by auto
  moreover obtain r where "fold_res (stop_one V) ([], ?s0) (mRunning s) = Inr r"
    using assms(1) by (auto simp: stop_def)
  ultimately show ?thesis
    using stop_fold_joinable coll_wf_running_distinct [OF assms(2)] assms(3,4) by metis
qed

lemma stop_first_not_joinable:
  assumes "mRunning s = p # ps" and "mIsThreaded (objs s p)" and "thread (objs s p) = NotJoinable"
  shows "stop V s = Inl InvalidJoin"
proof -
  let ?s0 = "foldl signal_finished s (mRunning s)"
  have "mIsThreaded (objs ?s0 p)" "thread (objs ?s0 p) = NotJoinable"
    using signal_finished_fold [of s "mRunning s"] same_manager_fields(10) [of s ?s0] assms by auto
  then have "stop_one V ([], ?s0) p = Inl InvalidJoin" by (simp add: stop_one_def join_thread_def)
  then show ?thesis by (simp add: stop_def assms(1))
qed

lemma stop_running_subset:
  assumes "stop V s = Inr s'"
  shows "set (mRunning s') \<subseteq> set (mRunning s)"
proof -
  from assms obtain tmp s1 where
    1: "fold_res (stop_one V) ([], foldl signal_finished s (mRunning s)) (mRunning s) = Inr (tmp, s1)"
    and "s' = s1\<lparr>mRunning := tmp, running := False\<rparr>"
    by (auto simp: stop_def)
  with stop_fold_effect [OF 1] show ?thesis using set_nths_subset by fastforce
qed

end

text \<open>
  C21: \<open>stop\<close> returns only when the thread of every enabled threaded collector was there to be
  joined; it then has ended the run and joined every thread. When a thread is missing (its
  collector failed to start, or the run was already stopped) an exception leaves \<open>stop\<close>, and it
  is the exception of \<open>join\<close> when the collector is the first of the enabled ones.
\<close>

theorem stop_joins_or_throws:
  assumes "\<forall>p. collector_class (V p)" and "coll_wf s"
  shows "case stop V s of
      Inr s' \<Rightarrow> (\<forall>p \<in> set (mRunning s). mIsThreaded (objs s p) \<longrightarrow> thread (objs s p) = Joinable)
        \<and> \<not> running s' \<and> (\<forall>p. thread (objs s' p) = NotJoinable)
    | Inl e \<Rightarrow> (case mRunning s of [] \<Rightarrow> False
        | p # ps \<Rightarrow> mIsThreaded (objs s p) \<and> thread (objs s p) = NotJoinable \<longrightarrow> e = InvalidJoin)"
proof -
  have m: "manager V" using assms(1) by (simp add: manager_def)
  show ?thesis
  proof (cases "stop V s")
    case (Inl e)
    then have "mRunning s \<noteq> []" by (auto simp: stop_def)
    with Inl show ?thesis
      using manager.stop_first_not_joinable [OF m, of s] by (auto split: list.splits)
  next
    case (Inr s')
    then show ?thesis
      using manager.stop_joinable [OF m Inr assms(2)] manager.stop_wf [OF m Inr assms(2)] by auto
  qed
qed

text \<open>
  A run with a threaded collector cannot be stopped twice: when the first \<open>stop\<close> returns and
  keeps a threaded collector enabled, an exception leaves the second one.
\<close>

theorem second_stop_throws:
  assumes "\<forall>p. collector_class (V p)" and "coll_wf s"
    and "stop V s = Inr s'" and "p \<in> set (mRunning s')" and "mIsThreaded (objs s' p)"
  shows "(\<exists>e. stop V s' = Inl e) \<and> (hd (mRunning s') = p \<longrightarrow> stop V s' = Inl InvalidJoin)"
proof -
  have m: "manager V" using assms(1) by (simp add: manager_def)
  have s': "coll_wf s'" "thread (objs s' p) = NotJoinable"
    using manager.stop_wf [OF m assms(3,2)] by auto
  have "\<exists>e. stop V s' = Inl e"
    using manager.stop_joinable [OF m _ s'(1) assms(4,5)] s'(2) by (cases "stop V s'") auto
  moreover have "stop V s' = Inl InvalidJoin" if "hd (mRunning s') = p"
    using manager.stop_first_not_joinable [OF m _ assms(5) s'(2)] assms(4) that by (cases "mRunning s'") auto
  ultimately show ?thesis by blast
qed

text \<open>A manager with one enabled, threaded collector of resource usage, in a run.\<close>

definition example_running :: "(json, private_state, unit) collection" where
  "example_running = (empty_collection
       (\<lambda>p. example_new JNull ''rusage'' RusageCollector) () JNull False)
     \<lparr>running := True, mCollectors := [0], mRunning := [0], mCollectorMap := [(''rusage'', Some 0)],
      objs := (\<lambda>p. if p = 0
        then (example_new JNull ''rusage'' RusageCollector)\<lparr>mIsThreaded := True, thread := Joinable\<rparr>
        else example_new JNull ''rusage'' RusageCollector)\<rparr>"

lemma example_running_wf: "coll_wf example_running"
  by (simp add: example_running_def coll_wf_defs empty_collection_def)

lemmas example_vtable_defs = example_V_def dispatch_def lift_vtable_def lift_method_def rusage_vtable_def
  base_vtable_def pure_method_def result_method_def Collector_stop_def

lemma example_stop:
  "\<exists>s'. stop example_V example_running = Inr s' \<and> mRunning s' = [0] \<and> mIsThreaded (objs s' 0)"
  by (simp add: stop_def example_running_def empty_collection_def signal_finished_def update_obj_def
      stop_one_def join_thread_def call_def example_vtable_defs Collector_postprocess_def
      with_private_def collector.defs example_new_def Collector_new_def example_private_def)

theorem stop_joins_or_throws_witness:
  "\<exists>s'. stop example_V example_running = Inr s' \<and> thread (objs s' 0) = NotJoinable"
proof -
  obtain s' where "stop example_V example_running = Inr s'" using example_stop by blast
  then show ?thesis
    using stop_joins_or_throws [of example_V example_running] example_V_class example_running_wf by auto
qed

theorem second_stop_throws_witness:
  "\<exists>s'. stop example_V example_running = Inr s' \<and> stop example_V s' = Inl InvalidJoin"
proof -
  obtain s' where s': "stop example_V example_running = Inr s'" "mRunning s' = [0]" "mIsThreaded (objs s' 0)"
    using example_stop by blast
  then show ?thesis
    using second_stop_throws [OF _ example_running_wf s'(1), of 0] example_V_class by auto
qed

section \<open>The timing column\<close>

text \<open>Several frames, each with its custom values and the time it ended.\<close>

definition collect_frames ::
  "(nat \<Rightarrow> ('j, 'x, 'w) vtable) \<Rightarrow> (i64 list \<times> i64) list \<Rightarrow> ('j, 'x, 'w) collection \<Rightarrow>
     ('j, 'x, 'w) collection result" where
  "collect_frames V frames s = fold_res (\<lambda>s (custom, now). collect V custom now s) s frames"

fun differences :: "i64 \<Rightarrow> i64 list \<Rightarrow> i64 list" where
  "differences prev [] = []"
| "differences prev (t # ts) = (t - prev) # differences t ts"

lemma sum_differences: "prev + sum_list (differences prev ts) = last (prev # ts)"
proof (induction prev ts rule: differences.induct)
  case (2 prev t ts)
  have "prev + sum_list (differences prev (t # ts)) = t + sum_list (differences t ts)" by simp
  with 2 show ?case by simp
qed simp

lemma length_differences [simp]: "length (differences prev ts) = length ts"
  by (induction prev ts rule: differences.induct) simp_all

context manager begin

lemma collect_timing:
  assumes "collect V custom now s = Inr s'"
  shows "mTiming s' = mTiming s @ [now - mPreviousTime s] \<and> mPreviousTime s' = now
     \<and> length custom = length (mCustomHeaders s) \<and> mCustomHeaders s' = mCustomHeaders s
     \<and> push_custom (mCustom s) custom = Inr (mCustom s')"
proof -
  let ?s0 = "s\<lparr>mTiming := mTiming s @ [now - mPreviousTime s], mPreviousTime := now\<rparr>"
  from assms obtain s1 cs where 1: "each_unthreaded V (\<lambda>vt. v_collect vt now) ?s0 = Inr s1"
    and 2: "length custom = length (mCustomHeaders s1)" "push_custom (mCustom s1) custom = Inr cs"
    and 3: "s' = s1\<lparr>mCustom := cs\<rparr>"
    by (auto simp: collect_def)
  have oo: "only_objects ?s0 s1" using each_unthreaded_only_objects [OF 1] by auto
  show ?thesis using 2 by (simp add: 3 only_objects_fields [OF oo])
qed

lemma collect_frames_timing:
  "collect_frames V frames s = Inr s' \<Longrightarrow>
     mTiming s' = mTiming s @ differences (mPreviousTime s) (map snd frames)"
  unfolding collect_frames_def
proof (induction frames arbitrary: s)
  case (Cons f frames)
  obtain custom now where f: "f = (custom, now)" by (cases f)
  with Cons.prems obtain s1 where 1: "collect V custom now s = Inr s1"
    and 2: "fold_res (\<lambda>s (custom, now). collect V custom now s) s1 frames = Inr s'" by auto
  show ?case using Cons.IH [OF 2] collect_timing [OF 1] f by simp
qed simp

lemma start_timing:
  assumes "start V headers now s = Inr s'"
  shows "mTiming s' = [] \<and> mPreviousTime s' = now \<and> mCustomHeaders s' = headers
     \<and> mCustom s' = replicate (length headers) []"
proof -
  let ?s0 = "s\<lparr>mTiming := [], mStartTime := now, mPreviousTime := now, mCustomHeaders := headers,
            mCustom := resize (length headers) [] [],
            mCustomSummarized := resize (length headers) [] (mCustomSummarized s)\<rparr>"
  let ?P = "\<lambda>t. mTiming t = [] \<and> mPreviousTime t = now \<and> mCustomHeaders t = headers
     \<and> mCustom t = replicate (length headers) []"
  from assms obtain s1 where 1: "fold_res (start_one V) ?s0 (mRunning s) = Inr s1"
    and s': "s' = s1\<lparr>running := True\<rparr>"
    by (auto simp: start_def)
  have "?P s1"
  proof (rule fold_res_invariant [OF 1])
    show "?P ?s0" by (simp add: resize_def)
  next
    fix t p t' assume P: "?P t" and t': "start_one V t p = Inr t'"
    obtain s2 ok where oo: "only_objects t s2"
      and r: "if ok \<and> mIsThreaded (objs t p)
        then thread (objs t p) \<noteq> Joinable
           \<and> t' = update_obj p (\<lambda>c. c\<lparr>finished := False, thread := Joinable\<rparr>) s2
        else t' = s2"
      using start_one_effect [OF t'] by blast
    show "?P t'" using P r by (auto simp: update_obj_def only_objects_fields [OF oo] split: if_splits)
  qed
  then show ?thesis by (simp add: s')
qed

end

text \<open>
  C25: the timing column of a run partitions the run. After \<open>start\<close> and any number of
  \<open>collect\<close> calls there is one entry per call, each the time since the previous call, and the
  entries add up to the time from the start to the last call.
\<close>

theorem timing_partitions_run:
  assumes "\<forall>p. collector_class (V p)" and "start V headers t0 s = Inr s1"
    and "collect_frames V frames s1 = Inr s2"
  shows "mTiming s2 = differences t0 (map snd frames) \<and> length (mTiming s2) = length frames
     \<and> t0 + sum_list (mTiming s2) = last (t0 # map snd frames)"
proof -
  have m: "manager V" using assms(1) by (simp add: manager_def)
  have "mTiming s2 = differences t0 (map snd frames)"
    using manager.start_timing [OF m assms(2)] manager.collect_frames_timing [OF m assms(3)] by simp
  then show ?thesis by (simp add: sum_differences)
qed

lemma example_start:
  "\<exists>s1 s2. start example_V [''fps''] 100 (example_running\<lparr>mRunning := []\<rparr>) = Inr s1
     \<and> collect_frames example_V [([60], 110), ([59], 125)] s1 = Inr s2"
  by (simp add: start_def collect_frames_def collect_def each_unthreaded_def example_running_def
      empty_collection_def resize_def)

theorem timing_partitions_run_witness:
  "\<exists>s1 s2. start example_V [''fps''] 100 (example_running\<lparr>mRunning := []\<rparr>) = Inr s1
     \<and> collect_frames example_V [([60], 110), ([59], 125)] s1 = Inr s2 \<and> mTiming s2 = [10, 15]"
proof -
  obtain s1 s2 where s: "start example_V [''fps''] 100 (example_running\<lparr>mRunning := []\<rparr>) = Inr s1"
    "collect_frames example_V [([60], 110), ([59], 125)] s1 = Inr s2"
    using example_start by blast
  then show ?thesis using timing_partitions_run [OF _ s] example_V_class by auto
qed

section \<open>Required collectors\<close>

definition enabled_names :: "('j, 'x, 'w) collection \<Rightarrow> string set" where
  "enabled_names s = (\<lambda>p. mName (objs s p)) ` set (mRunning s)"

context manager begin

lemma try_enable_effect:
  assumes "json_api J dictlike listlike" and "try_enable J V nm s = Inr (done, s')"
    and "coll_wf s" and "dictlike (gConfig s)"
  shows "coll_wf s' \<and> dictlike (gConfig s') \<and> enabled_names s \<subseteq> enabled_names s'
     \<and> (done \<longrightarrow> nm \<in> enabled_names s')
     \<and> (\<forall>k. required J (gConfig s) k \<longrightarrow> required J (gConfig s') k)"
proof (cases "map_of (mCollectorMap s) nm")
  case None
  with assms show ?thesis by (auto simp: try_enable_def)
next
  case (Some q)
  then obtain p a s1 where c: "call V v_available p s = Inr (a, s1)"
    and i: "if a then initialize_collector J V nm s1 = Inr (done, s') else s' = s1 \<and> \<not> done"
    using assms(2) by (cases q) (auto simp: try_enable_def split: if_splits)
  have oo: "only_objects s s1" using call_only_objects [OF c] by auto
  have 1: "coll_wf s1" "gConfig s1 = gConfig s" "enabled_names s1 = enabled_names s"
    using coll_wf_only_objects [OF oo assms(3)]
    by (simp_all add: only_objects_simps [OF oo] enabled_names_def)
  show ?thesis
  proof (cases a)
    case False
    with i 1 assms(4) show ?thesis by simp
  next
    case True
    with i have ic: "initialize_collector J V nm s1 = Inr (done, s')" by simp
    note wf = initialize_collector_wf [OF ic 1(1)]
    from ic show ?thesis
    proof (cases rule: initialize_collector_cases)
      case (already p)
      then show ?thesis using 1 assms(4) by (auto simp: enabled_names_def)
    next
      case failed
      then show ?thesis using wf 1 assms(4) only_objects_simps [OF failed(2)]
        by (simp add: enabled_names_def)
    next
      case (enabled p s2 c)
      have cfg: "gConfig s' = json_touch J (gConfig s) nm"
        using enabled(6) 1(2) by simp
      have "mName (objs s' q) = mName (objs s1 q)" for q
        using enabled(5,6) by (auto simp: only_objects_managed [OF enabled(3)])
      then have names: "enabled_names s' = insert (mName (objs s1 p)) (enabled_names s)"
        using enabled(6) 1(3) by (simp add: enabled_names_def)
      have "mName (objs s1 p) = nm" using 1(1) enabled(1) by (simp add: coll_wf_defs)
      moreover have "dictlike (gConfig s')" "\<forall>k. required J (gConfig s) k \<longrightarrow> required J (gConfig s') k"
        using assms(1,4) json_api.dictlike_set [OF assms(1,4)] json_api.isMember_set [OF assms(1,4)]
          json_api.at_set [OF assms(1,4)]
        by (auto simp: cfg json_touch_def required_def)
      ultimately show ?thesis using wf names by auto
    qed
  qed
qed

lemma initialize_list_required:
  assumes "json_api J dictlike listlike"
  shows "initialize_list J V l s = Inr (ok, s') \<Longrightarrow> coll_wf s \<Longrightarrow> dictlike (gConfig s) \<Longrightarrow>
     (if ok then enabled_names s \<subseteq> enabled_names s' \<and>
        (\<forall>nm \<in> set l - {''debug'', ''provenance''}. required J (gConfig s) nm \<longrightarrow> nm \<in> enabled_names s')
      else mRunning s' = [])"
proof (induction l arbitrary: s)
  case (Cons nm l)
  show ?case
  proof (cases "nm = ''debug'' \<or> nm = ''provenance''")
    case True
    with Cons show ?thesis by auto
  next
    case False
    from Cons.prems(1) False obtain d s2 where t: "try_enable J V nm s = Inr (d, s2)"
      and r: "(if d \<or> \<not> required J (gConfig s2) nm then initialize_list J V l s2
         else Inr (False, s2\<lparr>mRunning := []\<rparr>)) = Inr (ok, s')"
      by (auto split: if_splits)
    note e = try_enable_effect [OF assms t Cons.prems(2,3)]
    show ?thesis
    proof (cases "d \<or> \<not> required J (gConfig s2) nm")
      case True
      with r have "initialize_list J V l s2 = Inr (ok, s')" by simp
      from Cons.IH [OF this] e True show ?thesis by (auto split: if_splits)
    qed (use r in auto)
  qed
qed simp

end

text \<open>
  C22: \<open>initialize\<close> keeps the promise of the \<open>required\<close> key. If it returns true, every
  collector that the configuration marks as required is enabled (unknown names and collectors that
  are not available included, which make it return false); if it returns false, no collector is
  enabled.
\<close>

theorem initialize_required:
  assumes "json_api J dictlike listlike" and "\<forall>p. collector_class (V p)" and "coll_wf s"
    and "dictlike (gConfig s)" and "initialize J V l s = Inr (ok, s')"
  shows "if ok then \<forall>nm. required J (gConfig s) nm \<and> nm \<noteq> ''debug'' \<and> nm \<noteq> ''provenance'' \<longrightarrow>
        (\<exists>p \<in> set (mRunning s'). mName (objs s' p) = nm)
     else mRunning s' = []"
proof -
  have m: "manager V" using assms(2) by (simp add: manager_def)
  let ?l = "l @ filter (\<lambda>nm. j_isObject J (j_at J (gConfig s) nm)) (j_getMemberNames J (gConfig s))"
  have r: "if ok then enabled_names s \<subseteq> enabled_names s' \<and>
        (\<forall>nm \<in> set ?l - {''debug'', ''provenance''}. required J (gConfig s) nm \<longrightarrow> nm \<in> enabled_names s')
      else mRunning s' = []"
    using manager.initialize_list_required [OF m assms(1) assms(5) [unfolded initialize_def] assms(3,4)] .
  have "nm \<in> set ?l" if "required J (gConfig s) nm" for nm
    using that json_api.members_iff [OF assms(1,4), of nm] by (auto simp: required_def)
  then have "nm \<in> enabled_names s'"
    if "ok" "required J (gConfig s) nm" "nm \<noteq> ''debug''" "nm \<noteq> ''provenance''" for nm
    using that r by (metis DiffI empty_iff insert_iff)
  then show ?thesis using r by (auto simp: enabled_names_def)
qed

definition example_config :: json where
  "example_config = JObject [(''nosuch'', JObject [(''required'', JBool True)])]"

definition example_idle :: "(json, private_state, unit) collection" where
  "example_idle = (empty_collection (\<lambda>p. example_new JNull ''rusage'' RusageCollector) () example_config False)
     \<lparr>mCollectors := [0], mRunning := [0], mCollectorMap := [(''rusage'', Some 0)]\<rparr>"

theorem initialize_required_witness:
  "\<exists>s'. initialize tree_json example_V [] example_idle = Inr (False, s') \<and> mRunning s' = []"
proof -
  have w: "coll_wf example_idle" by (simp add: example_idle_def coll_wf_defs empty_collection_def)
  have c: "tree_dictlike (gConfig example_idle)"
    by (simp add: example_idle_def empty_collection_def example_config_def map_wf_def)
  have i: "initialize tree_json example_V [] example_idle = Inr (False, example_idle\<lparr>mRunning := []\<rparr>)"
    by (simp add: initialize_def example_config_def example_idle_def empty_collection_def try_enable_def
        required_def)
  then show ?thesis
    using initialize_required [OF tree.json_api_axioms _ w c i] example_V_class by auto
qed

end
