(* ===== verification/Results.thy ===== *)
theory Results
  imports Collection_Runs
begin

text \<open>
  What comes out of a run: \<open>results\<close> builds the JSON document, \<open>writeJSON\<close> writes it,
  \<open>writeCSV\<close> writes one row per frame and \<open>writeCSV_MTV\<close> one row per counter. A file is the
  string written to it; whether it can be open_ok and close_ok is given by the caller. The conversion
  \<open>%f\<close> of the C library is a parameter.
\<close>

section \<open>JSON\<close>

definition value_json :: "'j json_ops \<Rightarrow> vtype \<Rightarrow> CollectorValue \<Rightarrow> 'j result" where
  "value_json J ty cv = (case ty of
       TYPE_FP64 \<Rightarrow> bind_res (cv_fp64 cv) (\<lambda>d. Inr (j_of_double J d))
     | TYPE_U64 \<Rightarrow> bind_res (cv_u64 cv) (\<lambda>n. Inr (j_of_uint J n))
     | TYPE_I64 \<Rightarrow> bind_res (cv_i64 cv) (\<lambda>n. Inr (j_of_int J n))
     | TYPE_UNASSIGNED \<Rightarrow> Inl AssertFailed)"

text \<open>\<open>v[k].append(x)\<close>, and a loop of them.\<close>

definition member_append :: "'j json_ops \<Rightarrow> string \<Rightarrow> 'j \<Rightarrow> 'j \<Rightarrow> 'j" where
  "member_append J k v x = j_set J v k (j_append J (j_at J v k) x)"

definition counter_json ::
  "'j json_ops \<Rightarrow> bool \<Rightarrow> 'j \<Rightarrow> string \<times> CollectorValueList \<Rightarrow> 'j result" where
  "counter_json J summarized v kl = (case kl of (k, l) \<Rightarrow>
     let v1 = (if summarized then j_set J v ''summarized'' (j_of_bool J True) else v) in
     fold_res (\<lambda>v cv. bind_res (value_json J (vl_type l) cv) (\<lambda>x. Inr (member_append J k v x)))
       (j_set J v1 k (j_array J)) (vl_data l))"

definition collector_json :: "'j json_ops \<Rightarrow> ('j, 'x) collector_scheme \<Rightarrow> 'j result" where
  "collector_json J c =
     (if \<not> j_empty J (mCustomResult c) then Inr (mCustomResult c)
      else fold_res (counter_json J (mIsSummarized c)) (mCustomResult c) (mResults c))"

definition collectors_json :: "'j json_ops \<Rightarrow> ('j, 'x, 'w) collection \<Rightarrow> 'j result" where
  "collectors_json J s =
     fold_res (\<lambda>r p. bind_res (collector_json J (objs s p)) (\<lambda>v. Inr (j_set J r (mName (objs s p)) v)))
       (j_null J) (mRunning s)"

definition timing_json :: "'j json_ops \<Rightarrow> i64 list \<Rightarrow> 'j" where
  "timing_json J ts =
     (let v = j_set J (j_null J) ''time'' (j_array J);
          v1 = foldl (\<lambda>v t. member_append J ''time'' v (j_of_int J t)) v ts;
          seconds = ddiv (double_of_int (sint (foldl (+) 0 ts))) (DFin 1000000)
      in j_set J v1 ''samples_per_second'' (j_of_double J (ddiv (double_of_int (int (length ts))) seconds)))"

definition custom_json ::
  "'j json_ops \<Rightarrow> 'j \<Rightarrow> string \<times> i64 list \<times> i64 list \<Rightarrow> 'j" where
  "custom_json J v hcs = (case hcs of (h, col, avgs) \<Rightarrow>
     let v1 = j_set J v h (j_array J) in
     if avgs \<noteq> []
     then j_set J (foldl (\<lambda>v t. member_append J h v (j_of_int J t)) v1 avgs) ''summarized'' (j_of_bool J True)
     else foldl (\<lambda>v t. member_append J h v (j_of_int J t)) v1 col)"

text \<open>
  \<open>results\<close>: the column vectors \<open>mCustom\<close> and \<open>mCustomSummarized\<close> are indexed by the
  position of the header, out of bounds when they are too short.
\<close>

definition results :: "'j json_ops \<Rightarrow> ('j, 'x, 'w) collection \<Rightarrow> 'j result" where
  "results J s =
     bind_res (collectors_json J s) (\<lambda>r.
     let r1 = j_set J r ''timing''
               (timing_json J (if mTimingSummarized s \<noteq> [] then mTimingSummarized s else mTiming s)) in
     if length (mCustomSummarized s) < length (mCustomHeaders s) \<or> length (mCustom s) < length (mCustomHeaders s)
     then Inl OutOfBounds
     else
       let r2 = foldl (\<lambda>r hcs. j_set J r ''custom'' (custom_json J (j_at J r ''custom'') hcs)) r1
                  (zip (mCustomHeaders s) (zip (mCustom s) (mCustomSummarized s)))
       in Inr (if j_isMember J (gConfig s) ''provenance''
               then j_set J r2 ''provenance'' (j_at J (gConfig s) ''provenance'') else r2))"

definition writeJSON ::
  "'j json_ops \<Rightarrow> ('j \<Rightarrow> string) \<Rightarrow> bool \<Rightarrow> bool \<Rightarrow> ('j, 'x, 'w) collection \<Rightarrow> (bool \<times> string) result" where
  "writeJSON J styled open_ok close_ok s =
     bind_res (results J s) (\<lambda>r. if open_ok then Inr (close_ok, styled r) else Inl NullPointer)"

section \<open>CSV\<close>

definition LF :: string where
  "LF = [CHR 0x0A]"

definition csv_value :: "(double \<Rightarrow> string) \<Rightarrow> vtype \<Rightarrow> CollectorValue \<Rightarrow> string result" where
  "csv_value fmt_f ty cv = (case ty of
       TYPE_FP64 \<Rightarrow> bind_res (cv_fp64 cv) (\<lambda>d. Inr ('', '' @ fmt_f d))
     | TYPE_I64 \<Rightarrow> bind_res (cv_i64 cv) (\<lambda>n. Inr ('', '' @ show_int (sint n)))
     | TYPE_U64 \<Rightarrow> bind_res (cv_u64 cv) (\<lambda>n. Inr ('', '' @ show_int (uint n)))
     | TYPE_UNASSIGNED \<Rightarrow> Inl AssertFailed)"

text \<open>The counters of the running collectors, in the order of the two nested loops.\<close>

definition running_counters ::
  "('j, 'x, 'w) collection \<Rightarrow> (string \<times> string \<times> CollectorValueList) list" where
  "running_counters s =
     concat (map (\<lambda>p. map (\<lambda>(k, l). (mName (objs s p), k, l)) (mResults (objs s p))) (mRunning s))"

definition csv_header :: "('j, 'x, 'w) collection \<Rightarrow> string" where
  "csv_header s = ''frametime'' @ concat (map (\<lambda>h. '', '' @ h) (mCustomHeaders s))
     @ concat (map (\<lambda>(nm, k, l). '', '' @ nm @ '':'' @ k) (running_counters s)) @ LF"

definition csv_rows :: "('j, 'x, 'w) collection \<Rightarrow> nat" where
  "csv_rows s = foldl (\<lambda>rows (nm, k, l). if 0 < vl_size l then vl_size l else rows) 0 (running_counters s)"

definition nth_res :: "'a list \<Rightarrow> nat \<Rightarrow> 'a result" where
  "nth_res xs i = (if i < length xs then Inr (xs ! i) else Inl OutOfBounds)"

fun concat_res :: "string result list \<Rightarrow> string result" where
  "concat_res [] = Inr []"
| "concat_res (r # rs) = bind_res r (\<lambda>s. bind_res (concat_res rs) (\<lambda>t. Inr (s @ t)))"

definition csv_row :: "(double \<Rightarrow> string) \<Rightarrow> ('j, 'x, 'w) collection \<Rightarrow> nat \<Rightarrow> string result" where
  "csv_row fmt_f s i =
     concat_res
       ([bind_res (nth_res (mTiming s) i) (\<lambda>t. Inr (show_int (sint t)))]
        @ map (\<lambda>field. bind_res (nth_res (mCustom s) field) (\<lambda>col. bind_res (nth_res col i)
             (\<lambda>t. Inr ('', '' @ show_int (sint t))))) [0..<length (mCustomHeaders s)]
        @ map (\<lambda>(nm, k, l). bind_res (vl_at l (int i)) (csv_value fmt_f (vl_type l))) (running_counters s)
        @ [Inr LF])"

definition writeCSV ::
  "(double \<Rightarrow> string) \<Rightarrow> bool \<Rightarrow> bool \<Rightarrow> ('j, 'x, 'w) collection \<Rightarrow> (bool \<times> string) result" where
  "writeCSV fmt_f open_ok close_ok s =
     (if \<not> open_ok then Inr (False, [])
      else bind_res (concat_res (map (csv_row fmt_f s) [0..<csv_rows s]))
             (\<lambda>body. Inr (close_ok, csv_header s @ body)))"

definition mtv_counter :: "(double \<Rightarrow> string) \<Rightarrow> string \<times> string \<times> CollectorValueList \<Rightarrow> string result" where
  "mtv_counter fmt_f c = (case c of (nm, k, l) \<Rightarrow>
     concat_res ([Inr (nm @ '', '' @ k)] @ map (csv_value fmt_f (vl_type l)) (vl_data l) @ [Inr LF]))"

definition mtv_column :: "i64 list \<Rightarrow> string" where
  "mtv_column ts = concat (map (\<lambda>t. '', '' @ show_int (sint t)) ts)"

definition writeCSV_MTV ::
  "(double \<Rightarrow> string) \<Rightarrow> bool \<Rightarrow> bool \<Rightarrow> ('j, 'x, 'w) collection \<Rightarrow> (bool \<times> string) result" where
  "writeCSV_MTV fmt_f open_ok close_ok s =
     (if \<not> open_ok then Inr (False, [])
      else if length (mCustom s) < length (mCustomHeaders s) then Inl OutOfBounds
      else bind_res (concat_res (map (mtv_counter fmt_f) (running_counters s))) (\<lambda>body.
        Inr (close_ok, body @ ''frametime, time'' @ mtv_column (mTiming s)
          @ concat (map (\<lambda>(h, col). LF @ ''custom, '' @ h @ mtv_column col) (zip (mCustomHeaders s) (mCustom s))))))"

section \<open>The CSV file is rectangular\<close>

lemma concat_res_Inr: "concat_res (map Inr ss) = Inr (concat ss)"
  by (induction ss) auto

lemma concat_res_append:
  "concat_res (xs @ ys) = bind_res (concat_res xs) (\<lambda>s. bind_res (concat_res ys) (\<lambda>t. Inr (s @ t)))"
proof (induction xs)
  case Nil
  then show ?case by (cases "concat_res ys") simp_all
next
  case (Cons x xs)
  then show ?case by (cases x; cases "concat_res xs"; cases "concat_res ys") simp_all
qed

lemma concat_res_eq: "(\<And>x. x \<in> set xs \<Longrightarrow> f x = Inr (g x)) \<Longrightarrow> concat_res (map f xs) = Inr (concat (map g xs))"
  by (induction xs) auto

text \<open>The text of one value, for a value of the type of its list.\<close>

definition value_text :: "(double \<Rightarrow> string) \<Rightarrow> CollectorValue \<Rightarrow> string" where
  "value_text fmt_f cv = '', '' @ (case cv of CV_fp64 d \<Rightarrow> fmt_f d
     | CV_i64 n \<Rightarrow> show_int (sint n) | CV_u64 n \<Rightarrow> show_int (uint n))"

lemma csv_value_typed: "cv_has_type ty cv \<Longrightarrow> csv_value fmt_f ty cv = Inr (value_text fmt_f cv)"
  by (cases ty; cases cv) (simp_all add: csv_value_def value_text_def)

lemma running_counters_wf:
  "coll_wf s \<Longrightarrow> (nm, k, l) \<in> set (running_counters s) \<Longrightarrow> vl_wf l"
  by (auto simp: running_counters_def coll_wf_defs dest: results_wf_mem)

definition csv_row_text :: "(double \<Rightarrow> string) \<Rightarrow> ('j, 'x, 'w) collection \<Rightarrow> nat \<Rightarrow> string" where
  "csv_row_text fmt_f s i = show_int (sint (mTiming s ! i))
     @ concat (map (\<lambda>col. '', '' @ show_int (sint (col ! i))) (mCustom s))
     @ concat (map (\<lambda>(nm, k, l). value_text fmt_f (vl_list l ! i)) (running_counters s)) @ LF"

lemma map_nth_upt: "map (\<lambda>i. f (xs ! i)) [0..<length xs] = map f xs"
  by (rule nth_equalityI) simp_all

lemma csv_row_eq:
  assumes "coll_wf s" and "i < length (mTiming s)" and "\<forall>col \<in> set (mCustom s). i < length col"
    and "\<forall>(nm, k, l) \<in> set (running_counters s). i < vl_size l"
  shows "csv_row fmt_f s i = Inr (csv_row_text fmt_f s i)"
proof -
  have len: "length (mCustomHeaders s) = length (mCustom s)" using assms(1) by (simp add: coll_wf_defs)
  have "concat_res (map (\<lambda>field. bind_res (nth_res (mCustom s) field) (\<lambda>col. bind_res (nth_res col i)
             (\<lambda>t. Inr ('', '' @ show_int (sint t))))) [0..<length (mCustom s)])
      = Inr (concat (map (\<lambda>col. '', '' @ show_int (sint (col ! i))) (mCustom s)))"
    using assms(3)
    by (subst map_nth_upt [of "\<lambda>col. '', '' @ show_int (sint (col ! i))" "mCustom s", symmetric])
      (intro concat_res_eq, auto simp: nth_res_def)
  moreover have "vl_at l (int i) = Inr (vl_list l ! i)" "cv_has_type (vl_type l) (vl_list l ! i)"
    if "(nm, k, l) \<in> set (running_counters s)" for nm k l
    using assms(4) that running_counters_wf [OF assms(1) that]
    by (auto simp: vl_at_def vl_size_def vl_wf_def list_all_iff)
  then have "concat_res (map (\<lambda>(nm, k, l). bind_res (vl_at l (int i)) (csv_value fmt_f (vl_type l))) (running_counters s))
      = Inr (concat (map (\<lambda>(nm, k, l). value_text fmt_f (vl_list l ! i)) (running_counters s)))"
    by (intro concat_res_eq) (auto simp: csv_value_typed)
  moreover have "nth_res (mTiming s) i = Inr (mTiming s ! i)" using assms(2) by (simp add: nth_res_def)
  ultimately show ?thesis
    by (simp add: csv_row_def csv_row_text_def concat_res_append len)
qed

lemma csv_rows_all:
  assumes "\<forall>(nm, k, l) \<in> set cs. vl_size l = n"
  shows "foldl (\<lambda>rows (nm, k, l). if 0 < vl_size l then vl_size l else rows) r cs = (if cs = [] \<or> n = 0 then r else n)"
  using assms by (induction cs arbitrary: r) auto

text \<open>
  C24: when every counter of the enabled collectors and every custom column has one value per frame,
  \<open>writeCSV\<close> writes a complete table: the header line, then exactly one line per frame, in order,
  each with the frame's time, its custom values and its value of every counter, in the order of the
  header.
\<close>

theorem writeCSV_rectangular:
  assumes "coll_wf s" and "running_counters s \<noteq> []"
    and "\<forall>(nm, k, l) \<in> set (running_counters s). vl_size l = length (mTiming s)"
    and "\<forall>col \<in> set (mCustom s). length col = length (mTiming s)"
  shows "writeCSV fmt_f True close_ok s =
     Inr (close_ok, csv_header s @ concat (map (csv_row_text fmt_f s) [0..<length (mTiming s)]))"
proof -
  have "csv_rows s = length (mTiming s)"
    using csv_rows_all [OF assms(3), of 0] assms(2) by (auto simp: csv_rows_def)
  moreover have "concat_res (map (csv_row fmt_f s) [0..<length (mTiming s)])
      = Inr (concat (map (csv_row_text fmt_f s) [0..<length (mTiming s)]))"
    using assms by (intro concat_res_eq csv_row_eq) auto
  ultimately show ?thesis by (simp add: writeCSV_def)
qed

definition example_table :: "(json, private_state, unit) collection" where
  "example_table = example_idle\<lparr>mTiming := [16, 17], objs := (\<lambda>p. (example_new JNull ''rusage'' RusageCollector)
     \<lparr>mResults := (if p = 0 then [(''x'', \<lparr>vl_type = TYPE_I64, vl_list = [CV_i64 4, CV_i64 5], vl_summaries = []\<rparr>)]
       else [])\<rparr>)\<rparr>"

theorem writeCSV_rectangular_witness:
  "writeCSV (\<lambda>_. []) True True example_table =
     Inr (True, ''frametime, rusage:x'' @ LF @ ''16, 4'' @ LF @ ''17, 5'' @ LF)"
proof -
  have "coll_wf example_table"
    by (simp add: example_table_def example_idle_def empty_collection_def coll_wf_defs results_wf_def
        map_wf_def vl_wf_def)
  moreover have "running_counters example_table = [(''rusage'', ''x'', \<lparr>vl_type = TYPE_I64,
      vl_list = [CV_i64 4, CV_i64 5], vl_summaries = []\<rparr>)]" "mTiming example_table = [16, 17]"
    "mCustom example_table = []" "mCustomHeaders example_table = []"
    by (simp_all add: running_counters_def example_table_def example_idle_def empty_collection_def)
  moreover have "show_int 16 = ''16''" "show_int 17 = ''17''" "show_int 4 = ''4''" "show_int 5 = ''5''"
    by code_simp+
  ultimately show ?thesis
    using writeCSV_rectangular [of example_table "\<lambda>_. []" True]
    by (simp add: vl_size_def csv_header_def csv_row_text_def value_text_def)
qed

section \<open>The JSON document holds the samples\<close>

definition json_of :: "'j json_ops \<Rightarrow> CollectorValue \<Rightarrow> 'j" where
  "json_of J cv = (case cv of CV_fp64 d \<Rightarrow> j_of_double J d | CV_i64 n \<Rightarrow> j_of_int J n | CV_u64 n \<Rightarrow> j_of_uint J n)"

lemma value_json_typed: "cv_has_type ty cv \<Longrightarrow> value_json J ty cv = Inr (json_of J cv)"
  by (cases ty; cases cv) (simp_all add: value_json_def json_of_def)

lemma vl_data_typed: "vl_wf l \<Longrightarrow> cv \<in> set (vl_data l) \<Longrightarrow> cv_has_type (vl_type l) cv"
  by (auto simp: vl_wf_def vl_data_def list_all_iff split: if_splits)

lemma counter_json_typed:
  assumes "vl_wf l"
  shows "counter_json J sm v (k, l) = Inr (foldl (member_append J k)
     (j_set J (if sm then j_set J v ''summarized'' (j_of_bool J True) else v) k (j_array J))
     (map (json_of J) (vl_data l)))"
proof -
  have "fold_res (\<lambda>v cv. bind_res (value_json J (vl_type l) cv) (\<lambda>x. Inr (member_append J k v x))) v0 (vl_data l)
      = Inr (foldl (\<lambda>v cv. member_append J k v (json_of J cv)) v0 (vl_data l))" for v0
    using vl_data_typed [OF assms] by (intro fold_res_pure) (simp add: value_json_typed)
  then show ?thesis by (simp add: counter_json_def foldl_map)
qed

context json_api begin

lemma member_append_all:
  assumes "dictlike v" and "listlike (j_at J v k)"
  shows "dictlike (foldl (member_append J k) v xs)
     \<and> j_elements J (j_at J (foldl (member_append J k) v xs) k) = j_elements J (j_at J v k) @ xs
     \<and> (\<forall>k'. k' \<noteq> k \<longrightarrow> j_at J (foldl (member_append J k) v xs) k' = j_at J v k')"
  using assms
proof (induction xs arbitrary: v)
  case (Cons x xs)
  let ?v = "member_append J k v x"
  have v: "dictlike ?v" "listlike (j_at J ?v k)" "j_elements J (j_at J ?v k) = j_elements J (j_at J v k) @ [x]"
    "\<And>k'. k' \<noteq> k \<Longrightarrow> j_at J ?v k' = j_at J v k'"
    using Cons.prems by (simp_all add: member_append_def dictlike_set at_set listlike_append elements_append)
  from Cons.IH [OF v(1,2)] v show ?case by simp
qed simp

lemma counter_json_effect:
  assumes "dictlike v" and "vl_wf l"
  shows "\<exists>v'. counter_json J sm v (k, l) = Inr v' \<and> dictlike v'
     \<and> j_elements J (j_at J v' k) = map (json_of J) (vl_data l)
     \<and> (\<forall>k'. k' \<noteq> k \<longrightarrow> k' \<noteq> ''summarized'' \<longrightarrow> j_at J v' k' = j_at J v k')"
proof -
  let ?v1 = "if sm then j_set J v ''summarized'' (j_of_bool J True) else v"
  have 1: "dictlike ?v1" "\<And>k'. k' \<noteq> ''summarized'' \<Longrightarrow> j_at J ?v1 k' = j_at J v k'"
    using assms(1) by (simp_all add: dictlike_set at_set)
  have 2: "dictlike (j_set J ?v1 k (j_array J))" "j_at J (j_set J ?v1 k (j_array J)) k = j_array J"
    "\<And>k'. k' \<noteq> k \<Longrightarrow> j_at J (j_set J ?v1 k (j_array J)) k' = j_at J ?v1 k'"
    using 1(1) by (simp_all add: dictlike_set at_set)
  have "listlike (j_at J (j_set J ?v1 k (j_array J)) k)" by (simp only: 2(2) listlike_array)
  note e = member_append_all [OF 2(1) this, of "map (json_of J) (vl_data l)"]
  show ?thesis
    unfolding counter_json_typed [OF assms(2)]
    by (rule exI [of _ "foldl (member_append J k) (j_set J ?v1 k (j_array J)) (map (json_of J) (vl_data l))"])
      (use e 1(2) 2(2,3) in \<open>simp add: elements_array\<close>)
qed

lemma counters_json_effect:
  assumes "dictlike v" and "\<forall>(k, l) \<in> set kls. vl_wf l" and "distinct (map fst kls)"
    and "''summarized'' \<notin> fst ` set kls"
  shows "\<exists>v'. fold_res (counter_json J sm) v kls = Inr v' \<and> dictlike v'
     \<and> (\<forall>(k, l) \<in> set kls. j_elements J (j_at J v' k) = map (json_of J) (vl_data l))
     \<and> (\<forall>k'. k' \<notin> fst ` set kls \<longrightarrow> k' \<noteq> ''summarized'' \<longrightarrow> j_at J v' k' = j_at J v k')"
  using assms
proof (induction kls arbitrary: v)
  case (Cons kl kls)
  obtain k l where kl: "kl = (k, l)" by (cases kl)
  obtain v1 where v1: "counter_json J sm v (k, l) = Inr v1" "dictlike v1"
    "j_elements J (j_at J v1 k) = map (json_of J) (vl_data l)"
    "\<And>k'. k' \<noteq> k \<Longrightarrow> k' \<noteq> ''summarized'' \<Longrightarrow> j_at J v1 k' = j_at J v k'"
    using counter_json_effect [OF Cons.prems(1), of l sm k] Cons.prems(2) kl by auto
  obtain v' where v': "fold_res (counter_json J sm) v1 kls = Inr v'" "dictlike v'"
    "\<forall>(k, l) \<in> set kls. j_elements J (j_at J v' k) = map (json_of J) (vl_data l)"
    "\<And>k'. k' \<notin> fst ` set kls \<Longrightarrow> k' \<noteq> ''summarized'' \<Longrightarrow> j_at J v' k' = j_at J v1 k'"
    using Cons.IH [OF v1(2)] Cons.prems by auto
  have "j_at J v' k = j_at J v1 k" using v'(4) Cons.prems(3,4) kl by auto
  then show ?case using v1 v' kl by auto
qed simp

end

text \<open>A collector whose document is made of its samples, or replaced by a custom result.\<close>

definition json_ready :: "'j json_ops \<Rightarrow> ('j, 'x) collector_scheme \<Rightarrow> bool" where
  "json_ready J c \<longleftrightarrow> (mCustomResult c = j_null J \<or> \<not> j_empty J (mCustomResult c))
     \<and> results_wf (mResults c) \<and> ''summarized'' \<notin> fst ` set (mResults c)"

context json_api begin

lemma collector_json_effect:
  assumes "json_ready J c"
  shows "\<exists>v. collector_json J c = Inr v \<and> (mCustomResult c = j_null J \<longrightarrow>
     (\<forall>(k, l) \<in> set (mResults c). j_elements J (j_at J v k) = map (json_of J) (vl_data l)))"
proof (cases "j_empty J (mCustomResult c)")
  case True
  with assms have c: "mCustomResult c = j_null J" by (simp add: json_ready_def)
  have wf: "\<forall>(k, l) \<in> set (mResults c). vl_wf l" "distinct (map fst (mResults c))"
    using assms map_wf_distinct by (auto simp: json_ready_def results_wf_def intro: results_wf_mem)
  have "''summarized'' \<notin> fst ` set (mResults c)" using assms by (simp add: json_ready_def)
  from counters_json_effect [OF dictlike_null wf this, of "mIsSummarized c"] True c
  show ?thesis by (auto simp: collector_json_def)
next
  case False
  then show ?thesis using empty_null by (auto simp: collector_json_def)
qed

lemma collectors_json_effect:
  assumes "\<forall>p \<in> set ps. json_ready J (f p)" and "distinct (map (\<lambda>p. mName (f p)) ps)" and "dictlike r"
  shows "\<exists>r'. fold_res (\<lambda>r p. bind_res (collector_json J (f p)) (\<lambda>v. Inr (j_set J r (mName (f p)) v))) r ps = Inr r'
     \<and> dictlike r'
     \<and> (\<forall>p \<in> set ps. collector_json J (f p) = Inr (j_at J r' (mName (f p))))
     \<and> (\<forall>k. k \<notin> (\<lambda>p. mName (f p)) ` set ps \<longrightarrow> j_at J r' k = j_at J r k)"
  using assms
proof (induction ps arbitrary: r)
  case (Cons p ps)
  obtain v where v: "collector_json J (f p) = Inr v"
    using collector_json_effect [of "f p"] Cons.prems(1) by auto
  let ?r = "j_set J r (mName (f p)) v"
  obtain r' where r': "fold_res (\<lambda>r p. bind_res (collector_json J (f p)) (\<lambda>v. Inr (j_set J r (mName (f p)) v))) ?r ps = Inr r'"
    "dictlike r'" "\<forall>p \<in> set ps. collector_json J (f p) = Inr (j_at J r' (mName (f p)))"
    "\<And>k. k \<notin> (\<lambda>p. mName (f p)) ` set ps \<Longrightarrow> j_at J r' k = j_at J ?r k"
    using Cons.IH [of ?r] Cons.prems dictlike_set by auto
  have "j_at J r' (mName (f p)) = v" using r'(4) Cons.prems(2,3) by (simp add: at_set)
  moreover have "j_at J r' k = j_at J r k" if "k \<notin> insert (mName (f p)) ((\<lambda>p. mName (f p)) ` set ps)" for k
    using r'(4) [of k] that Cons.prems(3) by (simp add: at_set)
  ultimately show ?case using v r' by auto
qed simp

lemma timing_json_time:
  "j_elements J (j_at J (timing_json J ts) ''time'') = map (j_of_int J) ts"
proof -
  let ?v = "j_set J (j_null J) ''time'' (j_array J)"
  have v: "dictlike ?v" "j_at J ?v ''time'' = j_array J" by (simp_all add: dictlike_null dictlike_set at_set)
  note e = member_append_all [OF v(1), of "''time''" "map (j_of_int J) ts"]
  have "foldl (\<lambda>v t. member_append J ''time'' v (j_of_int J t)) ?v ts
      = foldl (member_append J ''time'') ?v (map (j_of_int J) ts)" by (simp add: foldl_map)
  then show ?thesis using e v by (simp add: timing_json_def Let_def at_set listlike_array elements_array)
qed

lemma custom_fold_other:
  assumes "dictlike r"
  shows "dictlike (foldl (\<lambda>r h. j_set J r ''custom'' (g r h)) r hs)
     \<and> (\<forall>k. k \<noteq> ''custom'' \<longrightarrow> j_at J (foldl (\<lambda>r h. j_set J r ''custom'' (g r h)) r hs) k = j_at J r k)"
  using assms by (induction hs arbitrary: r) (auto simp: dictlike_set at_set)

end

text \<open>
  C23: the document of a run holds what was sampled. For a well-formed manager whose enabled
  collectors have no clashing names, \<open>results\<close> returns, and under each collector's name it has,
  for every counter, the array of its samples (or averages) in order; the member \<open>timing\<close> holds
  the frame times, or their averages once the run was summarised.
\<close>

theorem results_faithful:
  assumes "json_api J dictlike listlike" and "coll_wf s" and "\<forall>q \<in> set (mRunning s). json_ready J (objs s q)"
    and "p \<in> set (mRunning s)" and "mCustomResult (objs s p) = j_null J"
    and "mName (objs s p) \<notin> {''timing'', ''custom'', ''provenance''}"
    and "(k, l) \<in> set (mResults (objs s p))"
  shows "\<exists>r. results J s = Inr r
     \<and> j_elements J (j_at J (j_at J r (mName (objs s p))) k) = map (json_of J) (vl_data l)
     \<and> j_elements J (j_at J (j_at J r ''timing'') ''time'')
         = map (j_of_int J) (if mTimingSummarized s \<noteq> [] then mTimingSummarized s else mTiming s)"
proof -
  note api = json_api.collectors_json_effect [OF assms(1) assms(3)]
  have "distinct (map (\<lambda>p. mName (objs s p)) (mRunning s))" using assms(2) by (simp add: coll_wf_defs)
  then obtain r0 where r0: "collectors_json J s = Inr r0" "dictlike r0"
    "\<forall>p \<in> set (mRunning s). collector_json J (objs s p) = Inr (j_at J r0 (mName (objs s p)))"
    using api [OF _ json_api.dictlike_null [OF assms(1)]] by (auto simp: collectors_json_def)
  let ?ts = "if mTimingSummarized s \<noteq> [] then mTimingSummarized s else mTiming s"
  define r1 where "r1 = j_set J r0 ''timing'' (timing_json J ?ts)"
  have r1: "dictlike r1" "\<And>k. j_at J r1 k = (if k = ''timing'' then timing_json J ?ts else j_at J r0 k)"
    using json_api.dictlike_set [OF assms(1) r0(2)] json_api.at_set [OF assms(1) r0(2)]
    by (auto simp: r1_def)
  define r2 where "r2 = foldl (\<lambda>r hcs. j_set J r ''custom'' (custom_json J (j_at J r ''custom'') hcs)) r1
      (zip (mCustomHeaders s) (zip (mCustom s) (mCustomSummarized s)))"
  have r2: "dictlike r2" "\<And>k. k \<noteq> ''custom'' \<Longrightarrow> j_at J r2 k = j_at J r1 k"
    using json_api.custom_fold_other [OF assms(1) r1(1), of "\<lambda>r hcs. custom_json J (j_at J r ''custom'') hcs"]
    by (auto simp: r2_def)
  define r3 where "r3 = (if j_isMember J (gConfig s) ''provenance''
               then j_set J r2 ''provenance'' (j_at J (gConfig s) ''provenance'') else r2)"
  have r3: "j_at J r3 k = j_at J r1 k" if "k \<noteq> ''custom''" "k \<noteq> ''provenance''" for k
    using r2 that json_api.at_set [OF assms(1) r2(1)] by (auto simp: r3_def)
  have "results J s = Inr r3"
    using r0(1) assms(2) by (simp add: results_def Let_def coll_wf_defs r1_def r2_def r3_def)
  moreover have "j_at J r3 (mName (objs s p)) = j_at J r0 (mName (objs s p))"
    using r3 r1(2) assms(6) by simp
  moreover have "j_elements J (j_at J (j_at J r0 (mName (objs s p))) k) = map (json_of J) (vl_data l)"
    using json_api.collector_json_effect [OF assms(1), of "objs s p"] assms(3-5,7) r0(3) by fastforce
  moreover have "j_elements J (j_at J (j_at J r3 ''timing'') ''time'') = map (j_of_int J) ?ts"
    using json_api.timing_json_time [OF assms(1)] r3 r1(2) by simp
  ultimately show ?thesis by auto
qed

theorem results_faithful_witness:
  "\<exists>r. results tree_json example_table = Inr r
     \<and> tree_elements (tree_at (tree_at r ''rusage'') ''x'') = [JInt 4, JInt 5]
     \<and> tree_elements (tree_at (tree_at r ''timing'') ''time'') = [JInt 16, JInt 17]"
proof -
  have w: "coll_wf example_table"
    by (simp add: example_table_def example_idle_def empty_collection_def coll_wf_defs results_wf_def
        map_wf_def vl_wf_def)
  have f: "mRunning example_table = [0]" "mTiming example_table = [16, 17]" "mTimingSummarized example_table = []"
    "mName (objs example_table 0) = ''rusage''" "mCustomResult (objs example_table 0) = JNull"
    "mResults (objs example_table 0) = [(''x'', \<lparr>vl_type = TYPE_I64, vl_list = [CV_i64 4, CV_i64 5], vl_summaries = []\<rparr>)]"
    by (simp_all add: example_table_def example_idle_def empty_collection_def example_new_def
        Collector_new_def with_private_def collector.defs)
  have "json_ready tree_json (objs example_table 0)"
    by (simp add: json_ready_def f results_wf_def map_wf_def vl_wf_def)
  then show ?thesis
    using results_faithful [OF tree.json_api_axioms w, of 0 "''x''"
        "\<lparr>vl_type = TYPE_I64, vl_list = [CV_i64 4, CV_i64 5], vl_summaries = []\<rparr>"]
    by (simp add: f json_of_def vl_data_def)
qed

end
