(* ===== verification/Utility.thy ===== *)
theory Utility
  imports Json_Api C_Library
begin

text \<open>
  \<open>collector_utility.cpp\<close>: splitting strings, the search for a keyword in a driver binary (Horspool's
  algorithm), where the instrumentation configuration and output are found, and the checked
  conversions of strings to integers. Environment variables, directory entries and files are
  arguments.
\<close>

section \<open>splitString\<close>

text \<open>
  A loop of \<open>std::getline\<close>: each call takes the characters up to the next delimiter; a call that
  finds the stream exhausted ends the loop.
\<close>

function splitString :: "char \<Rightarrow> string \<Rightarrow> string list" where
  "splitString delimiter s =
     (if s = [] then []
      else takeWhile (\<lambda>c. c \<noteq> delimiter) s # splitString delimiter (tl (dropWhile (\<lambda>c. c \<noteq> delimiter) s)))"
  by pat_completeness auto
termination
proof (relation "measure (\<lambda>(d, s). length s)", goal_cases)
  case (2 delimiter s)
  then have "0 < length s" by simp
  moreover have "length (dropWhile (\<lambda>c. c \<noteq> delimiter) s) \<le> length s" by (rule length_dropWhile_le)
  ultimately show ?case by (auto simp del: length_greater_0_conv)
qed simp

declare splitString.simps [simp del]

fun joined :: "char \<Rightarrow> string list \<Rightarrow> string" where
  "joined d [] = []"
| "joined d [t] = t"
| "joined d (t # ts) = t @ [d] @ joined d ts"

lemma splitString_no_delimiter:
  "t \<in> set (splitString d s) \<Longrightarrow> d \<notin> set t"
proof (induction d s rule: splitString.induct)
  case (1 d s)
  then show ?case
    by (subst (asm) (2) splitString.simps) (auto split: if_splits dest: set_takeWhileD)
qed

lemma splitString_joined:
  "joined d (splitString d s) = s \<or> joined d (splitString d s) @ [d] = s"
proof (induction d s rule: splitString.induct)
  case (1 d s)
  show ?case
  proof (cases "s = []")
    case True
    then show ?thesis by (simp add: splitString.simps [of d "[]"])
  next
    case False
    let ?t = "takeWhile (\<lambda>c. c \<noteq> d) s" and ?r = "dropWhile (\<lambda>c. c \<noteq> d) s"
    have s: "s = ?t @ ?r" by simp
    show ?thesis
    proof (cases ?r)
      case Nil
      have "splitString d [] = []" by (simp add: splitString.simps)
      moreover have "splitString d s = ?t # splitString d (tl ?r)" using False by (subst splitString.simps) simp
      ultimately have "splitString d s = [?t]" unfolding Nil by (simp only: list.sel(2))
      then show ?thesis using Nil s by simp
    next
      case (Cons c r)
      then have c: "c = d" using hd_dropWhile [of "\<lambda>c. c \<noteq> d" s] by auto
      have sp: "splitString d s = ?t # splitString d r" using False Cons by (subst splitString.simps) simp
      have IH: "joined d (splitString d r) = r \<or> joined d (splitString d r) @ [d] = r"
        using 1 [OF False] Cons by simp
      show ?thesis
      proof (cases "splitString d r")
        case Nil
        then have "r = []" using splitString.simps [of d r] by (auto split: if_splits)
        then show ?thesis using sp Nil s Cons c by simp
      next
        case (Cons t ts)
        then have j: "joined d (splitString d s) = ?t @ [d] @ joined d (splitString d r)" using sp by simp
        have "s = ?t @ [d] @ r" using s \<open>?r = c # r\<close> c by simp
        then show ?thesis using IH j by (metis append.assoc)
      qed
    qed
  qed
qed



section \<open>Horspool's search\<close>

text \<open>
  \<open>bmBc\<close> has one entry per byte value: the keyword's length, or the distance of the last earlier
  occurrence of the byte from the keyword's end.
\<close>

definition bmBc :: "byte list \<Rightarrow> int list" where
  "bmBc x = (let m = int (length x) in
     foldl (\<lambda>t i. t[unat (x ! i) := m - int i - 1]) (replicate 256 m) [0..<length x - 1])"

definition match_at :: "byte list \<Rightarrow> byte list \<Rightarrow> nat \<Rightarrow> bool" where
  "match_at x y j = (take (length x) (drop j y) = x)"

lemma byte_index: "unat (c :: byte) < 256"
  using unsigned_less [of c, where 'a = nat] by simp

lemma bmBc_fold:
  fixes x :: "byte list"
  assumes "k \<le> length x - 1"
  shows "let t = foldl (\<lambda>t i. t[unat (x ! i) := int (length x) - int i - 1]) (replicate 256 (int (length x))) [0..<k]
     in length t = 256 \<and> (\<forall>c < 256. t ! c \<le> int (length x) \<and> (x \<noteq> [] \<longrightarrow> 1 \<le> t ! c))
        \<and> (\<forall>i < k. t ! unat (x ! i) \<le> int (length x) - int i - 1)"
  using assms
proof (induction k)
  case 0
  then show ?case by (cases x) (auto simp: Let_def)
next
  case (Suc k)
  let ?t = "foldl (\<lambda>t i. t[unat (x ! i) := int (length x) - int i - 1]) (replicate 256 (int (length x))) [0..<k]"
  have b: "unat (x ! k) < 256" by (rule byte_index)
  from Suc have IH: "length ?t = 256" "\<forall>c < 256. ?t ! c \<le> int (length x) \<and> (x \<noteq> [] \<longrightarrow> 1 \<le> ?t ! c)"
    "\<forall>i < k. ?t ! unat (x ! i) \<le> int (length x) - int i - 1"
    by (auto simp: Let_def)
  have k: "Suc k \<le> length x - 1" using Suc.prems .
  show ?case
    using IH b k by (auto simp: Let_def nth_list_update less_Suc_eq)
qed

lemma bmBc_facts:
  shows "length (bmBc x) = 256" and "c < 256 \<Longrightarrow> bmBc x ! c \<le> int (length x)"
    and "c < 256 \<Longrightarrow> x \<noteq> [] \<Longrightarrow> 1 \<le> bmBc x ! c"
    and "i < length x - 1 \<Longrightarrow> bmBc x ! unat (x ! i) \<le> int (length x) - int i - 1"
  using bmBc_fold [of "length x - 1" x] by (auto simp: bmBc_def Let_def)

text \<open>
  The search loop. An empty keyword makes the first access read before the data, which is out of
  bounds. The size of the data is converted to a 32-bit \<open>int\<close> before the loop: the loop sees no
  byte when the result is negative, and only as many bytes as the result says otherwise.
\<close>

function horspool_loop :: "byte list \<Rightarrow> byte list \<Rightarrow> int \<Rightarrow> bool result" where
  "horspool_loop x y j =
     (let m = int (length x); n = int (length y) in
      if \<not> j \<le> n - m then Inr False
      else if m = 0 \<or> j < 0 then Inl OutOfBounds
      else
        let c = y ! nat (j + m - 1) in
        if x ! nat (m - 1) = c \<and> take (nat (m - 1)) (drop (nat j) y) = take (nat (m - 1)) x then Inr True
        else horspool_loop x y (j + bmBc x ! unat c))"
  by pat_completeness auto
termination
proof (relation "measure (\<lambda>(x, y, j). nat (int (length y) - int (length x) - j + 1))", goal_cases)
  case (2 x y j m n c)
  then have "1 \<le> bmBc x ! unat c" by (intro bmBc_facts(3) byte_index) auto
  with 2 show ?case by simp
qed simp

declare horspool_loop.simps [simp del]

definition searchMemoryAreaForKeyword :: "byte list \<Rightarrow> byte list \<Rightarrow> bool result" where
  "searchMemoryAreaForKeyword data keyword =
     (let n = sint (of_nat (length data) :: i32) in
      if n < 0 then Inr False else horspool_loop keyword (take (nat n) data) 0)"

lemma match_at_nth:
  "match_at x y j \<Longrightarrow> i < length x \<Longrightarrow> j + i < length y \<and> y ! (j + i) = x ! i"
proof -
  assume m: "match_at x y j" and i: "i < length x"
  have "length x \<le> length (drop j y)" using m by (metis length_take match_at_def min.cobounded1 min.commute)
  then have "j + i < length y" using i by simp
  moreover have "y ! (j + i) = take (length x) (drop j y) ! i" using i calculation by simp
  ultimately show ?thesis using m by (simp add: match_at_def)
qed

text \<open>A match cannot start before the next position the loop looks at.\<close>

lemma horspool_skip:
  assumes "x \<noteq> []" and "j + length x \<le> length y" and "match_at x y (j + d)"
    and "0 < d"
  shows "bmBc x ! unat (y ! (j + length x - 1)) \<le> int d"
proof (cases "d < length x")
  case True
  let ?i = "length x - 1 - d"
  have i: "?i < length x - 1" "?i < length x" "j + d + ?i = j + length x - 1" using True assms(1,4) by auto
  then have "y ! (j + length x - 1) = x ! ?i" using match_at_nth [OF assms(3) i(2)] by simp
  moreover have "bmBc x ! unat (x ! ?i) \<le> int (length x) - int ?i - 1" by (rule bmBc_facts(4) [OF i(1)])
  moreover have "int (length x) - int ?i - 1 = int d" using True by simp
  ultimately show ?thesis by simp
next
  case False
  then show ?thesis using bmBc_facts(2) [OF byte_index, of x] by (smt (verit) of_nat_le_iff not_less)
qed

lemma take_snoc_eq:
  assumes "x \<noteq> []" and "j + length x \<le> length y"
  shows "match_at x y j \<longleftrightarrow> x ! (length x - 1) = y ! (j + length x - 1)
     \<and> take (length x - 1) (drop j y) = take (length x - 1) x"
proof -
  obtain m where m: "length x = Suc m" using assms(1) by (cases x) auto
  have "take (Suc m) (drop j y) = take m (drop j y) @ [y ! (j + m)]"
    using assms(2) m by (simp add: take_Suc_conv_app_nth)
  moreover have "x = take m x @ [x ! m]" using m by (metis lessI order_refl take_Suc_conv_app_nth take_all)
  ultimately have "match_at x y j \<longleftrightarrow> take m (drop j y) @ [y ! (j + m)] = take m x @ [x ! m]"
    using m by (simp add: match_at_def)
  then show ?thesis using m by auto
qed

lemma horspool_loop_correct:
  "x \<noteq> [] \<Longrightarrow> 0 \<le> j \<Longrightarrow> \<forall>i < nat j. \<not> match_at x y i \<Longrightarrow>
     horspool_loop x y j = Inr (\<exists>i. match_at x y i)"
proof (induction x y j rule: horspool_loop.induct)
  case (1 x y j)
  let ?m = "int (length x)" and ?n = "int (length y)"
  let ?c = "y ! nat (j + ?m - 1)"
  show ?case
  proof (cases "j \<le> ?n - ?m")
    case False
    have "\<not> match_at x y i" for i
    proof
      assume mi: "match_at x y i"
      then have "i + (length x - 1) < length y"
        using match_at_nth [of x y i "length x - 1"] 1(2) by simp
      then have "i < nat j" using False 1(2) by (cases x) auto
      with 1(4) mi show False by simp
    qed
    then show ?thesis using False by (simp add: horspool_loop.simps [of x y])
  next
    case True
    have idx: "nat j + length x \<le> length y" "nat (j + ?m - 1) = nat j + length x - 1" "nat (?m - 1) = length x - 1"
      using True 1(2,3) by (cases x; auto)+
    show ?thesis
    proof (cases "match_at x y (nat j)")
      case m: True
      then have "x ! nat (?m - 1) = ?c \<and> take (nat (?m - 1)) (drop (nat j) y) = take (nat (?m - 1)) x"
        using take_snoc_eq [OF 1(2) idx(1)] idx by simp
      then show ?thesis using True 1(2,3) m by (subst horspool_loop.simps) (auto simp: Let_def)
    next
      case m: False
      then have t: "\<not> (x ! nat (?m - 1) = ?c \<and> take (nat (?m - 1)) (drop (nat j) y) = take (nat (?m - 1)) x)"
        using take_snoc_eq [OF 1(2) idx(1)] idx by simp
      let ?j = "j + bmBc x ! unat ?c"
      have pos: "1 \<le> bmBc x ! unat ?c" using 1(2) by (intro bmBc_facts(3) byte_index)
      have "\<not> match_at x y i" if "i < nat ?j" for i
      proof (cases "i < nat j")
        case False
        show ?thesis
        proof
          assume mi: "match_at x y i"
          obtain d where d: "i = nat j + d" using False by (metis le_add_diff_inverse not_less)
          with m mi have "0 < d" by (cases d) auto
          then have "bmBc x ! unat ?c \<le> int d"
            using horspool_skip [OF 1(2) idx(1)] mi d idx(2) by simp
          then show False using that d 1(3) by simp
        qed
      qed (use 1(4) in simp)
      then have "horspool_loop x y ?j = Inr (\<exists>i. match_at x y i)"
        using 1(1) [OF refl refl _ _ refl t] True 1(2,3) pos by simp
      then show ?thesis using True 1(2,3) t by (subst horspool_loop.simps) (auto simp: Let_def)
    qed
  qed
qed

text \<open>
  C18: the keyword search finds a keyword exactly when it occurs. For data of less than two gigabytes
  and every non-empty keyword the search ends with true if the data contain the keyword as a
  contiguous block and with false otherwise; the table's skips lose no occurrence and the loop
  always advances. An empty keyword makes it read out of bounds.
\<close>

theorem searchMemoryAreaForKeyword_correct:
  assumes "length data < 2 ^ 31"
  shows "searchMemoryAreaForKeyword data keyword =
     (if keyword = [] then Inl OutOfBounds else Inr (\<exists>pre post. data = pre @ keyword @ post))"
proof -
  have "int (length data) < 2 ^ 31" using assms by (metis of_nat_less_iff of_nat_numeral of_nat_power)
  then have n: "sint (of_nat (length data) :: i32) = int (length data)"
    using sint_sbintrunc' [of "int (length data)", where 'a = 32]
    by (simp add: signed_take_bit_int_eq_self)
  then have s: "searchMemoryAreaForKeyword data keyword = horspool_loop keyword data 0"
    by (simp add: searchMemoryAreaForKeyword_def)
  show ?thesis
  proof (cases "keyword = []")
    case True
    have "horspool_loop [] data 0 = Inl OutOfBounds" by (simp add: horspool_loop.simps)
    then show ?thesis using True s by simp
  next
    case False
    have "match_at keyword data i \<Longrightarrow> \<exists>pre post. data = pre @ keyword @ post" for i
      by (metis append_take_drop_id match_at_def)
    moreover have "match_at keyword (pre @ keyword @ post) (length pre)" for pre post
      by (simp add: match_at_def)
    ultimately have "(\<exists>i. match_at keyword data i) \<longleftrightarrow> (\<exists>pre post. data = pre @ keyword @ post)" by blast
    then show ?thesis using False horspool_loop_correct [of keyword 0 data] by (simp add: s)
  qed
qed

theorem searchMemoryAreaForKeyword_correct_witness:
  "searchMemoryAreaForKeyword [1, 2, 3, 2, 4] [2, 4] = Inr True \<and> searchMemoryAreaForKeyword [1, 2, 3] [] = Inl OutOfBounds"
proof -
  have "[1, 2, 3, 2, 4] = [1, 2, 3] @ [2, 4] @ ([] :: byte list)" by simp
  then have "\<exists>pre post. [1, 2, 3, 2, 4] = pre @ [2, 4] @ (post :: byte list)" by blast
  then show ?thesis
    using searchMemoryAreaForKeyword_correct [of "[1, 2, 3, 2, 4]" "[2, 4]"]
      searchMemoryAreaForKeyword_correct [of "[1, 2, 3]" "[]"] by auto
qed

section \<open>Looking for the driver and the instrumentation\<close>

text \<open>
  The file system as the functions see it: the content of a file that can be inspected, read and
  mapped, and whether a path exists.
\<close>

record file_ops =
  fs_exists :: "string \<Rightarrow> bool"
  fs_map :: "string \<Rightarrow> byte list option"

definition fileHasKeyword :: "file_ops \<Rightarrow> string \<Rightarrow> byte list \<Rightarrow> bool result" where
  "fileHasKeyword F filePath keyword =
     (if \<not> fs_exists F filePath then Inr False
      else case fs_map F filePath of
        None \<Rightarrow> Inr False
      | Some data \<Rightarrow> searchMemoryAreaForKeyword data keyword)"

definition checkDDK :: "file_ops \<Rightarrow> string \<Rightarrow> byte list \<Rightarrow> bool result" where
  "checkDDK F filePath keyword = fileHasKeyword F filePath keyword"

definition soName :: "bool \<Rightarrow> string" where
  "soName android = (if android then ''/libGLES_mali.so'' else ''/libmali.so'')"

definition possible_paths :: "bool \<Rightarrow> string option \<Rightarrow> string list" where
  "possible_paths android ld_library_path =
     (if android then [''/system/vendor/lib/egl'' @ soName android, ''/system/lib/egl'' @ soName android]
      else (case ld_library_path of None \<Rightarrow> [] | Some s \<Rightarrow> splitString (CHR '':'') s)
        @ [''/lib'' @ soName android, ''/usr/lib'' @ soName android])"

fun first_driver :: "file_ops \<Rightarrow> string \<Rightarrow> string list \<Rightarrow> byte list \<Rightarrow> bool result" where
  "first_driver F so [] keyword = Inr False"
| "first_driver F so (p # ps) keyword =
     (if fs_exists F (p @ so) then checkDDK F (p @ so) keyword else first_driver F so ps keyword)"

definition DDKHasInstrCompiledIn :: "file_ops \<Rightarrow> bool \<Rightarrow> string option \<Rightarrow> byte list \<Rightarrow> bool result" where
  "DDKHasInstrCompiledIn F android ld_library_path keyword =
     first_driver F (soName android) (possible_paths android ld_library_path) keyword"

text \<open>Directory entries carry whether they are regular files.\<close>

definition getMidgardInstrConfigPath :: "(string \<times> bool) list option \<Rightarrow> string" where
  "getMidgardInstrConfigPath dir =
     (case dir of None \<Rightarrow> []
      | Some ents \<Rightarrow> (case find (\<lambda>(nm, regular). strstr nm ''.instr_config'' \<and> regular) ents of
          None \<Rightarrow> [] | Some (nm, _) \<Rightarrow> nm))"

definition outdir_of :: "string list \<Rightarrow> string" where
  "outdir_of lines =
     (case find (\<lambda>line. 5 < length line \<and> take 9 line = ''outdir = '') lines of
        None \<Rightarrow> [] | Some line \<Rightarrow> drop 9 line)"

definition getMidgardInstrOutputPath ::
  "string option \<Rightarrow> (string \<times> bool) list option \<Rightarrow> (string \<Rightarrow> string list) \<Rightarrow> string" where
  "getMidgardInstrOutputPath env_output_dir dir read_lines =
     (case env_output_dir of Some d \<Rightarrow> d
      | None \<Rightarrow> let path = getMidgardInstrConfigPath dir in
          if path \<noteq> [] then outdir_of (read_lines path) else [])"

text \<open>\<open>operator>>\<close> reads a number that fits the type, or fails; the caller then asserts.\<close>

definition stoi :: "string \<Rightarrow> i32 result" where
  "stoi str = (case scan_int str of
      Some (n, _) \<Rightarrow> if - (2 ^ 31) \<le> n \<and> n < 2 ^ 31 then Inr (word_of_int n) else Inl AssertFailed
    | None \<Rightarrow> Inl AssertFailed)"

definition stol :: "string \<Rightarrow> u64 result" where
  "stol str = (case scan_int str of
      Some (n, _) \<Rightarrow> if \<bar>n\<bar> < 2 ^ 64 then Inr (word_of_int n) else Inl AssertFailed
    | None \<Rightarrow> Inl AssertFailed)"

definition file_exists :: "file_ops \<Rightarrow> string \<Rightarrow> bool" where
  "file_exists F nm = fs_exists F nm"

lemma first_driver_unknown:
  "(\<And>p. p \<in> set ps \<Longrightarrow> \<not> fs_exists F (p @ so)) \<Longrightarrow> first_driver F so (ps @ qs) k = first_driver F so qs k"
  by (induction ps) auto

text \<open>
  The driver's own directories are never found. The library name is appended to paths that
  already end in it, so without a search path the files looked for are
  \<open>/lib/libmali.so/libmali.so\<close> and \<open>/usr/lib/libmali.so/libmali.so\<close>; on a system where the
  driver is the regular file \<open>/usr/lib/libmali.so\<close> these do not exist and the answer is no, whatever
  the driver contains.
\<close>

theorem default_driver_never_found:
  assumes "\<not> fs_exists F ''/lib/libmali.so/libmali.so''"
    and "\<not> fs_exists F ''/usr/lib/libmali.so/libmali.so''"
    and "fs_exists F ''/usr/lib/libmali.so''" and "fs_map F ''/usr/lib/libmali.so'' = Some (pre @ keyword @ post)"
  shows "DDKHasInstrCompiledIn F False None keyword = Inr False"
  using assms by (simp add: DDKHasInstrCompiledIn_def possible_paths_def soName_def)

theorem default_driver_never_found_witness:
  "DDKHasInstrCompiledIn \<lparr>fs_exists = (\<lambda>p. p = ''/usr/lib/libmali.so''), fs_map = (\<lambda>_. Some [7, 8, 9])\<rparr>
     False None [8] = Inr False"
  using default_driver_never_found
    [of "\<lparr>fs_exists = (\<lambda>p. p = ''/usr/lib/libmali.so''), fs_map = (\<lambda>_. Some [7, 8, 9])\<rparr>" "[7]" "[8]" "[9]"]
  by simp

end
