(* ===== verification/Annotate_Buffer.thy ===== *)
theory Annotate_Buffer
  imports Json_Api
begin

text \<open>
  The ring buffer of \<open>streamline_annotate.cpp\<close>: each application thread owns a buffer of
  64 KiB that it fills at \<open>write_pos\<close> and the sender thread empties at \<open>read_pos\<close>. The
  functions that write one item into the buffer are modelled with the positions as 32-bit words;
  the abstraction of a buffer is the queue of bytes between the two positions. The packed integers
  are signed LEB128, decoded here by a reference decoder.
\<close>

section \<open>State\<close>

text \<open>
  \<open>buf\<close> is indexed by the position; \<open>oob_data\<close> holds the bytes the pointer of the same name
  still points to, \<open>sem\<close> the value of the semaphore. The list links \<open>next\<close> are the order
  of the list of threads.
\<close>

type_synonym buffer = "nat \<Rightarrow> byte"

record gator_thread =
  oob_data :: "byte list"
  oob_length :: nat
  sem :: nat
  fd :: int
  tid :: i32
  write_pos :: u32
  read_pos :: u32
  exited :: bool
  buf :: buffer

definition THREAD_BUFFER_SIZE :: nat where
  "THREAD_BUFFER_SIZE = 65536"

definition THREAD_BUFFER_MASK :: u32 where
  "THREAD_BUFFER_MASK = 65535"

definition gator_buf_pos :: "u32 \<Rightarrow> u32" where
  "gator_buf_pos pos = pos AND THREAD_BUFFER_MASK"

section \<open>Writing items\<close>

text \<open>
  A writer takes the buffer and the write position and gives the number of bytes written, the
  buffer and the new position.
\<close>

type_synonym writer = "buffer \<times> u32 \<Rightarrow> u32 \<times> buffer \<times> u32"

definition store :: "u32 \<Rightarrow> byte \<Rightarrow> buffer \<Rightarrow> buffer" where
  "store pos b m = m(unat pos := b)"

definition gator_buf_write_byte :: "byte \<Rightarrow> writer" where
  "gator_buf_write_byte b st = (case st of (m, pos) \<Rightarrow> (1, store pos b m, gator_buf_pos (pos + 1)))"

definition gator_buf_write_uint32 :: "u32 \<Rightarrow> writer" where
  "gator_buf_write_uint32 i st = (case st of (m, pos) \<Rightarrow>
     (4, store (gator_buf_pos (pos + 3)) (ucast (drop_bit 24 i AND 0xff))
           (store (gator_buf_pos (pos + 2)) (ucast (drop_bit 16 i AND 0xff))
             (store (gator_buf_pos (pos + 1)) (ucast (drop_bit 8 i AND 0xff))
               (store (gator_buf_pos (pos + 0)) (ucast (i AND 0xff)) m))),
      gator_buf_pos (pos + 4)))"

definition gator_buf_write_color :: "u32 \<Rightarrow> writer" where
  "gator_buf_write_color color st = (case st of (m, pos) \<Rightarrow>
     (4, store (gator_buf_pos (pos + 3)) (ucast (drop_bit 0 color AND 0xff))
           (store (gator_buf_pos (pos + 2)) (ucast (drop_bit 24 color AND 0xff))
             (store (gator_buf_pos (pos + 1)) (ucast (drop_bit 16 color AND 0xff))
               (store (gator_buf_pos (pos + 0)) (ucast (drop_bit 8 color AND 0xff)) m))),
      gator_buf_pos (pos + 4)))"

text \<open>
  The packing loop, the same for 32 and 64 bits: seven bits per byte, low bits first, and the top
  bit set on every byte but the last. On the value of a signed integer, \<open>x & 0x7f\<close> is the
  remainder and \<open>x >>= 7\<close> the quotient of the division by 128 that rounds down, whatever the width.
\<close>

definition pack_last :: "int \<Rightarrow> bool" where
  "pack_last x = (let b = x mod 128; x' = x div 128 in
     x' = 0 \<and> \<not> bit b 6 \<or> x' = -1 \<and> bit b 6)"

definition pack_byte :: "int \<Rightarrow> byte" where
  "pack_byte x = (if pack_last x then word_of_int (x mod 128) else word_of_int (x mod 128) OR 0x80)"

lemma bit_6_iff:
  fixes b :: int
  assumes "0 \<le> b" and "b < 128"
  shows "bit b 6 \<longleftrightarrow> 64 \<le> b"
proof -
  have "b div 64 = 0 \<or> b div 64 = 1" using assms by presburger
  then show ?thesis using assms by (auto simp: bit_iff_odd)
qed

lemma pack_last_iff: "pack_last x \<longleftrightarrow> - 64 \<le> x \<and> x < 64"
proof -
  have "bit (x mod 128) 6 \<longleftrightarrow> 64 \<le> x mod 128" by (rule bit_6_iff) simp_all
  then show ?thesis unfolding pack_last_def Let_def by presburger
qed

function pack_loop :: "buffer \<Rightarrow> u32 \<Rightarrow> nat \<Rightarrow> int \<Rightarrow> buffer \<times> nat" where
  "pack_loop m pos packed x =
     (let m' = store (gator_buf_pos (pos + of_nat packed)) (pack_byte x) m in
      if pack_last x then (m', Suc packed) else pack_loop m' pos (Suc packed) (x div 128))"
  by pat_completeness auto
termination
proof (relation "measure (\<lambda>(m, pos, packed, x). nat \<bar>x\<bar>)", goal_cases)
  case (2 m pos packed x m')
  then have "x < -64 \<or> 64 \<le> x" by (auto simp: pack_last_iff)
  moreover have "128 * (x div 128) \<le> x" "x < 128 * (x div 128) + 128" by presburger+
  ultimately have "\<bar>x div 128\<bar> < \<bar>x\<bar>" by arith
  then show ?case by simp
qed simp

declare pack_loop.simps [simp del]

definition gator_buf_write_int :: "i32 \<Rightarrow> writer" where
  "gator_buf_write_int x st = (case st of (m, pos) \<Rightarrow>
     (case pack_loop m pos 0 (sint x) of (m', n) \<Rightarrow> (of_nat n, m', gator_buf_pos (pos + of_nat n))))"

definition gator_buf_write_long :: "i64 \<Rightarrow> writer" where
  "gator_buf_write_long x st = (case st of (m, pos) \<Rightarrow>
     (case pack_loop m pos 0 (sint x) of (m', n) \<Rightarrow> (of_nat n, m', gator_buf_pos (pos + of_nat n))))"

definition gator_buf_write_time :: "u64 \<Rightarrow> writer" where
  "gator_buf_write_time now = gator_buf_write_long now"

text \<open>\<open>memcpy(m + pos, data, count)\<close>.\<close>

fun memcpy :: "nat \<Rightarrow> byte list \<Rightarrow> buffer \<Rightarrow> buffer" where
  "memcpy pos [] m = m"
| "memcpy pos (b # bs) m = memcpy (Suc pos) bs (m(pos := b))"

definition gator_buf_write_bytes :: "byte list \<Rightarrow> writer" where
  "gator_buf_write_bytes data st = (case st of (m, pos) \<Rightarrow>
     let count = of_nat (length data) :: u32 in
     (count,
      if unat (pos + count) \<le> THREAD_BUFFER_SIZE then memcpy (unat pos) (take (unat count) data) m
      else let first = THREAD_BUFFER_SIZE - unat pos in
        memcpy 0 (take (unat count - first) (drop first data)) (memcpy (unat pos) (take first data) m),
      gator_buf_pos (pos + count)))"

section \<open>Free space\<close>

definition gator_buf_free :: "gator_thread \<Rightarrow> u32" where
  "gator_buf_free th = (read_pos th - write_pos th - 1) AND THREAD_BUFFER_MASK"

definition gator_buf_used :: "gator_thread \<Rightarrow> u32" where
  "gator_buf_used th = (write_pos th - read_pos th) AND THREAD_BUFFER_MASK"

section \<open>Positions\<close>

lemma unat_gator_buf_pos: "unat (gator_buf_pos w) = unat w mod 65536"
proof -
  have "(THREAD_BUFFER_MASK :: u32) = mask 16" by (simp add: THREAD_BUFFER_MASK_def mask_eq_exp_minus_1)
  then have "gator_buf_pos w = take_bit 16 w" by (simp add: gator_buf_pos_def take_bit_eq_mask)
  then have "unat (gator_buf_pos w) = take_bit 16 (unat w)" by (simp only: unsigned_take_bit_eq)
  then show ?thesis by (simp add: take_bit_eq_mod)
qed

lemma gator_buf_pos_add:
  assumes "unat pos < 65536" and "n \<le> 65536"
  shows "unat (gator_buf_pos (pos + of_nat n)) = (unat pos + n) mod 65536"
  using unat_add_small [of pos n] assms by (simp add: unat_gator_buf_pos)

section \<open>Packed integers\<close>

function leb :: "int \<Rightarrow> byte list" where
  "leb x = pack_byte x # (if pack_last x then [] else leb (x div 128))"
  by pat_completeness auto
termination
proof (relation "measure (\<lambda>x. nat \<bar>x\<bar>)", goal_cases)
  case (2 x)
  then have "x < -64 \<or> 64 \<le> x" by (auto simp: pack_last_iff)
  moreover have "128 * (x div 128) \<le> x" "x < 128 * (x div 128) + 128" by presburger+
  ultimately have "\<bar>x div 128\<bar> < \<bar>x\<bar>" by arith
  then show ?case by simp
qed simp

declare leb.simps [simp del]

lemma leb_length: "- (2 ^ (7 * Suc n - 1)) \<le> x \<Longrightarrow> x < 2 ^ (7 * Suc n - 1) \<Longrightarrow> length (leb x) \<le> Suc n"
proof (induction n arbitrary: x)
  case 0
  then have "pack_last x" by (simp add: pack_last_iff)
  then show ?case by (simp add: leb.simps)
next
  case (Suc n)
  have e: "7 * Suc (Suc n) - 1 = 7 + (7 * Suc n - 1)" by simp
  have "(2 :: int) ^ (7 * Suc (Suc n) - 1) = 128 * 2 ^ (7 * Suc n - 1)" unfolding e power_add by simp
  with Suc.prems have "- (2 ^ (7 * Suc n - 1)) \<le> x div 128" "x div 128 < 2 ^ (7 * Suc n - 1)" by linarith+
  from Suc.IH [OF this] show ?case by (simp add: leb.simps [of x])
qed

lemma leb_int_length: "length (leb (sint (x :: i32))) \<le> 5"
proof -
  have "- (2 ^ 31) \<le> sint x" "sint x < 2 ^ 31"
    using sint_ge [of x] sint_lt [of x] by simp_all
  then show ?thesis using leb_length [of 4 "sint x"] by simp
qed

lemma leb_long_length: "length (leb (sint (x :: i64))) \<le> 10"
proof -
  have "- (2 ^ 63) \<le> sint x" "sint x < 2 ^ 63"
    using sint_ge [of x] sint_lt [of x] by simp_all
  then show ?thesis using leb_length [of 9 "sint x"] by simp
qed

lemma uint_pack_byte: "uint (pack_byte x) = (if pack_last x then x mod 128 else x mod 128 + 128)"
proof -
  let ?a = "x mod 128"
  have a: "0 \<le> ?a" "?a < 128" by simp_all
  then have w: "uint (word_of_int ?a :: byte) = ?a" by (simp add: unsigned_of_int take_bit_int_eq_self)
  have "\<not> bit ?a 7" using a by (simp add: bit_iff_odd)
  then have "?a AND 128 = 0" using and_exp_eq_0_iff_not_bit [of ?a 7] by simp
  then have "?a OR 128 = ?a + 128" using plus_and_or [of ?a 128] by simp
  then have "uint (word_of_int ?a OR 0x80 :: byte) = ?a + 128" by (simp add: unsigned_or_eq w)
  then show ?thesis using w by (simp add: pack_byte_def)
qed

text \<open>The reader's side of the format: signed LEB128.\<close>

fun unleb :: "byte list \<Rightarrow> (int \<times> byte list) option" where
  "unleb [] = None"
| "unleb (b # bs) =
     (if uint b < 128 then Some (if 64 \<le> uint b then uint b - 128 else uint b, bs)
      else case unleb bs of None \<Rightarrow> None | Some (v, r) \<Rightarrow> Some (uint b - 128 + 128 * v, r))"

lemma unleb_leb: "unleb (leb x @ r) = Some (x, r)"
proof (induction x rule: leb.induct)
  case (1 x)
  show ?case
  proof (cases "pack_last x")
    case True
    then have "- 64 \<le> x" "x < 64" by (simp_all add: pack_last_iff)
    then have "64 \<le> x mod 128 \<Longrightarrow> x mod 128 - 128 = x" "\<not> 64 \<le> x mod 128 \<Longrightarrow> x mod 128 = x"
      by presburger+
    then show ?thesis using True by (auto simp: leb.simps [of x] uint_pack_byte)
  next
    case False
    have "\<not> x mod 128 < 0" by simp
    then show ?thesis using 1 False by (simp add: leb.simps [of x] uint_pack_byte)
  qed
qed

section \<open>What a writer writes\<close>

fun put :: "buffer \<Rightarrow> nat \<Rightarrow> byte list \<Rightarrow> buffer" where
  "put m p [] = m"
| "put m p (b # bs) = put (m(p mod 65536 := b)) (Suc p) bs"

text \<open>\<open>emits w bs\<close>: writer \<open>w\<close> puts the bytes \<open>bs\<close> at the write position, around the end.\<close>

definition emits :: "writer \<Rightarrow> byte list \<Rightarrow> bool" where
  "emits w bs \<longleftrightarrow> length bs \<le> 65536 \<and> (\<forall>m pos. unat pos < 65536 \<longrightarrow>
     w (m, pos) = (of_nat (length bs), put m (unat pos) bs, gator_buf_pos (pos + of_nat (length bs))))"

lemma put_append: "put m p (as @ bs) = put (put m p as) (p + length as) bs"
  by (induction as arbitrary: m p) simp_all

lemma emits_byte [wf_intros]: "emits (gator_buf_write_byte b) [b]"
  by (simp add: emits_def gator_buf_write_byte_def store_def)

lemma store_pos: "unat pos < 65536 \<Longrightarrow> n \<le> 65536 \<Longrightarrow>
    store (gator_buf_pos (pos + of_nat n)) b m = m((unat pos + n) mod 65536 := b)"
  by (simp add: store_def gator_buf_pos_add)

definition le32 :: "u32 \<Rightarrow> byte list" where
  "le32 i = [ucast (i AND 0xff), ucast (drop_bit 8 i AND 0xff), ucast (drop_bit 16 i AND 0xff),
     ucast (drop_bit 24 i AND 0xff)]"

definition color_bytes :: "u32 \<Rightarrow> byte list" where
  "color_bytes color = [ucast (drop_bit 8 color AND 0xff), ucast (drop_bit 16 color AND 0xff),
     ucast (drop_bit 24 color AND 0xff), ucast (drop_bit 0 color AND 0xff)]"

lemma emits_uint32 [wf_intros]: "emits (gator_buf_write_uint32 i) (le32 i)"
  using store_pos [where n = 0] store_pos [where n = 1] store_pos [where n = 2] store_pos [where n = 3]
  by (simp add: emits_def gator_buf_write_uint32_def le32_def add.commute [of 3])

lemma emits_color [wf_intros]: "emits (gator_buf_write_color c) (color_bytes c)"
  using store_pos [where n = 0] store_pos [where n = 1] store_pos [where n = 2] store_pos [where n = 3]
  by (simp add: emits_def gator_buf_write_color_def color_bytes_def add.commute [of 3])

lemma pack_loop_put:
  "unat pos < 65536 \<Longrightarrow> packed + length (leb x) \<le> 65536 \<Longrightarrow>
     pack_loop m pos packed x = (put m (unat pos + packed) (leb x), packed + length (leb x))"
proof (induction m pos packed x rule: pack_loop.induct)
  case (1 m pos packed x)
  have n: "packed \<le> 65536" using 1(3) by simp
  show ?case
  proof (cases "pack_last x")
    case True
    then show ?thesis
      by (simp add: pack_loop.simps [of m pos packed x] leb.simps [of x] store_pos [OF 1(2) n] fun_upd_def)
  next
    case False
    have "Suc packed + length (leb (x div 128)) \<le> 65536" using 1(3) False by (simp add: leb.simps [of x])
    from 1(1) [OF refl False 1(2) this] False show ?thesis
      by (simp add: pack_loop.simps [of m pos packed x] leb.simps [of x] store_pos [OF 1(2) n] fun_upd_def)
  qed
qed

lemma emits_int [wf_intros]: "emits (gator_buf_write_int x) (leb (sint x))"
  using leb_int_length [of x] by (simp add: emits_def gator_buf_write_int_def pack_loop_put)

lemma emits_long [wf_intros]: "emits (gator_buf_write_long x) (leb (sint x))"
  using leb_long_length [of x] by (simp add: emits_def gator_buf_write_long_def pack_loop_put)

lemma emits_time [wf_intros]: "emits (gator_buf_write_time t) (leb (sint t))"
  by (simp add: gator_buf_write_time_def emits_long)

lemma memcpy_put: "p + length bs \<le> 65536 \<Longrightarrow> memcpy p bs m = put m p bs"
  by (induction p bs m rule: memcpy.induct) auto

lemma put_wrap: "put m (65536 + p) bs = put m p bs"
proof (induction bs arbitrary: m p)
  case (Cons b bs)
  from Cons [of "m(p mod 65536 := b)" "Suc p"] show ?case by (simp add: fun_upd_def)
qed simp

lemma emits_bytes [wf_intros]:
  assumes "length data \<le> 65536"
  shows "emits (gator_buf_write_bytes data) data"
proof -
  have l: "unat (of_nat (length data) :: u32) = length data" using assms by (simp add: unat_of_nat)
  have "(if unat (pos + of_nat (length data)) \<le> 65536 then memcpy (unat pos) data m
      else memcpy 0 (drop (65536 - unat pos) data) (memcpy (unat pos) (take (65536 - unat pos) data) m))
      = put m (unat pos) data" if p: "unat pos < 65536" for pos :: u32 and m
  proof -
    have u: "unat (pos + of_nat (length data)) = unat pos + length data"
      using assms p by (intro unat_add_small) simp
    show ?thesis
    proof (cases "unat pos + length data \<le> 65536")
      case True
      then show ?thesis by (simp add: u memcpy_put)
    next
      case False
      let ?f = "65536 - unat pos"
      have "put m (unat pos) data = put (put m (unat pos) (take ?f data)) (unat pos + length (take ?f data)) (drop ?f data)"
        by (metis append_take_drop_id put_append)
      moreover have "unat pos + length (take ?f data) = 65536 + 0" using False p by simp
      ultimately show ?thesis
        using False p assms put_wrap [of _ 0] by (simp add: u memcpy_put)
    qed
  qed
  then show ?thesis
    using assms by (simp add: emits_def gator_buf_write_bytes_def THREAD_BUFFER_SIZE_def Let_def l
        split del: if_split cong: if_cong)
qed

text \<open>
  C32: packed integers can be read back. Whatever 32-bit or 64-bit value the writer packs, it puts at
  most \<open>MAXSIZE_PACK_INT\<close> (5) or \<open>MAXSIZE_PACK_LONG\<close> (10) bytes at the write position, in order and
  around the end of the buffer, and decoding those bytes as signed LEB128 yields the value and
  leaves what follows untouched.
\<close>

theorem packed_int_roundtrip:
  "emits (gator_buf_write_int x) (leb (sint x)) \<and> length (leb (sint x)) \<le> 5
     \<and> unleb (leb (sint x) @ r) = Some (sint x, r)
   \<and> emits (gator_buf_write_long y) (leb (sint y)) \<and> length (leb (sint y)) \<le> 10
     \<and> unleb (leb (sint y) @ r) = Some (sint y, r)"
  by (simp add: emits_int emits_long leb_int_length leb_long_length unleb_leb)

end
