(* ===== verification/Annotate_Queue.thy ===== *)
theory Annotate_Queue
  imports Annotate_Buffer
begin

text \<open>
  The ring buffer as a queue of bytes: the contract of a bounded byte queue as a locale, what a
  writer and a sender that follow it can conclude (nothing is lost, duplicated or reordered), and
  the ring buffer of a thread as its interpretation.
\<close>

section \<open>The contract of a byte queue\<close>

locale byte_queue =
  fixes pending :: "'q \<Rightarrow> byte list"
    and room :: "'q \<Rightarrow> nat"
    and enqueue :: "byte list \<Rightarrow> 'q \<Rightarrow> 'q"
    and dequeue :: "nat \<Rightarrow> 'q \<Rightarrow> 'q"
    and inv :: "'q \<Rightarrow> bool"
    and capacity :: nat
  assumes room_pending: "inv q \<Longrightarrow> length (pending q) + room q = capacity"
    and inv_enqueue: "inv q \<Longrightarrow> length bs \<le> room q \<Longrightarrow> inv (enqueue bs q)"
    and pending_enqueue: "inv q \<Longrightarrow> length bs \<le> room q \<Longrightarrow> pending (enqueue bs q) = pending q @ bs"
    and inv_dequeue: "inv q \<Longrightarrow> n \<le> length (pending q) \<Longrightarrow> inv (dequeue n q)"
    and pending_dequeue: "inv q \<Longrightarrow> n \<le> length (pending q) \<Longrightarrow> pending (dequeue n q) = drop n (pending q)"
begin

text \<open>
  A run of a writer that waits for room and a sender that sends at most what is there. The log
  holds what was written and what was sent.
\<close>

inductive transfer :: "'q \<Rightarrow> byte list \<Rightarrow> byte list \<Rightarrow> bool" where
  transfer_start: "inv q \<Longrightarrow> pending q = [] \<Longrightarrow> transfer q [] []"
| transfer_write: "transfer q written sent \<Longrightarrow> length bs \<le> room q \<Longrightarrow>
    transfer (enqueue bs q) (written @ bs) sent"
| transfer_send: "transfer q written sent \<Longrightarrow> n \<le> length (pending q) \<Longrightarrow>
    transfer (dequeue n q) written (sent @ take n (pending q))"

lemma transfer_inv: "transfer q written sent \<Longrightarrow> inv q"
  by (induction rule: transfer.induct) (auto intro: inv_enqueue inv_dequeue)

lemma transfer_stream: "transfer q written sent \<Longrightarrow> sent @ pending q = written"
proof (induction rule: transfer.induct)
  case (transfer_write q written sent bs)
  then show ?case by (simp add: pending_enqueue transfer_inv flip: append_assoc)
next
  case (transfer_send q written sent n)
  then show ?case by (simp add: pending_dequeue transfer_inv)
qed simp

end

section \<open>The ring buffer\<close>

definition thread_wf :: "gator_thread \<Rightarrow> bool" where
  "thread_wf th \<longleftrightarrow> unat (write_pos th) < 65536 \<and> unat (read_pos th) < 65536"

definition used :: "gator_thread \<Rightarrow> nat" where
  "used th = nat ((int (unat (write_pos th)) - int (unat (read_pos th))) mod 65536)"

definition ring :: "buffer \<Rightarrow> nat \<Rightarrow> nat \<Rightarrow> byte list" where
  "ring m p n = map (\<lambda>k. m ((p + k) mod 65536)) [0..<n]"

definition pending :: "gator_thread \<Rightarrow> byte list" where
  "pending th = ring (buf th) (unat (read_pos th)) (used th)"

definition enqueue :: "byte list \<Rightarrow> gator_thread \<Rightarrow> gator_thread" where
  "enqueue bs th = th\<lparr>buf := put (buf th) (unat (write_pos th)) bs,
     write_pos := gator_buf_pos (write_pos th + of_nat (length bs))\<rparr>"

definition dequeue :: "nat \<Rightarrow> gator_thread \<Rightarrow> gator_thread" where
  "dequeue n th = th\<lparr>read_pos := gator_buf_pos (read_pos th + of_nat n)\<rparr>"

lemma length_ring [simp]: "length (ring m p n) = n"
  by (simp add: ring_def)

lemma length_pending [simp]: "length (pending th) = used th"
  by (simp add: pending_def)

lemma used_less: "used th < 65536"
  by (simp add: used_def nat_less_iff)

lemma masked_difference:
  "int (unat ((a - b) AND THREAD_BUFFER_MASK :: u32)) = (int (unat a) - int (unat b)) mod 65536"
proof -
  have "uint (a - b) = (uint a - uint b) mod 2 ^ 32"
    using uint_word_ariths(2) [of a b] by simp
  moreover have "((uint a - uint b) mod 2 ^ 32) mod 65536 = (uint a - uint b) mod 65536"
    by (rule mod_mod_cancel) simp
  moreover have "unat ((a - b) AND THREAD_BUFFER_MASK) = unat (a - b) mod 65536"
    using unat_gator_buf_pos [of "a - b"] by (simp add: gator_buf_pos_def)
  ultimately show ?thesis by (simp add: of_nat_mod)
qed

lemma gator_buf_used_eq: "unat (gator_buf_used th) = used th"
proof -
  have "int (unat (gator_buf_used th)) = int (used th)"
    unfolding gator_buf_used_def masked_difference by (simp add: used_def)
  then show ?thesis by (simp only: of_nat_eq_iff)
qed

lemma mod_complement: "(r - (w + 1)) mod 65536 = 65535 - (w - r) mod (65536 :: int)"
proof -
  have "r - (w + 1) = 65535 - (w - r) mod 65536 + (- 1 - (w - r) div 65536) * 65536"
    using mod_mult_div_eq [of "w - r" 65536] by (simp add: algebra_simps)
  then have "(r - (w + 1)) mod 65536 = (65535 - (w - r) mod 65536) mod 65536"
    by (metis mod_mult_self1)
  also have "\<dots> = 65535 - (w - r) mod 65536"
  proof (rule mod_pos_pos_trivial)
    show "0 \<le> 65535 - (w - r) mod 65536" using pos_mod_bound [of 65536 "w - r"] by simp
    show "65535 - (w - r) mod 65536 < 65536" using pos_mod_sign [of 65536 "w - r"] by simp
  qed
  finally show ?thesis .
qed

lemma gator_buf_free_eq:
  assumes "thread_wf th"
  shows "unat (gator_buf_free th) = 65535 - used th"
proof -
  let ?r = "int (unat (read_pos th))" and ?w = "int (unat (write_pos th))"
  have "read_pos th - write_pos th - 1 = read_pos th - (write_pos th + 1)" by simp
  then have "int (unat (gator_buf_free th)) = (?r - int (unat (write_pos th + 1))) mod 65536"
    unfolding gator_buf_free_def by (metis masked_difference)
  also have "unat (write_pos th + 1) = unat (write_pos th) + 1"
    using unat_add_small [of "write_pos th" 1] assms by (simp add: thread_wf_def)
  also have "(?r - int (unat (write_pos th) + 1)) mod 65536 = 65535 - (?w - ?r) mod 65536"
    by (simp only: of_nat_add of_nat_1 mod_complement)
  finally have "int (unat (gator_buf_free th)) = int (65535 - used th)"
    using used_less [of th] by (simp add: used_def)
  then show ?thesis by (simp only: of_nat_eq_iff)
qed

lemma mod_ring:
  fixes p k :: nat
  assumes "k < 65536"
  shows "(p + k) mod 65536 = (if p mod 65536 + k < 65536 then p mod 65536 + k else p mod 65536 + k - 65536)"
proof -
  have "(p + k) mod 65536 = (p mod 65536 + k) mod 65536" by (simp add: mod_add_left_eq)
  moreover have "(p mod 65536 + k) mod 65536 = p mod 65536 + k - 65536" if "65536 \<le> p mod 65536 + k"
  proof -
    have "p mod 65536 < 65536" by simp
    then have "p mod 65536 + k - 65536 < 65536" using assms by linarith
    then show ?thesis using le_mod_geq [OF that] by (simp only: mod_less)
  qed
  ultimately show ?thesis by (simp add: not_less)
qed

lemma mod_ring_inj:
  fixes p i j :: nat
  assumes "i < 65536" and "j < 65536" and "(p + i) mod 65536 = (p + j) mod 65536"
  shows "i = j"
proof -
  have "p mod 65536 < 65536" by simp
  then show ?thesis using assms unfolding mod_ring [OF assms(1)] mod_ring [OF assms(2)]
    by (auto split: if_splits)
qed

lemma put_other: "length bs \<le> n \<Longrightarrow> n \<le> 65536 \<Longrightarrow> n \<le> k \<Longrightarrow> k < 65536 \<Longrightarrow>
    put m p bs ((p + k) mod 65536) = m ((p + k) mod 65536)"
proof (induction bs arbitrary: m p n k)
  case (Cons b bs)
  have "(p + k) mod 65536 = (Suc p + (k - 1)) mod 65536" using Cons.prems by simp
  moreover have "put (m(p mod 65536 := b)) (Suc p) bs ((Suc p + (k - 1)) mod 65536)
      = (m(p mod 65536 := b)) ((Suc p + (k - 1)) mod 65536)"
    using Cons.prems by (intro Cons.IH [of "n - 1"]) auto
  moreover have "(p + k) mod 65536 \<noteq> p mod 65536"
    using mod_ring_inj [of k 0 p] Cons.prems by auto
  ultimately show ?case by simp
qed simp

section \<open>Reading back\<close>

lemma ring_mod [simp]: "ring m (p mod 65536) n = ring m p n"
  by (simp add: ring_def mod_add_left_eq)

lemma ring_add: "ring m p (a + b) = ring m p a @ ring m (p + a) b"
proof -
  have "[0..<a + b] = [0..<a] @ map (\<lambda>i. i + a) [0..<b]"
    unfolding map_add_upt using upt_add_eq_append [of 0 a b] by (simp only: add.commute)
  then show ?thesis by (simp add: ring_def ac_simps comp_def)
qed

lemma drop_ring: "n \<le> k \<Longrightarrow> drop n (ring m p k) = ring m (p + n) (k - n)"
  using ring_add [of m p n "k - n"] by simp

lemma take_ring: "n \<le> k \<Longrightarrow> take n (ring m p k) = ring m p n"
  using ring_add [of m p n "k - n"] by simp

lemma ring_Suc: "ring m p (Suc n) = m (p mod 65536) # ring m (Suc p) n"
  using ring_add [of m p 1 n] by (simp add: ring_def)

lemma ring_put: "length bs \<le> 65536 \<Longrightarrow> ring (put m p bs) p (length bs) = bs"
proof (induction bs arbitrary: m p)
  case (Cons b bs)
  let ?m = "m(p mod 65536 := b)"
  have "put ?m (Suc p) bs (p mod 65536) = ?m (p mod 65536)"
    using put_other [of bs 65535 65535 ?m "Suc p"] Cons.prems by simp
  moreover have "ring (put ?m (Suc p) bs) (Suc p) (length bs) = bs" using Cons.prems by (intro Cons.IH) simp
  ultimately show ?case by (simp add: ring_Suc del: fun_upd_apply) simp
qed (simp add: ring_def)

lemma ring_put_before:
  assumes "q mod 65536 = (p + n) mod 65536" and "n + length bs \<le> 65536"
  shows "ring (put m q bs) p n = ring m p n"
proof -
  have "put m q bs ((p + i) mod 65536) = m ((p + i) mod 65536)" if "i < n" for i
  proof -
    have "(q + (65536 - n + i)) mod 65536 = (p + n + (65536 - n + i)) mod 65536"
      using assms(1) by (metis mod_add_cong)
    also have "p + n + (65536 - n + i) = p + i + 65536" using that assms(2) by simp
    finally have "(q + (65536 - n + i)) mod 65536 = (p + i) mod 65536" by simp
    moreover have "put m q bs ((q + (65536 - n + i)) mod 65536) = m ((q + (65536 - n + i)) mod 65536)"
      using that assms(2) by (intro put_other [of bs "65536 - n"]) auto
    ultimately show ?thesis by simp
  qed
  then show ?thesis by (simp add: ring_def)
qed

section \<open>The positions of a queue\<close>

lemma write_pos_used:
  assumes "thread_wf th"
  shows "unat (write_pos th) mod 65536 = (unat (read_pos th) + used th) mod 65536"
proof -
  have "int (unat (read_pos th) + used th) mod 65536
      = (int (unat (read_pos th)) + (int (unat (write_pos th)) - int (unat (read_pos th)))) mod 65536"
    by (simp add: used_def mod_add_right_eq)
  then have "int ((unat (read_pos th) + used th) mod 65536) = int (unat (write_pos th) mod 65536)"
    by (simp add: of_nat_mod)
  then show ?thesis by (simp only: of_nat_eq_iff)
qed

lemma used_unique:
  assumes "thread_wf th" and "n < 65536"
    and "unat (write_pos th) mod 65536 = (unat (read_pos th) + n) mod 65536"
  shows "used th = n"
  using mod_ring_inj [of "used th" n "unat (read_pos th)"] write_pos_used [OF assms(1)] used_less [of th] assms
  by simp

lemma thread_wf_enqueue [wf_intros]: "thread_wf th \<Longrightarrow> thread_wf (enqueue bs th)"
  by (simp add: thread_wf_def enqueue_def unat_gator_buf_pos)

lemma thread_wf_dequeue [wf_intros]: "thread_wf th \<Longrightarrow> thread_wf (dequeue n th)"
  by (simp add: thread_wf_def dequeue_def unat_gator_buf_pos)

lemma used_enqueue:
  assumes "thread_wf th" and "used th + length bs < 65536"
  shows "used (enqueue bs th) = used th + length bs"
proof (rule used_unique)
  have "unat (write_pos (enqueue bs th)) = (unat (write_pos th) + length bs) mod 65536"
    using assms by (simp add: enqueue_def gator_buf_pos_add thread_wf_def)
  also have "\<dots> = (unat (write_pos th) mod 65536 + length bs) mod 65536" by (simp only: mod_add_left_eq)
  also have "\<dots> = (unat (read_pos th) + (used th + length bs)) mod 65536"
    by (simp only: write_pos_used [OF assms(1)] mod_add_left_eq add.assoc)
  finally show "unat (write_pos (enqueue bs th)) mod 65536
      = (unat (read_pos (enqueue bs th)) + (used th + length bs)) mod 65536"
    by (simp add: enqueue_def)
qed (use assms in \<open>auto intro: thread_wf_enqueue\<close>)

lemma used_dequeue:
  assumes "thread_wf th" and "n \<le> used th"
  shows "used (dequeue n th) = used th - n"
proof (rule used_unique)
  have n: "n < 65536" using assms(2) used_less [of th] by simp
  have "unat (read_pos (dequeue n th)) = (unat (read_pos th) + n) mod 65536"
    using assms n by (simp add: dequeue_def gator_buf_pos_add thread_wf_def)
  then have "(unat (read_pos (dequeue n th)) + (used th - n)) mod 65536
      = (unat (read_pos th) + n + (used th - n)) mod 65536" by (simp add: mod_add_left_eq)
  then show "unat (write_pos (dequeue n th)) mod 65536
      = (unat (read_pos (dequeue n th)) + (used th - n)) mod 65536"
    using assms write_pos_used [OF assms(1)] by (simp add: dequeue_def)
qed (use assms used_less [of th] in \<open>auto intro: thread_wf_dequeue\<close>)

lemma pending_enqueue:
  assumes "thread_wf th" and "used th + length bs < 65536"
  shows "pending (enqueue bs th) = pending th @ bs"
proof -
  let ?m = "put (buf th) (unat (write_pos th)) bs" and ?r = "unat (read_pos th)"
  have "ring ?m (?r + used th) (length bs) = ring ?m (unat (write_pos th)) (length bs)"
    using write_pos_used [OF assms(1)] by (metis ring_mod)
  then have "ring ?m (?r + used th) (length bs) = bs" using assms by (simp add: ring_put)
  moreover have "ring ?m ?r (used th) = ring (buf th) ?r (used th)"
    using write_pos_used [OF assms(1)] assms(2) by (intro ring_put_before) auto
  ultimately show ?thesis
    unfolding pending_def used_enqueue [OF assms] ring_add by (simp add: enqueue_def)
qed

lemma pending_dequeue:
  assumes "thread_wf th" and "n \<le> used th"
  shows "pending (dequeue n th) = drop n (pending th)"
proof -
  have "unat (read_pos (dequeue n th)) = (unat (read_pos th) + n) mod 65536"
    using assms used_less [of th] by (simp add: dequeue_def gator_buf_pos_add thread_wf_def)
  then show ?thesis
    unfolding pending_def used_dequeue [OF assms] using assms(2)
    by (simp add: drop_ring) (simp add: dequeue_def)
qed

interpretation ringq: byte_queue pending "\<lambda>th. unat (gator_buf_free th)" enqueue dequeue thread_wf 65535
proof unfold_locales
  show "length (pending th) + unat (gator_buf_free th) = 65535" if "thread_wf th" for th
    using used_less [of th] by (simp add: gator_buf_free_eq [OF that])
  fix bs :: "byte list" and th assume th: "thread_wf th" and bs: "length bs \<le> unat (gator_buf_free th)"
  show "thread_wf (enqueue bs th)" using th by (rule thread_wf_enqueue)
  show "pending (enqueue bs th) = pending th @ bs"
    using th bs used_less [of th] by (intro pending_enqueue) (auto simp: gator_buf_free_eq)
qed (auto intro: thread_wf_dequeue pending_dequeue)

end
