(* ===== verification/Annotate_Sender.thy ===== *)
theory Annotate_Sender
  imports Annotate_Queue
begin

text \<open>
  The state that \<open>streamline_annotate.cpp\<close> keeps for the process and the thread that sends the
  buffers to the Streamline daemon: connecting, sending a buffer around its end, starting and
  stopping a capture, one turn of the loop of \<open>gator_func\<close>, set-up, fork and thread exit.
\<close>

section \<open>State\<close>

text \<open>A C string is \<open>None\<close> for \<open>NULL\<close>, otherwise its characters without the final NUL.\<close>

type_synonym cstring = "byte list option"

datatype gator_annotate_counter_class = ANNOTATE_DELTA | ANNOTATE_ABSOLUTE | ANNOTATE_ACTIVITY

datatype gator_annotate_display =
  ANNOTATE_AVERAGE | ANNOTATE_ACCUMULATE | ANNOTATE_HERTZ | ANNOTATE_MAXIMUM | ANNOTATE_MINIMUM

datatype gator_annotate_series_composition = ANNOTATE_STACKED | ANNOTATE_OVERLAY | ANNOTATE_LOG10

datatype gator_annotate_rendering_type = ANNOTATE_FILL | ANNOTATE_LINE | ANNOTATE_BAR

record gator_counter =
  title :: cstring
  cname :: cstring
  units :: cstring
  description :: cstring
  activities :: "cstring list"
  activity_colors :: "u32 list"
  per_cpu :: i32
  average_selection :: i32
  average_cores :: i32
  percentage :: i32
  counter_class :: gator_annotate_counter_class
  display :: gator_annotate_display
  series_composition :: gator_annotate_series_composition
  rendering_type :: gator_annotate_rendering_type
  cid :: u32
  modifier :: u32
  cores :: u32
  color :: u32

record gator_cam_track =
  track_name :: cstring
  track_view_uid :: u32
  track_uid :: u32
  parent_track :: u32

record gator_cam_name =
  view_name :: cstring
  name_view_uid :: u32

text \<open>
  The kernel's side. What a system call answers is taken from a tape, one entry per call, and an
  error once the tape is used up, so a statement for every tape is a statement for every behaviour
  of the kernel. \<open>wire\<close> collects what the kernel accepted on each descriptor and \<open>shut\<close> the
  descriptors that were closed.
\<close>

record kernel =
  socket_tape :: "int list"
  connect_tape :: "int list"
  send_tape :: "int list"
  read_tape :: "int list"
  clock_tape :: "u64 list"
  cas_tape :: "bool list"
  wire :: "int \<Rightarrow> byte list"
  shut :: "int list"

text \<open>
  \<open>key\<close> is the thread-specific pointer of each application thread, \<open>threads\<close> the linked list
  with the addresses of its elements and \<open>heap_top\<close> the next address that \<open>malloc\<close> returns.
  \<open>senders\<close> counts the running threads with \<open>gator_func\<close> and \<open>sender_last\<close> is the variable
  \<open>last\<close> of that function.
\<close>

record gator_state =
  threads :: "(nat \<times> gator_thread) list"
  counters :: "gator_counter list"
  cam_tracks :: "gator_cam_track list"
  cam_names :: "gator_cam_name list"
  sender_sem :: nat
  sync_sem :: nat
  sync_waiter_sem :: nat
  key :: "nat \<Rightarrow> nat option"
  parent_fd :: int
  initialized :: bool
  capturing :: bool
  forked :: bool
  resend_state :: bool
  heap_top :: nat
  senders :: nat
  sender_last :: u64
  pid :: u32
  gator_dont_mangle_keys :: byte
  kernel_of :: kernel

definition thread_at :: "gator_state \<Rightarrow> nat \<Rightarrow> gator_thread option" where
  "thread_at gs a = map_of (threads gs) a"

definition set_thread :: "nat \<Rightarrow> gator_thread \<Rightarrow> gator_state \<Rightarrow> gator_state" where
  "set_thread a th gs = gs\<lparr>threads := map (\<lambda>(b, t). (b, if b = a then th else t)) (threads gs)\<rparr>"

section \<open>System calls\<close>

definition tape_head :: "'a \<Rightarrow> 'a list \<Rightarrow> 'a" where
  "tape_head d xs = (case xs of [] \<Rightarrow> d | x # _ \<Rightarrow> x)"

definition sys_close :: "int \<Rightarrow> kernel \<Rightarrow> kernel" where
  "sys_close f k = k\<lparr>shut := shut k @ [f]\<rparr>"

text \<open>
  \<open>send\<close> fails, or accepts a non-empty prefix of the data; of no data it accepts none. What it
  returns is the number of bytes accepted.
\<close>

definition sys_send :: "int \<Rightarrow> byte list \<Rightarrow> kernel \<Rightarrow> int \<times> kernel" where
  "sys_send f data k =
     (let r = tape_head (- 1) (send_tape k); k' = k\<lparr>send_tape := tl (send_tape k)\<rparr> in
      if r \<le> 0 then (r, k')
      else (let n = min r (int (length data)) in
        (n, k'\<lparr>wire := (wire k')(f := wire k' f @ take (nat n) data)\<rparr>)))"

definition gator_socket_cloexec :: "kernel \<Rightarrow> int \<times> kernel" where
  "gator_socket_cloexec k = (tape_head (- 1) (socket_tape k), k\<lparr>socket_tape := tl (socket_tape k)\<rparr>)"

definition sys_connect :: "kernel \<Rightarrow> int \<times> kernel" where
  "sys_connect k = (tape_head (- 1) (connect_tape k), k\<lparr>connect_tape := tl (connect_tape k)\<rparr>)"

definition sys_read :: "kernel \<Rightarrow> int \<times> kernel" where
  "sys_read k = (tape_head (- 1) (read_tape k), k\<lparr>read_tape := tl (read_tape k)\<rparr>)"

section \<open>Time\<close>

definition NS_PER_S :: u64 where
  "NS_PER_S = 1000000000"

text \<open>\<open>struct timespec\<close>, the seconds and the nanoseconds.\<close>

definition gator_set_ts :: "u64 \<Rightarrow> u64 \<times> u64" where
  "gator_set_ts t = (t div NS_PER_S, t mod NS_PER_S)"

text \<open>The argument is what \<open>clock_gettime\<close> gives, \<open>None\<close> when it fails.\<close>

definition gator_time :: "(u64 \<times> u64) option \<Rightarrow> u64" where
  "gator_time ts = (case ts of None \<Rightarrow> - 1 | Some (sec, nsec) \<Rightarrow> NS_PER_S * sec + nsec)"

definition gator_get_time :: "(u64 \<times> u64) option \<Rightarrow> u64" where
  "gator_get_time raw = gator_time raw"

section \<open>Connecting\<close>

definition gator_annotate_handshake :: "byte list" where
  "gator_annotate_handshake = map (\<lambda>c. of_nat (of_char c)) ''ANNOTATE 4'' @ [10]"

text \<open>The writers applied one after the other, adding up the number of bytes written.\<close>

fun write_fields :: "writer list \<Rightarrow> u32 \<times> buffer \<times> u32 \<Rightarrow> u32 \<times> buffer \<times> u32" where
  "write_fields [] (len, m, pos) = (len, m, pos)"
| "write_fields (w # ws) (len, m, pos) =
     (case w (m, pos) of (n, m', pos') \<Rightarrow> write_fields ws (len + n, m', pos'))"

definition gator_parent_connect :: "gator_state \<Rightarrow> bool \<times> gator_state" where
  "gator_parent_connect gs = (case gator_socket_cloexec (kernel_of gs) of (f, k) \<Rightarrow>
     if f < 0 then (False, gs\<lparr>kernel_of := k\<rparr>)
     else case sys_connect k of (r, k) \<Rightarrow>
       if r \<noteq> 0 then (False, gs\<lparr>kernel_of := sys_close f k\<rparr>)
       else (True, gs\<lparr>parent_fd := f, kernel_of := k\<rparr>))"

definition gator_connect :: "i32 \<Rightarrow> u32 \<Rightarrow> byte \<Rightarrow> kernel \<Rightarrow> int \<times> kernel" where
  "gator_connect t p mangle k = (case gator_socket_cloexec k of (f, k) \<Rightarrow>
     if f < 0 then (- 1, k)
     else case sys_connect k of (r, k) \<Rightarrow>
       if r \<noteq> 0 then (- 1, sys_close f k)
       else case write_fields [gator_buf_write_bytes gator_annotate_handshake, gator_buf_write_uint32 t,
           gator_buf_write_uint32 p, gator_buf_write_byte mangle] (0, \<lambda>_. 0, 0) of (_, m, pos) \<Rightarrow>
         case sys_send f (map m [0..<unat pos]) k of (bytes, k) \<Rightarrow>
           if bytes \<noteq> int (unat pos) then (- 1, sys_close f k) else (f, k))"

section \<open>Starting and stopping a capture\<close>

definition gator_start_capturing :: "gator_state \<Rightarrow> gator_state" where
  "gator_start_capturing gs = (if capturing gs then gs else gs\<lparr>capturing := True, resend_state := True\<rparr>)"

definition stop_thread :: "gator_thread \<Rightarrow> gator_thread" where
  "stop_thread th = th\<lparr>read_pos := write_pos th, oob_length := 0, sem := Suc (sem th),
     fd := if 0 < fd th then - 1 else fd th\<rparr>"

fun close_all :: "gator_thread list \<Rightarrow> kernel \<Rightarrow> kernel" where
  "close_all [] k = k"
| "close_all (th # ths) k = close_all ths (if 0 < fd th then sys_close (fd th) k else k)"

definition gator_stop_capturing :: "gator_state \<Rightarrow> gator_state" where
  "gator_stop_capturing gs = (if capturing gs
     then gs\<lparr>capturing := False, threads := map (\<lambda>(a, th). (a, stop_thread th)) (threads gs),
       kernel_of := close_all (map snd (threads gs)) (kernel_of gs)\<rparr>
     else gs)"

section \<open>Sending a buffer\<close>

text \<open>\<open>send(thread->fd, thread->buf + thread->read_pos, write)\<close> and the move of the read position.\<close>

definition send_ring :: "gator_thread \<Rightarrow> nat \<Rightarrow> kernel \<Rightarrow> int \<times> gator_thread \<times> kernel" where
  "send_ring th n k = (case sys_send (fd th) (map (buf th) [unat (read_pos th)..<unat (read_pos th) + n]) k of
     (bytes, k') \<Rightarrow> if bytes \<le> 0 then (bytes, th, k')
       else (bytes, th\<lparr>read_pos := gator_buf_pos (read_pos th + word_of_int bytes)\<rparr>, k'))"

definition send_oob :: "nat \<Rightarrow> int \<Rightarrow> gator_thread \<Rightarrow> kernel \<Rightarrow> bool \<times> gator_thread \<times> kernel" where
  "send_oob n bytes th k =
     (if int n = bytes \<and> 0 < oob_length th
      then case sys_send (fd th) (take (oob_length th) (oob_data th)) k of (b, k') \<Rightarrow>
        if b \<le> 0 then (False, th, k')
        else (True, th\<lparr>oob_data := drop (nat b) (oob_data th), oob_length := oob_length th - nat b\<rparr>, k')
      else (True, th, k))"

definition gator_send :: "gator_thread \<Rightarrow> u32 \<Rightarrow> kernel \<Rightarrow> bool \<times> gator_thread \<times> kernel" where
  "gator_send th wp k =
     (if read_pos th < wp
      then (let n = unat (wp - read_pos th) in
        case send_ring th n k of (bytes, th, k) \<Rightarrow>
          if bytes \<le> 0 then (False, th, k) else send_oob n bytes th k)
      else (let n = THREAD_BUFFER_SIZE - unat (read_pos th) in
        case send_ring th n k of (bytes, th, k) \<Rightarrow>
          if bytes \<le> 0 then (False, th, k)
          else if int n = bytes
            then (let n = unat wp in
              case sys_send (fd th) (map (buf th) [0..<n]) k of (bytes, k) \<Rightarrow>
                if bytes \<le> 0 then (False, th, k)
                else send_oob n bytes (th\<lparr>read_pos := gator_buf_pos (read_pos th + word_of_int bytes)\<rparr>) k)
            else send_oob n bytes th k))"

section \<open>A turn of the sender\<close>

definition transmit_on :: "nat \<Rightarrow> gator_thread \<Rightarrow> gator_state \<Rightarrow> gator_state" where
  "transmit_on a th gs =
     (if write_pos th \<noteq> read_pos th \<or> 0 < oob_length th then
        case gator_send th (write_pos th) (kernel_of gs) of (ok, th, k) \<Rightarrow>
          let gs = set_thread a th (gs\<lparr>kernel_of := k\<rparr>) in
          if ok then set_thread a (th\<lparr>sem := Suc (sem th)\<rparr>) gs else gator_stop_capturing gs
      else gs)"

definition transmit :: "nat \<Rightarrow> gator_state \<Rightarrow> gator_state" where
  "transmit a gs = (case thread_at gs a of None \<Rightarrow> gs | Some th \<Rightarrow>
     case (if fd th < 0 then gator_connect (tid th) (pid gs) (gator_dont_mangle_keys gs) (kernel_of gs)
           else (fd th, kernel_of gs)) of (f, k) \<Rightarrow>
       let th = th\<lparr>fd := f\<rparr>; gs = set_thread a th (gs\<lparr>kernel_of := k\<rparr>) in
       if f < 0 then gator_stop_capturing gs else transmit_on a th gs)"

text \<open>An element that has exited leaves the list, unless the list changed at the same time.\<close>

definition reap :: "nat \<Rightarrow> gator_state \<Rightarrow> gator_state" where
  "reap a gs = (case thread_at gs a of None \<Rightarrow> gs | Some th \<Rightarrow>
     if \<not> exited th then gs
     else (let k = kernel_of gs; k' = k\<lparr>cas_tape := tl (cas_tape k)\<rparr> in
       if \<not> tape_head True (cas_tape k) then gs\<lparr>kernel_of := k'\<rparr>
       else gs\<lparr>threads := filter (\<lambda>(b, _). b \<noteq> a) (threads gs),
         kernel_of := if 0 < fd th then sys_close (fd th) k' else k'\<rparr>))"

definition serve :: "nat \<Rightarrow> gator_state \<Rightarrow> gator_state" where
  "serve a gs = reap a (if capturing gs then transmit a gs else gs)"

text \<open>The wait of at most 100 ms for a request; the posts are used up.\<close>

definition sender_wait :: "gator_state \<Rightarrow> gator_state" where
  "sender_wait gs =
     (let k = kernel_of gs; now = tape_head (- 1) (clock_tape k); wakeup = sender_last gs + NS_PER_S div 10;
        gs = gs\<lparr>kernel_of := k\<lparr>clock_tape := tl (clock_tape k)\<rparr>\<rparr> in
      if wakeup < now then gs\<lparr>sender_last := now\<rparr>
      else gs\<lparr>sender_last := wakeup, sender_sem := 0\<rparr>)"

definition sender_connect :: "gator_state \<Rightarrow> bool \<times> gator_state" where
  "sender_connect gs =
     (if parent_fd gs < 0
      then case gator_parent_connect gs of (ok, gs) \<Rightarrow>
        if ok then (True, gator_start_capturing gs) else (False, gator_stop_capturing gs)
      else (True, gs))"

definition sender_resume :: "gator_state \<Rightarrow> bool \<times> gator_state" where
  "sender_resume gs =
     (if \<not> capturing gs
      then case sys_read (kernel_of gs) of (bytes, k) \<Rightarrow>
        if bytes \<le> 0
        then (False, gs\<lparr>kernel_of := sys_close (parent_fd gs) k, parent_fd := - 1\<rparr>)
        else (True, (gator_start_capturing (gs\<lparr>kernel_of := k\<rparr>))\<lparr>resend_state := True\<rparr>)
      else (True, gs))"

definition gator_func_begin :: "bool \<Rightarrow> gator_state \<Rightarrow> gator_state" where
  "gator_func_begin arg gs = (if arg \<and> 0 \<le> parent_fd gs
     then gs\<lparr>kernel_of := sys_close (parent_fd gs) (kernel_of gs), parent_fd := - 1\<rparr>
     else gs)"

definition gator_func_turn :: "gator_state \<Rightarrow> gator_state" where
  "gator_func_turn gs = (case sender_connect gs of (ok, gs) \<Rightarrow>
     if \<not> ok then gs
     else case sender_resume gs of (ok, gs) \<Rightarrow>
       if \<not> ok then gs
       else (let gs = (if capturing gs then sender_wait gs else gs);
           sync_count = sync_sem gs;
           gs = fold serve (map fst (threads gs)) (gs\<lparr>sync_sem := 0\<rparr>) in
         gs\<lparr>sync_waiter_sem := sync_waiter_sem gs + sync_count\<rparr>))"

section \<open>Set-up, fork and exit\<close>

definition gator_destructor :: "nat option \<Rightarrow> gator_state \<Rightarrow> gator_state" where
  "gator_destructor value gs = (case value of None \<Rightarrow> gs | Some a \<Rightarrow>
     (case thread_at gs a of None \<Rightarrow> gs | Some th \<Rightarrow> set_thread a (th\<lparr>exited := True\<rparr>) gs))"

text \<open>The child has only the thread that called \<open>fork\<close>, here \<open>c\<close>, and no sender.\<close>

definition gator_annotate_fork_child :: "nat \<Rightarrow> gator_state \<Rightarrow> gator_state" where
  "gator_annotate_fork_child c gs = gs\<lparr>key := (key gs)(c := None),
     threads := map (\<lambda>(a, th). (a, th\<lparr>exited := True, read_pos := write_pos th\<rparr>)) (threads gs),
     forked := True, senders := 0\<rparr>"

text \<open>What the calls of \<open>gator_annotate_setup\<close> return, in their order.\<close>

record setup_results =
  sender_sem_init :: int
  sync_sem_init :: int
  sync_waiter_sem_init :: int
  key_create :: int
  atfork :: int
  atexit :: int
  create :: int

definition gator_annotate_setup :: "setup_results \<Rightarrow> gator_state \<Rightarrow> gator_state" where
  "gator_annotate_setup r gs =
     (if initialized gs then gs
      else (let gs = gs\<lparr>initialized := True, parent_fd := - 1, capturing := True\<rparr> in
        if sender_sem_init r \<noteq> 0 then gs
        else (let gs = gs\<lparr>sender_sem := 0\<rparr> in
        if sync_sem_init r \<noteq> 0 then gs
        else (let gs = gs\<lparr>sync_sem := 0\<rparr> in
        if sync_waiter_sem_init r \<noteq> 0 then gs
        else (let gs = gs\<lparr>sync_waiter_sem := 0\<rparr> in
        if key_create r \<noteq> 0 \<or> atfork r \<noteq> 0 \<or> atexit r \<noteq> 0 \<or> create r \<noteq> 0 then gs
        else gator_func_begin False (gs\<lparr>senders := Suc (senders gs)\<rparr>))))))"

section \<open>What is sent\<close>

lemma sys_send_wire:
  assumes "sys_send f data k = (b, k')"
  shows "wire k' = (wire k)(f := wire k f @ take (nat b) data)" and "nat b \<le> length data"
    and "shut k' = shut k"
  using assms by (auto simp: sys_send_def Let_def split: if_splits)

lemma sys_send_all:
  assumes "send_tape k = r # rs" and "int (length data) \<le> r" and "data \<noteq> []"
  shows "sys_send f data k
    = (int (length data), k\<lparr>send_tape := rs, wire := (wire k)(f := wire k f @ data)\<rparr>)"
proof -
  have "0 < r" using assms(2,3) by (cases data) auto
  then show ?thesis using assms by (simp add: sys_send_def tape_head_def Let_def min_absorb2)
qed

lemma sys_send_some:
  assumes "send_tape k = r # rs" and "0 < r" and "r \<le> int (length data)"
  shows "sys_send f data k
    = (r, k\<lparr>send_tape := rs, wire := (wire k)(f := wire k f @ take (nat r) data)\<rparr>)"
  using assms by (simp add: sys_send_def tape_head_def Let_def min_absorb1)

lemma sys_send_nothing:
  assumes "sys_send f [] k = (b, k')"
  shows "b \<le> 0"
  using assms by (auto simp: sys_send_def Let_def split: if_splits)

lemma ring_linear: "p + n \<le> 65536 \<Longrightarrow> map m [p..<p + n] = ring m p n"
proof -
  assume "p + n \<le> 65536"
  moreover have "[p..<p + n] = map (\<lambda>i. i + p) [0..<n]" by (simp add: map_add_upt add.commute)
  ultimately show ?thesis by (simp add: ring_def comp_def add.commute)
qed

lemma pending_linear:
  assumes "n \<le> used th" and "unat (read_pos th) + n \<le> 65536"
  shows "map (buf th) [unat (read_pos th)..<unat (read_pos th) + n] = take n (pending th)"
  using assms by (simp add: ring_linear pending_def take_ring)

lemma dequeue_word: "0 \<le> b \<Longrightarrow> th\<lparr>read_pos := gator_buf_pos (read_pos th + word_of_int b)\<rparr> = dequeue (nat b) th"
  by (simp add: dequeue_def)

lemma send_ring_spec:
  assumes "thread_wf th" and "n \<le> used th" and "unat (read_pos th) + n \<le> 65536"
    and "send_ring th n k = (b, th', k')"
  shows "nat b \<le> n" and "th' = (if b \<le> 0 then th else dequeue (nat b) th)"
    and "wire k' = (wire k)(fd th := wire k (fd th) @ take (nat b) (pending th))"
proof -
  obtain k1 where s: "sys_send (fd th) (take n (pending th)) k = (b, k1)" "k' = k1"
    "th' = (if b \<le> 0 then th else dequeue (nat b) th)"
    using assms(4) by (auto simp: send_ring_def pending_linear [OF assms(2,3)] dequeue_word
        split: prod.splits if_splits)
  have b: "nat b \<le> n" using sys_send_wire(2) [OF s(1)] by simp
  from b show "nat b \<le> n" .
  from s(3) show "th' = (if b \<le> 0 then th else dequeue (nat b) th)" .
  from sys_send_wire(1) [OF s(1)] s(2) b
  show "wire k' = (wire k)(fd th := wire k (fd th) @ take (nat b) (pending th))"
    by (simp add: min.absorb1)
qed

lemma send_ring_all:
  assumes "n \<le> used th" and "unat (read_pos th) + n \<le> 65536" and "0 < n"
    and "send_tape k = r # rs" and "int n \<le> r"
  shows "send_ring th n k = (int n, dequeue n th,
    k\<lparr>send_tape := rs, wire := (wire k)(fd th := wire k (fd th) @ take n (pending th))\<rparr>)"
proof -
  have "length (take n (pending th)) = n" using assms(1) by simp
  then have "sys_send (fd th) (take n (pending th)) k
      = (int n, k\<lparr>send_tape := rs, wire := (wire k)(fd th := wire k (fd th) @ take n (pending th))\<rparr>)"
    using sys_send_all [OF assms(4), of "take n (pending th)" "fd th"] assms(3,5) by (metis length_0_conv less_irrefl)
  then show ?thesis
    using assms(3) dequeue_word [of "int n" th] unfolding send_ring_def pending_linear [OF assms(1,2)] by simp
qed

text \<open>
  \<open>sent n j th k th' k'\<close>: the kernel accepted the first \<open>n\<close> bytes of the buffer of \<open>th\<close> and then the
  first \<open>j\<close> bytes of its image data, on the descriptor of the thread and on no other.
\<close>

definition sent :: "nat \<Rightarrow> nat \<Rightarrow> gator_thread \<Rightarrow> kernel \<Rightarrow> gator_thread \<Rightarrow> kernel \<Rightarrow> bool" where
  "sent n j th k th' k' \<longleftrightarrow> n \<le> used th \<and> j \<le> oob_length th \<and> (0 < j \<longrightarrow> n = used th)
     \<and> th' = (dequeue n th)\<lparr>oob_data := drop j (oob_data th), oob_length := oob_length th - j\<rparr>
     \<and> wire k' = (wire k)(fd th := wire k (fd th) @ take n (pending th) @ take j (oob_data th))"

lemma dequeue_0: "thread_wf th \<Longrightarrow> dequeue 0 th = th"
  by (simp add: dequeue_def thread_wf_def unat_gator_buf_pos word_unat_eq_iff)

lemma sent_none: "thread_wf th \<Longrightarrow> sent 0 0 th k th k"
  by (simp add: sent_def dequeue_0)

lemma sent_ring:
  "n \<le> used th \<Longrightarrow> wire k' = (wire k)(fd th := wire k (fd th) @ take n (pending th)) \<Longrightarrow>
     sent n 0 th k (dequeue n th) k'"
  by (simp add: sent_def dequeue_def)

lemma send_oob_spec:
  assumes s: "sent n 0 th k th1 k1" and "n' = b \<Longrightarrow> n = used th"
    and "send_oob n' (int b) th1 k1 = (ok, th', k')"
  obtains j where "sent n j th k th' k'"
proof (cases "n' = b \<and> 0 < oob_length th1")
  case False
  then have "th' = th1" "k' = k1" using assms(3) by (auto simp: send_oob_def split: if_splits)
  then show ?thesis using s that by blast
next
  case True
  then obtain c k2 where c: "sys_send (fd th1) (take (oob_length th1) (oob_data th1)) k1 = (c, k2)"
    "k' = k2" "th' = (if c \<le> 0 then th1
      else th1\<lparr>oob_data := drop (nat c) (oob_data th1), oob_length := oob_length th1 - nat c\<rparr>)"
    using assms(3) by (auto simp: send_oob_def split: prod.splits if_splits)
  have n: "n = used th" and th1: "th1 = dequeue n th"
    and k1: "wire k1 = (wire k)(fd th := wire k (fd th) @ pending th)"
    using s True assms(2) by (auto simp: sent_def dequeue_def)
  have j: "nat c \<le> oob_length th" using sys_send_wire(2) [OF c(1)] th1 by (simp add: dequeue_def)
  have "wire k' = (wire k)(fd th := wire k (fd th) @ pending th @ take (nat c) (oob_data th))"
    using sys_send_wire(1) [OF c(1)] c(2) j k1 th1 by (simp add: dequeue_def min.absorb1)
  moreover have "th' = (dequeue n th)\<lparr>oob_data := drop (nat c) (oob_data th), oob_length := oob_length th - nat c\<rparr>"
    using c(3) th1 by (simp add: dequeue_def)
  ultimately have "sent n (nat c) th k th' k'" using n j by (simp add: sent_def)
  then show ?thesis by (rule that)
qed

lemma used_cases:
  assumes "thread_wf th"
  shows "used th = (if unat (read_pos th) \<le> unat (write_pos th) then unat (write_pos th) - unat (read_pos th)
    else 65536 - unat (read_pos th) + unat (write_pos th))"
  using assms by (intro used_unique) (auto simp: thread_wf_def)

lemma dequeue_dequeue:
  assumes "thread_wf th" and "n + m \<le> 65536"
  shows "dequeue m (dequeue n th) = dequeue (n + m) th"
proof -
  let ?p = "gator_buf_pos (read_pos th + of_nat n)"
  have "unat (gator_buf_pos (?p + of_nat m)) = (unat ?p + m) mod 65536"
    using assms by (intro gator_buf_pos_add) (simp_all add: unat_gator_buf_pos)
  also have "\<dots> = unat (gator_buf_pos (read_pos th + of_nat (n + m)))"
    using assms by (simp only: gator_buf_pos_add thread_wf_def mod_add_left_eq add.assoc)
  finally show ?thesis by (simp add: dequeue_def word_unat_eq_iff)
qed

lemma sent_trans:
  assumes "thread_wf th" and "sent n 0 th k th1 k1" and "sent m 0 th1 k1 th2 k2"
  shows "sent (n + m) 0 th k th2 k2"
proof -
  have n: "n \<le> used th" and th1: "th1 = dequeue n th" using assms(2) by (auto simp: sent_def dequeue_def)
  then have m: "m \<le> used th - n" and th2: "th2 = dequeue m th1"
    using assms(3) used_dequeue [OF assms(1) n] by (auto simp: sent_def dequeue_def)
  have "th2 = dequeue (n + m) th"
    unfolding th2 th1 using assms(1) n m used_less [of th] by (intro dequeue_dequeue) auto
  moreover have "take (n + m) (pending th) = take n (pending th) @ take m (pending th1)"
    unfolding th1 pending_dequeue [OF assms(1) n] by (rule take_add)
  moreover have "fd th1 = fd th" by (simp add: th1 dequeue_def)
  ultimately show ?thesis
    using assms(2,3) n m unfolding sent_def by (auto simp: dequeue_def)
qed

lemma send_ring_sent:
  assumes "thread_wf th" and "n \<le> used th" and "unat (read_pos th) + n \<le> 65536"
    and "send_ring th n k = (b, th', k')"
  shows "sent (nat b) 0 th k th' k'"
proof -
  have "th' = dequeue (nat b) th" "nat b \<le> used th"
    using send_ring_spec(1,2) [OF assms] assms(1,2) by (auto simp: dequeue_0)
  then show ?thesis using send_ring_spec(3) [OF assms] by (simp add: sent_ring)
qed

lemma gator_send_forward:
  assumes "thread_wf th" and "read_pos th < write_pos th"
    and "gator_send th (write_pos th) k = (ok, th', k')"
  obtains n j where "sent n j th k th' k'" and "ok \<Longrightarrow> 0 < n"
proof -
  let ?n = "unat (write_pos th - read_pos th)"
  have n: "?n = used th" and r: "unat (read_pos th) + ?n \<le> 65536"
    using assms(1,2) by (auto simp: used_cases word_less_nat_alt unat_sub word_le_nat_alt thread_wf_def)
  obtain b th1 k1 where s: "send_ring th ?n k = (b, th1, k1)" by (cases "send_ring th ?n k") auto
  have s1: "sent (nat b) 0 th k th1 k1" using send_ring_sent [OF assms(1) _ r s] n by simp
  show ?thesis
  proof (cases "b \<le> 0")
    case True
    then have "th' = th1 \<and> k' = k1 \<and> \<not> ok" using assms(2,3) s by (auto simp: gator_send_def)
    then show ?thesis using s1 that by blast
  next
    case False
    then have "send_oob ?n (int (nat b)) th1 k1 = (ok, th', k')"
      using assms(2,3) s by (simp add: gator_send_def)
    moreover have "0 < nat b" using False by simp
    ultimately show ?thesis using send_oob_spec [OF s1, of ?n "nat b"] n that by metis
  qed
qed

lemma gator_send_around:
  assumes "thread_wf th" and "write_pos th < read_pos th"
    and "gator_send th (write_pos th) k = (ok, th', k')"
  obtains n j where "sent n j th k th' k'" and "ok \<Longrightarrow> 0 < n"
proof -
  let ?n = "THREAD_BUFFER_SIZE - unat (read_pos th)" and ?w = "unat (write_pos th)"
  have wf: "unat (read_pos th) < 65536" "?w < unat (read_pos th)"
    using assms(1,2) by (auto simp: thread_wf_def word_less_nat_alt)
  have less: "\<not> read_pos th < write_pos th" using assms(2) by (simp add: not_less less_imp_le)
  have u: "used th = ?n + ?w"
    using used_cases [OF assms(1)] wf by (simp add: THREAD_BUFFER_SIZE_def)
  obtain b th1 k1 where s: "send_ring th ?n k = (b, th1, k1)" by (cases "send_ring th ?n k") auto
  have s1: "sent (nat b) 0 th k th1 k1"
    using send_ring_sent [OF assms(1) _ _ s] u wf by (simp add: THREAD_BUFFER_SIZE_def)
  consider "b \<le> 0" | "0 < b" "int ?n \<noteq> b" | "0 < b" "int ?n = b" by linarith
  then show ?thesis
  proof cases
    case 1
    then have "th' = th1 \<and> k' = k1 \<and> \<not> ok" using less assms(3) s by (auto simp: gator_send_def)
    then show ?thesis using s1 that by blast
  next
    case 2
    then have "send_oob ?n (int (nat b)) th1 k1 = (ok, th', k')"
      using less assms(3) s by (simp add: gator_send_def)
    moreover have "?n \<noteq> nat b" "0 < nat b" using 2 by auto
    ultimately show ?thesis using send_oob_spec [OF s1, of ?n "nat b"] that by metis
  next
    case 3
    have th1: "th1 = dequeue ?n th" using s1 3 by (auto simp: sent_def dequeue_def)
    have wf1: "thread_wf th1" unfolding th1 using assms(1) by (rule thread_wf_dequeue)
    have r0: "unat (read_pos th1) = 0"
      using gator_buf_pos_add [of "read_pos th" ?n] wf by (simp add: th1 dequeue_def THREAD_BUFFER_SIZE_def)
    have u1: "used th1 = ?w" using used_dequeue [OF assms(1), of ?n] u by (simp add: th1)
    obtain c th2 k2 where s2: "send_ring th1 ?w k1 = (c, th2, k2)" by (cases "send_ring th1 ?w k1") auto
    have s3: "sent (?n + nat c) 0 th k th2 k2"
    proof -
      have "nat b = ?n" using 3 by auto
      then show ?thesis using sent_trans [OF assms(1) s1 send_ring_sent [OF wf1 _ _ s2]] u1 r0 wf by simp
    qed
    show ?thesis
    proof (cases "c \<le> 0")
      case True
      then have "th' = th2 \<and> k' = k2 \<and> \<not> ok"
        using less assms(3) s s2 3 r0 by (auto simp: gator_send_def send_ring_def split: prod.splits if_splits)
      then show ?thesis using s3 that by blast
    next
      case False
      then have "send_oob ?w (int (nat c)) th2 k2 = (ok, th', k')"
        using less assms(3) s s2 3 r0 by (auto simp: gator_send_def send_ring_def split: prod.splits if_splits)
      moreover have "0 < ?n + nat c" using False by simp
      ultimately show ?thesis using send_oob_spec [OF s3, of ?w "nat c"] u that by metis
    qed
  qed
qed

lemma gator_send_sent:
  assumes "thread_wf th" and "write_pos th \<noteq> read_pos th"
    and "gator_send th (write_pos th) k = (ok, th', k')"
  obtains n j where "sent n j th k th' k'" and "ok \<Longrightarrow> 0 < n"
  using assms gator_send_forward [OF assms(1) _ assms(3)] gator_send_around [OF assms(1) _ assms(3)]
  by (metis linorder_neqE)

lemma sent_wf: "thread_wf th \<Longrightarrow> sent n j th k th' k' \<Longrightarrow> thread_wf th'"
  using thread_wf_dequeue [of th n] by (auto simp: sent_def thread_wf_def)

lemma pending_oob [simp]: "pending (th\<lparr>oob_data := d, oob_length := n\<rparr>) = pending th"
  by (simp add: pending_def used_def)

lemma sent_pending: "thread_wf th \<Longrightarrow> sent n j th k th' k' \<Longrightarrow> pending th' = drop n (pending th)"
  by (auto simp: sent_def pending_dequeue)

text \<open>
  C31: sending a buffer that is not empty. Whatever the kernel accepts, the bytes that reach the
  daemon are the next bytes of the queue, in order and around the end of the buffer, followed by
  bytes of the image only once the queue has been sent completely; exactly the bytes accepted leave
  the queue and the image, nothing else reaches another connection, and the positions stay inside
  the buffer.
\<close>

theorem gator_send_prefix:
  assumes "thread_wf th" and "write_pos th \<noteq> read_pos th"
    and "gator_send th (write_pos th) k = (ok, th', k')"
  shows "\<exists>n j. sent n j th k th' k' \<and> pending th' = drop n (pending th) \<and> thread_wf th'"
proof -
  obtain n j where "sent n j th k th' k'" using gator_send_sent [OF assms] by metis
  then show ?thesis using assms(1) sent_wf sent_pending by blast
qed

definition new_thread :: "buffer \<Rightarrow> i32 \<Rightarrow> gator_thread" where
  "new_thread m t = \<lparr>oob_data = [], oob_length = 0, sem = 0, fd = - 1, tid = t, write_pos = 0, read_pos = 0,
     exited = False, buf = m\<rparr>"

definition example_kernel :: kernel where
  "example_kernel = \<lparr>socket_tape = [5], connect_tape = [0], send_tape = [100, 100, 100], read_tape = [],
     clock_tape = [], cas_tape = [], wire = \<lambda>_. [], shut = []\<rparr>"

definition example_wrapped :: gator_thread where
  "example_wrapped = (new_thread (\<lambda>i. of_nat i) 7)\<lparr>fd := 5, read_pos := 65534, write_pos := 1\<rparr>"

lemma example_wrapped_wf: "thread_wf example_wrapped"
  by (simp add: thread_wf_def example_wrapped_def new_thread_def)

theorem gator_send_prefix_witness:
  "\<exists>n j. sent n j example_wrapped example_kernel
     (fst (snd (gator_send example_wrapped (write_pos example_wrapped) example_kernel)))
     (snd (snd (gator_send example_wrapped (write_pos example_wrapped) example_kernel)))"
proof -
  have "write_pos example_wrapped \<noteq> read_pos example_wrapped"
    by (simp add: example_wrapped_def new_thread_def)
  from gator_send_prefix [OF example_wrapped_wf this] show ?thesis by (metis prod.collapse)
qed

section \<open>Two boundary cases\<close>

text \<open>
  A buffer whose write position is exactly the start. When the queue ends at the end of the
  buffer and the kernel accepts all of it, a second send of no bytes follows; its answer, no bytes,
  counts as a failure: \<open>gator_send\<close> reports an error although the whole queue has been sent.
\<close>

theorem gator_send_wrap_fails:
  assumes "thread_wf th" and "write_pos th = 0" and "read_pos th \<noteq> 0"
    and "send_tape k = r # rs" and "int (used th) \<le> r"
  shows "\<exists>th' k'. gator_send th (write_pos th) k = (False, th', k') \<and> pending th' = []
    \<and> wire k' (fd th) = wire k (fd th) @ pending th"
proof -
  define n where "n = THREAD_BUFFER_SIZE - unat (read_pos th)"
  have r0: "unat (read_pos th) \<noteq> 0" using assms(3) by (simp add: unat_eq_0)
  have u: "used th = n" "0 < n" "unat (read_pos th) + n \<le> 65536"
    using used_cases [OF assms(1)] assms(1,2) r0 by (auto simp: n_def thread_wf_def THREAD_BUFFER_SIZE_def)
  let ?k = "k\<lparr>send_tape := rs, wire := (wire k)(fd th := wire k (fd th) @ pending th)\<rparr>"
  have s: "send_ring th n k = (int n, dequeue n th, ?k)"
    using send_ring_all [OF _ u(3,2) assms(4)] u(1) assms(5) by simp
  obtain b k' where e: "sys_send (fd th) [] ?k = (b, k')" by (cases "sys_send (fd th) [] ?k")
  have "b \<le> 0" using sys_send_nothing [OF e] .
  have g: "gator_send th (write_pos th) k = (False, dequeue n th, k')"
    using u(2) s e \<open>b \<le> 0\<close> assms(2) by (simp add: gator_send_def dequeue_def flip: n_def)
  have "pending (dequeue n th) = []" using pending_dequeue [OF assms(1), of n] u by simp
  moreover have "wire k' (fd th) = wire k (fd th) @ pending th"
    using sys_send_wire(1) [OF e] by simp
  ultimately show ?thesis using g by blast
qed

definition example_at_end :: gator_thread where
  "example_at_end = (new_thread (\<lambda>i. of_nat i) 7)\<lparr>fd := 5, read_pos := 65534, write_pos := 0\<rparr>"

theorem gator_send_wrap_fails_witness:
  "\<not> fst (gator_send example_at_end (write_pos example_at_end) example_kernel)"
proof -
  have "thread_wf example_at_end" "write_pos example_at_end = 0" "read_pos example_at_end \<noteq> 0"
    "send_tape example_kernel = 100 # [100, 100]" "int (used example_at_end) \<le> 100"
    by (simp_all add: thread_wf_def used_def example_at_end_def new_thread_def example_kernel_def)
  from gator_send_wrap_fails [OF this] show ?thesis by auto
qed

text \<open>
  C35: image data with an empty queue. When the queue is empty and image data is left over from an
  earlier, partial send, \<open>gator_send\<close> first sends bytes of the buffer that were already sent or
  never written, so the daemon reads bytes that no annotation put there.
\<close>

theorem gator_send_stale:
  assumes "thread_wf th" and "write_pos th = read_pos th" and "send_tape k = r # rs"
    and "0 < r" and "r < 65536 - int (unat (read_pos th))"
  shows "\<exists>th' k'. gator_send th (write_pos th) k = (True, th', k') \<and> pending th = []
    \<and> wire k' (fd th) = wire k (fd th) @ map (buf th) [unat (read_pos th)..<unat (read_pos th) + nat r]
    \<and> oob_length th' = oob_length th"
proof -
  define n where "n = THREAD_BUFFER_SIZE - unat (read_pos th)"
  let ?r = "unat (read_pos th)" and ?d = "map (buf th) [unat (read_pos th)..<unat (read_pos th) + n]"
  have n: "r < int n" using assms(1,5) by (simp add: n_def THREAD_BUFFER_SIZE_def thread_wf_def)
  let ?k = "k\<lparr>send_tape := rs, wire := (wire k)(fd th := wire k (fd th) @ take (nat r) ?d)\<rparr>"
  have "sys_send (fd th) ?d k = (r, ?k)"
    using n by (intro sys_send_some [OF assms(3,4)]) simp
  then have "gator_send th (write_pos th) k
      = (True, th\<lparr>read_pos := gator_buf_pos (read_pos th + word_of_int r)\<rparr>, ?k)"
    using assms(2,4) n by (simp add: gator_send_def send_ring_def send_oob_def flip: n_def)
  moreover have "take (nat r) ?d = map (buf th) [?r..<?r + nat r]"
    using n assms(4) by (simp add: take_map take_upt)
  moreover have "pending th = []" using assms(2) by (simp add: used_def flip: length_0_conv)
  ultimately show ?thesis by simp
qed

definition example_image :: gator_thread where
  "example_image = (new_thread (\<lambda>i. of_nat i) 7)\<lparr>fd := 5, read_pos := 20, write_pos := 20,
     oob_data := [1, 2, 3], oob_length := 3\<rparr>"

theorem gator_send_stale_witness:
  "\<exists>th' k'. gator_send example_image (write_pos example_image) example_kernel = (True, th', k')
     \<and> oob_length th' = 3"
proof -
  have "thread_wf example_image" "write_pos example_image = read_pos example_image"
    "send_tape example_kernel = 100 # [100, 100]" "(0 :: int) < 100"
    "100 < 65536 - int (unat (read_pos example_image))" "oob_length example_image = 3"
    by (simp_all add: thread_wf_def example_image_def new_thread_def example_kernel_def)
  from gator_send_stale [OF this(1-5)] this(6) show ?thesis by auto
qed

end
