(* ===== verification/Annotate_Messages.thy ===== *)
theory Annotate_Messages
  imports Annotate_Sender
begin

text \<open>
  The annotation calls of \<open>streamline_annotate.cpp\<close>: how an application thread finds its
  buffer, waits for room, frames a message and hands it to the sender. A call is a function of the
  state of the process; \<open>None\<close> means that the call never returns. While a call waits for its
  semaphore the sender takes turns; all else that a call does is one step of the process.
\<close>

section \<open>The answers of the system\<close>

text \<open>
  What the calls made by one annotation answer: \<open>malloc\<close> and \<open>strdup\<close> may fail, the
  memory of a new buffer is not initialised, \<open>clock\<close> is the answer of \<open>clock_gettime\<close>.
\<close>

record call_env =
  env_create :: int
  env_malloc_thread :: bool
  env_gettid :: i32
  env_garbage :: buffer
  env_sem_init :: int
  env_setspecific :: int
  env_clock :: "(u64 \<times> u64) option"
  env_malloc_item :: bool
  env_malloc_activities :: bool
  env_malloc_colors :: bool
  env_strdup :: "byte list \<Rightarrow> cstring"

definition HEADER_UTF8 :: byte where "HEADER_UTF8 = 0x01"
definition HEADER_UTF8_COLOR :: byte where "HEADER_UTF8_COLOR = 0x02"
definition HEADER_CHANNEL_NAME :: byte where "HEADER_CHANNEL_NAME = 0x03"
definition HEADER_GROUP_NAME :: byte where "HEADER_GROUP_NAME = 0x04"
definition HEADER_VISUAL :: byte where "HEADER_VISUAL = 0x05"
definition HEADER_MARKER :: byte where "HEADER_MARKER = 0x06"
definition HEADER_MARKER_COLOR :: byte where "HEADER_MARKER_COLOR = 0x07"
definition HEADER_COUNTER :: byte where "HEADER_COUNTER = 0x08"
definition HEADER_COUNTER_VALUE :: byte where "HEADER_COUNTER_VALUE = 0x09"
definition HEADER_ACTIVITY_SWITCH :: byte where "HEADER_ACTIVITY_SWITCH = 0x0a"
definition HEADER_CAM_TRACK :: byte where "HEADER_CAM_TRACK = 0x0b"
definition HEADER_CAM_JOB :: byte where "HEADER_CAM_JOB = 0x0c"
definition HEADER_CAM_VIEW_NAME :: byte where "HEADER_CAM_VIEW_NAME = 0x0d"
definition HEADER_CAM_JOB_START :: byte where "HEADER_CAM_JOB_START = 0x0e"
definition HEADER_CAM_JOB_SET_DEPS :: byte where "HEADER_CAM_JOB_SET_DEPS = 0x0f"
definition HEADER_CAM_JOB_STOP :: byte where "HEADER_CAM_JOB_STOP = 0x10"

definition SIZE_COLOR :: u32 where "SIZE_COLOR = 4"
definition MAXSIZE_PACK_INT :: u32 where "MAXSIZE_PACK_INT = 5"
definition MAXSIZE_PACK_LONG :: u32 where "MAXSIZE_PACK_LONG = 10"

fun class_code :: "gator_annotate_counter_class \<Rightarrow> i32" where
  "class_code ANNOTATE_DELTA = 1"
| "class_code ANNOTATE_ABSOLUTE = 2"
| "class_code ANNOTATE_ACTIVITY = 3"

fun display_code :: "gator_annotate_display \<Rightarrow> i32" where
  "display_code ANNOTATE_AVERAGE = 1"
| "display_code ANNOTATE_ACCUMULATE = 2"
| "display_code ANNOTATE_HERTZ = 3"
| "display_code ANNOTATE_MAXIMUM = 4"
| "display_code ANNOTATE_MINIMUM = 5"

fun composition_code :: "gator_annotate_series_composition \<Rightarrow> i32" where
  "composition_code ANNOTATE_STACKED = 1"
| "composition_code ANNOTATE_OVERLAY = 2"
| "composition_code ANNOTATE_LOG10 = 3"

fun rendering_code :: "gator_annotate_rendering_type \<Rightarrow> i32" where
  "rendering_code ANNOTATE_FILL = 1"
| "rendering_code ANNOTATE_LINE = 2"
| "rendering_code ANNOTATE_BAR = 3"

section \<open>Waiting\<close>

text \<open>
  \<open>sem_wait(&thread->sem)\<close>: until the semaphore of the thread has been posted, the sender takes
  turns; with no sender the call does not return.
\<close>

partial_function (option) sem_wait_thread :: "nat \<Rightarrow> gator_state \<Rightarrow> gator_state option" where
  "sem_wait_thread a gs = (case thread_at gs a of None \<Rightarrow> None | Some th \<Rightarrow>
     if 0 < sem th then Some (set_thread a (th\<lparr>sem := sem th - 1\<rparr>) gs)
     else if senders gs = 0 then None
     else sem_wait_thread a (gator_func_turn gs))"

definition post_sender :: "gator_state \<Rightarrow> gator_state" where
  "post_sender gs = gs\<lparr>sender_sem := Suc (sender_sem gs)\<rparr>"

partial_function (option) gator_buf_wait_bytes :: "nat \<Rightarrow> u32 \<Rightarrow> gator_state \<Rightarrow> gator_state option" where
  "gator_buf_wait_bytes a bytes gs = (case thread_at gs a of None \<Rightarrow> None | Some th \<Rightarrow>
     if gator_buf_free th < bytes
     then (case sem_wait_thread a (post_sender gs) of None \<Rightarrow> None
       | Some gs' \<Rightarrow> gator_buf_wait_bytes a bytes gs')
     else Some gs)"

partial_function (option) oob_wait :: "nat \<Rightarrow> gator_state \<Rightarrow> gator_state option" where
  "oob_wait a gs = (case thread_at gs a of None \<Rightarrow> None | Some th \<Rightarrow>
     if 0 < oob_length th
     then (case sem_wait_thread a (post_sender gs) of None \<Rightarrow> None | Some gs' \<Rightarrow> oob_wait a gs')
     else Some gs)"

text \<open>\<open>gator_annotate_flush\<close> waits for a turn of the sender that starts after the request.\<close>

partial_function (option) sync_wait :: "gator_state \<Rightarrow> gator_state option" where
  "sync_wait gs =
     (if 0 < sync_waiter_sem gs then Some (gs\<lparr>sync_waiter_sem := sync_waiter_sem gs - 1\<rparr>)
      else if senders gs = 0 then None else sync_wait (gator_func_turn gs))"

definition gator_annotate_flush :: "gator_state \<Rightarrow> gator_state option" where
  "gator_annotate_flush gs = (if capturing gs
     then sync_wait (gs\<lparr>sync_sem := Suc (sync_sem gs), sender_sem := Suc (sender_sem gs)\<rparr>)
     else Some gs)"

section \<open>Framing\<close>

text \<open>The results are the thread, the write position, the position of the size and the length.\<close>

definition gator_msg_begin :: "byte \<Rightarrow> gator_thread \<Rightarrow> gator_thread \<times> u32 \<times> u32 \<times> u32" where
  "gator_msg_begin marker th = (case gator_buf_write_byte marker (buf th, write_pos th) of (_, m, wp) \<Rightarrow>
     (th\<lparr>buf := m\<rparr>, gator_buf_pos (wp + 4), wp, 0))"

definition gator_msg_end :: "gator_thread \<Rightarrow> u32 \<Rightarrow> u32 \<Rightarrow> u32 \<Rightarrow> gator_thread \<times> bool" where
  "gator_msg_end th wp sp len = (case gator_buf_write_uint32 len (buf th, sp) of (_, m, _) \<Rightarrow>
     let th = th\<lparr>buf := m, write_pos := wp\<rparr> in
     (th, of_nat (3 * THREAD_BUFFER_SIZE div 4) \<le> gator_buf_used th))"

text \<open>A message between \<open>gator_msg_begin\<close> and \<open>gator_msg_end\<close>, its fields in order.\<close>

definition write_message :: "byte \<Rightarrow> writer list \<Rightarrow> gator_thread \<Rightarrow> gator_thread \<times> bool" where
  "write_message marker ws th = (case gator_msg_begin marker th of (th, wp, sp, len) \<Rightarrow>
     case write_fields ws (len, buf th, wp) of (len, m, wp) \<Rightarrow> gator_msg_end (th\<lparr>buf := m\<rparr>) wp sp len)"

text \<open>
  The common part of the calls: a message that reserves more than half of the buffer is dropped,
  otherwise the call waits for room, writes the message, and wakes the sender when the buffer is
  three quarters full.
\<close>

definition put_message :: "nat \<Rightarrow> u32 \<Rightarrow> byte \<Rightarrow> writer list \<Rightarrow> gator_state \<Rightarrow> gator_state option" where
  "put_message a bytes marker ws gs =
     (if of_nat (THREAD_BUFFER_SIZE div 2) < bytes then Some gs
      else case gator_buf_wait_bytes a bytes gs of None \<Rightarrow> None | Some gs \<Rightarrow>
        case thread_at gs a of None \<Rightarrow> None | Some th \<Rightarrow>
          case write_message marker ws th of (th, wake) \<Rightarrow>
            let gs = set_thread a th gs in Some (if wake then post_sender gs else gs))"

section \<open>Strings\<close>

definition cbytes :: "cstring \<Rightarrow> byte list" where
  "cbytes s = (case s of None \<Rightarrow> [] | Some bs \<Rightarrow> bs)"

definition csize :: "cstring \<Rightarrow> u32" where
  "csize s = of_nat (length (cbytes s))"

definition write_cstring :: "cstring \<Rightarrow> writer" where
  "write_cstring s = gator_buf_write_bytes (cbytes s)"

section \<open>Stored items\<close>

definition activity_size :: "gator_counter \<Rightarrow> u32" where
  "activity_size c = fold (\<lambda>s n. n + csize s + SIZE_COLOR) (activities c) 0"

definition activity_fields :: "cstring \<times> u32 \<Rightarrow> writer list" where
  "activity_fields sc = (case sc of (s, col) \<Rightarrow>
     [write_cstring s, gator_buf_write_byte 0, gator_buf_write_color col])"

definition counter_fields :: "gator_counter \<Rightarrow> writer list" where
  "counter_fields c =
     [gator_buf_write_int (cid c), gator_buf_write_int (per_cpu c),
      gator_buf_write_int (class_code (counter_class c)), gator_buf_write_int (display_code (display c)),
      gator_buf_write_int (modifier c), gator_buf_write_int (composition_code (series_composition c)),
      gator_buf_write_int (rendering_code (rendering_type c)), gator_buf_write_int (average_selection c),
      gator_buf_write_int (average_cores c), gator_buf_write_int (percentage c),
      gator_buf_write_int (of_nat (length (activities c))), gator_buf_write_int (cores c),
      gator_buf_write_color (color c)]
     @ concat (map activity_fields (zip (activities c) (activity_colors c)))
     @ [write_cstring (title c), gator_buf_write_byte 0, write_cstring (cname c), gator_buf_write_byte 0,
      write_cstring (units c), gator_buf_write_byte 0, write_cstring (description c)]"

definition gator_annotate_write_counter :: "nat \<Rightarrow> gator_counter \<Rightarrow> gator_state \<Rightarrow> gator_state option" where
  "gator_annotate_write_counter a c =
     put_message a (1 + 4 + 12 * MAXSIZE_PACK_INT + SIZE_COLOR + activity_size c + csize (title c) + 1
       + csize (cname c) + 1 + csize (units c) + 1 + csize (description c)) HEADER_COUNTER (counter_fields c)"

definition gator_annotate_write_cam_track :: "nat \<Rightarrow> gator_cam_track \<Rightarrow> gator_state \<Rightarrow> gator_state option" where
  "gator_annotate_write_cam_track a t =
     put_message a (1 + 4 + 3 * MAXSIZE_PACK_INT + csize (track_name t)) HEADER_CAM_TRACK
       [gator_buf_write_int (track_view_uid t), gator_buf_write_int (track_uid t),
        gator_buf_write_int (parent_track t), write_cstring (track_name t)]"

definition gator_annotate_write_cam_name :: "nat \<Rightarrow> gator_cam_name \<Rightarrow> gator_state \<Rightarrow> gator_state option" where
  "gator_annotate_write_cam_name a n =
     put_message a (1 + 4 + MAXSIZE_PACK_INT + csize (view_name n)) HEADER_CAM_VIEW_NAME
       [gator_buf_write_int (name_view_uid n), write_cstring (view_name n)]"

fun resend :: "('i \<Rightarrow> gator_state \<Rightarrow> gator_state option) \<Rightarrow> 'i list \<Rightarrow> gator_state \<Rightarrow> gator_state option" where
  "resend f [] gs = Some gs"
| "resend f (i # is) gs = (case f i gs of None \<Rightarrow> None | Some gs' \<Rightarrow> resend f is gs')"

definition resend_items :: "nat \<Rightarrow> gator_state \<Rightarrow> gator_state option" where
  "resend_items a gs =
     (case resend (gator_annotate_write_counter a) (counters gs) gs of
        None \<Rightarrow> None
      | Some gs \<Rightarrow> (case resend (gator_annotate_write_cam_track a) (cam_tracks gs) gs of
          None \<Rightarrow> None
        | Some gs \<Rightarrow> resend (gator_annotate_write_cam_name a) (cam_names gs) gs))"

section \<open>The buffer of the calling thread\<close>

text \<open>\<open>new_gator_thread\<close>: a new element at the head of the list, unless a call fails.\<close>

definition new_gator_thread :: "call_env \<Rightarrow> nat \<Rightarrow> gator_state \<Rightarrow> nat option \<times> gator_state" where
  "new_gator_thread env c gs =
     (if \<not> env_malloc_thread env then (None, gs)
      else (let a = heap_top gs; gs = gs\<lparr>heap_top := Suc a\<rparr> in
        if env_sem_init env \<noteq> 0 \<or> env_setspecific env \<noteq> 0 then (None, gs)
        else (Some a, gs\<lparr>key := (key gs)(c \<mapsto> a),
          threads := (a, new_thread (env_garbage env) (env_gettid env)) # threads gs\<rparr>)))"

text \<open>After a fork the first call in the child starts a new sender.\<close>

definition restart_sender :: "call_env \<Rightarrow> gator_state \<Rightarrow> bool \<times> gator_state" where
  "restart_sender env gs =
     (if \<not> forked gs then (True, gs)
      else if env_create env \<noteq> 0 then (False, gs\<lparr>forked := False\<rparr>)
      else (True, gator_func_begin True (gs\<lparr>forked := False, senders := Suc (senders gs)\<rparr>)))"

definition own_thread :: "call_env \<Rightarrow> nat \<Rightarrow> gator_state \<Rightarrow> nat option \<times> gator_state" where
  "own_thread env c gs = (case key gs c of Some a \<Rightarrow> (Some a, gs) | None \<Rightarrow> new_gator_thread env c gs)"

definition gator_get_thread :: "call_env \<Rightarrow> nat \<Rightarrow> gator_state \<Rightarrow> (nat option \<times> gator_state) option" where
  "gator_get_thread env c gs = (case restart_sender env gs of (ok, gs) \<Rightarrow>
     if \<not> ok \<or> \<not> capturing gs then Some (None, gs)
     else case own_thread env c gs of
       (None, gs) \<Rightarrow> Some (None, gs)
     | (Some a, gs) \<Rightarrow>
         if resend_state gs
         then (case resend_items a (gs\<lparr>resend_state := False\<rparr>) of None \<Rightarrow> None | Some gs \<Rightarrow> Some (Some a, gs))
         else Some (Some a, gs))"

definition with_thread ::
  "call_env \<Rightarrow> nat \<Rightarrow> (nat \<Rightarrow> gator_state \<Rightarrow> gator_state option) \<Rightarrow> gator_state \<Rightarrow> gator_state option" where
  "with_thread env c f gs = (case gator_get_thread env c gs of
     None \<Rightarrow> None | Some (None, gs) \<Rightarrow> Some gs | Some (Some a, gs) \<Rightarrow> f a gs)"

section \<open>Annotations\<close>

abbreviation write_now :: "call_env \<Rightarrow> writer" where
  "write_now env \<equiv> gator_buf_write_time (gator_get_time (env_clock env))"

definition gator_annotate_str ::
  "call_env \<Rightarrow> nat \<Rightarrow> u32 \<Rightarrow> cstring \<Rightarrow> gator_state \<Rightarrow> gator_state option" where
  "gator_annotate_str env c channel str = with_thread env c (\<lambda>a.
     put_message a (1 + 4 + MAXSIZE_PACK_LONG + MAXSIZE_PACK_INT + csize str) HEADER_UTF8
       [write_now env, gator_buf_write_int channel, write_cstring str])"

definition gator_annotate_color ::
  "call_env \<Rightarrow> nat \<Rightarrow> u32 \<Rightarrow> u32 \<Rightarrow> cstring \<Rightarrow> gator_state \<Rightarrow> gator_state option" where
  "gator_annotate_color env c channel col str = with_thread env c (\<lambda>a.
     put_message a (1 + 4 + MAXSIZE_PACK_LONG + MAXSIZE_PACK_INT + SIZE_COLOR + csize str) HEADER_UTF8_COLOR
       [write_now env, gator_buf_write_int channel, gator_buf_write_color col, write_cstring str])"

definition gator_annotate_name_channel ::
  "call_env \<Rightarrow> nat \<Rightarrow> u32 \<Rightarrow> u32 \<Rightarrow> cstring \<Rightarrow> gator_state \<Rightarrow> gator_state option" where
  "gator_annotate_name_channel env c channel grp str = with_thread env c (\<lambda>a.
     put_message a (1 + 4 + MAXSIZE_PACK_LONG + 2 * MAXSIZE_PACK_INT + csize str) HEADER_CHANNEL_NAME
       [write_now env, gator_buf_write_int channel, gator_buf_write_int grp, write_cstring str])"

definition gator_annotate_name_group ::
  "call_env \<Rightarrow> nat \<Rightarrow> u32 \<Rightarrow> cstring \<Rightarrow> gator_state \<Rightarrow> gator_state option" where
  "gator_annotate_name_group env c grp str = with_thread env c (\<lambda>a.
     put_message a (1 + 4 + MAXSIZE_PACK_LONG + MAXSIZE_PACK_INT + csize str) HEADER_GROUP_NAME
       [write_now env, gator_buf_write_int grp, write_cstring str])"

text \<open>
  The image itself does not go through the buffer: the message announces its length, and the sender
  takes the data from the caller's memory while the caller waits.
\<close>

definition visual_message :: "call_env \<Rightarrow> byte list \<Rightarrow> cstring \<Rightarrow> gator_thread \<Rightarrow> gator_thread" where
  "visual_message env data str th = (case gator_msg_begin HEADER_VISUAL th of (th, wp, sp, len) \<Rightarrow>
     case write_fields [write_now env, write_cstring str, gator_buf_write_byte 0] (len, buf th, wp) of
       (len, m, wp) \<Rightarrow> case gator_buf_write_uint32 (len + of_nat (length data)) (m, sp) of (_, m, _) \<Rightarrow>
         th\<lparr>buf := m, write_pos := wp, oob_data := data, oob_length := length data\<rparr>)"

definition gator_annotate_visual ::
  "call_env \<Rightarrow> nat \<Rightarrow> byte list \<Rightarrow> cstring \<Rightarrow> gator_state \<Rightarrow> gator_state option" where
  "gator_annotate_visual env c data str = with_thread env c (\<lambda>a gs.
     let bytes = 1 + 4 + MAXSIZE_PACK_LONG + csize str + 1 in
     if of_nat (THREAD_BUFFER_SIZE div 2) < bytes then Some gs
     else case gator_buf_wait_bytes a bytes gs of None \<Rightarrow> None | Some gs \<Rightarrow>
       case thread_at gs a of None \<Rightarrow> None | Some th \<Rightarrow>
         oob_wait a (set_thread a (visual_message env data str th) gs))"

definition gator_annotate_marker ::
  "call_env \<Rightarrow> nat \<Rightarrow> cstring \<Rightarrow> gator_state \<Rightarrow> gator_state option" where
  "gator_annotate_marker env c str = with_thread env c (\<lambda>a.
     put_message a (1 + 4 + MAXSIZE_PACK_LONG + csize str) HEADER_MARKER [write_now env, write_cstring str])"

definition gator_annotate_marker_color ::
  "call_env \<Rightarrow> nat \<Rightarrow> u32 \<Rightarrow> cstring \<Rightarrow> gator_state \<Rightarrow> gator_state option" where
  "gator_annotate_marker_color env c col str = with_thread env c (\<lambda>a.
     put_message a (1 + 4 + MAXSIZE_PACK_LONG + SIZE_COLOR + csize str) HEADER_MARKER_COLOR
       [write_now env, gator_buf_write_color col, write_cstring str])"

definition strdup :: "call_env \<Rightarrow> cstring \<Rightarrow> cstring" where
  "strdup env s = (case s of None \<Rightarrow> None | Some bs \<Rightarrow> env_strdup env bs)"

text \<open>
  The argument \<open>c0\<close> holds the arguments of the call; the copy is kept so that it can be sent again
  when a new capture starts.
\<close>

definition gator_annotate_counter ::
  "call_env \<Rightarrow> nat \<Rightarrow> gator_counter \<Rightarrow> gator_state \<Rightarrow> gator_state option" where
  "gator_annotate_counter env c c0 gs =
     (if \<not> env_malloc_item env then Some gs
      else if activities c0 \<noteq> [] \<and> (\<not> env_malloc_activities env \<or> \<not> env_malloc_colors env) then Some gs
      else (let counter = c0\<lparr>title := strdup env (title c0), cname := strdup env (cname c0),
              units := strdup env (units c0), description := strdup env (description c0),
              activities := map (strdup env) (activities c0)\<rparr> in
        with_thread env c (\<lambda>a. gator_annotate_write_counter a counter)
          (gs\<lparr>counters := counter # counters gs\<rparr>)))"

definition gator_annotate_counter_value ::
  "call_env \<Rightarrow> nat \<Rightarrow> u32 \<Rightarrow> u32 \<Rightarrow> u32 \<Rightarrow> gator_state \<Rightarrow> gator_state option" where
  "gator_annotate_counter_value env c core ident val = with_thread env c (\<lambda>a.
     put_message a (1 + 4 + MAXSIZE_PACK_LONG + 3 * MAXSIZE_PACK_INT) HEADER_COUNTER_VALUE
       [write_now env, gator_buf_write_int core, gator_buf_write_int ident, gator_buf_write_int val])"

definition gator_annotate_activity_switch ::
  "call_env \<Rightarrow> nat \<Rightarrow> u32 \<Rightarrow> u32 \<Rightarrow> u32 \<Rightarrow> u32 \<Rightarrow> gator_state \<Rightarrow> gator_state option" where
  "gator_annotate_activity_switch env c core ident activity t = with_thread env c (\<lambda>a.
     put_message a (1 + 4 + MAXSIZE_PACK_LONG + 4 * MAXSIZE_PACK_INT) HEADER_ACTIVITY_SWITCH
       [write_now env, gator_buf_write_int core, gator_buf_write_int ident, gator_buf_write_int activity,
        gator_buf_write_int t])"

definition gator_cam_track ::
  "call_env \<Rightarrow> nat \<Rightarrow> u32 \<Rightarrow> u32 \<Rightarrow> u32 \<Rightarrow> cstring \<Rightarrow> gator_state \<Rightarrow> gator_state option" where
  "gator_cam_track env c view track parent name gs =
     (if \<not> env_malloc_item env then Some gs
      else (let t = \<lparr>track_name = strdup env name, track_view_uid = view, track_uid = track,
              parent_track = parent\<rparr> in
        with_thread env c (\<lambda>a. gator_annotate_write_cam_track a t) (gs\<lparr>cam_tracks := t # cam_tracks gs\<rparr>)))"

definition gator_cam_job ::
  "call_env \<Rightarrow> nat \<Rightarrow> u32 \<Rightarrow> u32 \<Rightarrow> cstring \<Rightarrow> u32 \<Rightarrow> u64 \<Rightarrow> u64 \<Rightarrow> u32 \<Rightarrow> u32 \<Rightarrow> u32 list
     \<Rightarrow> gator_state \<Rightarrow> gator_state option" where
  "gator_cam_job env c view job name track start_time duration col primary deps = with_thread env c (\<lambda>a.
     put_message a (1 + 4 + 5 * MAXSIZE_PACK_INT + 2 * MAXSIZE_PACK_LONG + SIZE_COLOR
         + of_nat (length deps) * MAXSIZE_PACK_INT + csize name) HEADER_CAM_JOB
       ([gator_buf_write_int view, gator_buf_write_int job, gator_buf_write_int track,
         gator_buf_write_long start_time, gator_buf_write_long duration, gator_buf_write_color col,
         gator_buf_write_int primary, gator_buf_write_int (of_nat (length deps))]
        @ map gator_buf_write_int deps @ [write_cstring name]))"

definition gator_cam_job_start ::
  "call_env \<Rightarrow> nat \<Rightarrow> u32 \<Rightarrow> u32 \<Rightarrow> cstring \<Rightarrow> u32 \<Rightarrow> u64 \<Rightarrow> u32 \<Rightarrow> gator_state \<Rightarrow> gator_state option" where
  "gator_cam_job_start env c view job name track time col = with_thread env c (\<lambda>a.
     put_message a (1 + 4 + 3 * MAXSIZE_PACK_INT + MAXSIZE_PACK_LONG + SIZE_COLOR + csize name)
       HEADER_CAM_JOB_START
       [gator_buf_write_int view, gator_buf_write_int job, gator_buf_write_int track,
        gator_buf_write_long time, gator_buf_write_color col, write_cstring name])"

definition gator_cam_job_set_dependencies ::
  "call_env \<Rightarrow> nat \<Rightarrow> u32 \<Rightarrow> u32 \<Rightarrow> u64 \<Rightarrow> u32 \<Rightarrow> u32 list \<Rightarrow> gator_state \<Rightarrow> gator_state option" where
  "gator_cam_job_set_dependencies env c view job time primary deps = with_thread env c (\<lambda>a.
     put_message a (1 + 4 + 4 * MAXSIZE_PACK_INT + MAXSIZE_PACK_LONG + of_nat (length deps) * MAXSIZE_PACK_INT)
       HEADER_CAM_JOB_SET_DEPS
       ([gator_buf_write_int view, gator_buf_write_int job, gator_buf_write_long time,
         gator_buf_write_int primary, gator_buf_write_int (of_nat (length deps))]
        @ map gator_buf_write_int deps))"

definition gator_cam_job_stop ::
  "call_env \<Rightarrow> nat \<Rightarrow> u32 \<Rightarrow> u32 \<Rightarrow> u64 \<Rightarrow> gator_state \<Rightarrow> gator_state option" where
  "gator_cam_job_stop env c view job time = with_thread env c (\<lambda>a.
     put_message a (1 + 4 + 2 * MAXSIZE_PACK_INT + MAXSIZE_PACK_LONG) HEADER_CAM_JOB_STOP
       [gator_buf_write_int view, gator_buf_write_int job, gator_buf_write_long time])"

definition gator_cam_view_name ::
  "call_env \<Rightarrow> nat \<Rightarrow> u32 \<Rightarrow> cstring \<Rightarrow> gator_state \<Rightarrow> gator_state option" where
  "gator_cam_view_name env c view name gs =
     (if \<not> env_malloc_item env then Some gs
      else (let n = \<lparr>view_name = strdup env name, name_view_uid = view\<rparr> in
        with_thread env c (\<lambda>a. gator_annotate_write_cam_name a n) (gs\<lparr>cam_names := n # cam_names gs\<rparr>)))"

end
