(* ===== verification/Annotate_Spec.thy ===== *)
theory Annotate_Spec
  imports Annotate_Messages
begin

text \<open>
  What the annotation calls put on the wire. A message is a frame: the header byte, the length of
  the payload in four bytes and the payload. Each call is shown to append exactly one frame to the
  queue of its thread, and the frames can be decoded. A run of calls and sends on one connection
  delivers the frames in order; the reservation of the counter message is examined separately.
\<close>

section \<open>Frames\<close>

definition frame :: "byte \<Rightarrow> byte list \<Rightarrow> byte list" where
  "frame marker payload = marker # le32 (of_nat (length payload)) @ payload"

lemma length_le32 [simp]: "length (le32 x) = 4"
  by (simp add: le32_def)

lemma length_color_bytes [simp]: "length (color_bytes x) = 4"
  by (simp add: color_bytes_def)

lemma length_frame [simp]: "length (frame marker payload) = 5 + length payload"
  by (simp add: frame_def)

lemma put_upd_commute: "length bs \<le> n \<Longrightarrow> n \<le> k \<Longrightarrow> k < 65536 \<Longrightarrow>
    put (m((p + k) mod 65536 := b)) p bs = (put m p bs)((p + k) mod 65536 := b)"
proof (induction bs arbitrary: m p n k)
  case (Cons x bs)
  have k: "(p + k) mod 65536 = (Suc p + (k - 1)) mod 65536" using Cons.prems by simp
  have ne: "(p + k) mod 65536 \<noteq> p mod 65536" using mod_ring_inj [of k 0 p] Cons.prems by auto
  have "put (m((p + k) mod 65536 := b)) p (x # bs)
      = put ((m(p mod 65536 := x))((Suc p + (k - 1)) mod 65536 := b)) (Suc p) bs"
    by (subst put.simps, subst fun_upd_twist [OF ne]) (simp only: k)
  also have "\<dots> = (put (m(p mod 65536 := x)) (Suc p) bs)((Suc p + (k - 1)) mod 65536 := b)"
    using Cons.prems by (intro Cons.IH [of "n - 1"]) auto
  finally show ?case by (simp only: put.simps k)
qed simp

lemma put_swap: "length as \<le> n \<Longrightarrow> n + length bs \<le> 65536 \<Longrightarrow>
    put (put m (p + n) bs) p as = put (put m p as) (p + n) bs"
proof (induction as arbitrary: m p n)
  case (Cons a as)
  then obtain n' where n: "n = Suc n'" by (cases n) auto
  have "(p + n + (65536 - n)) mod 65536 = p mod 65536" using Cons.prems by simp
  then have "(put m (p + n) bs)(p mod 65536 := a) = put (m(p mod 65536 := a)) (p + n) bs"
    using put_upd_commute [of bs "65536 - n" "65536 - n" m "p + n" a] Cons.prems n by simp
  moreover have "put (put (m(p mod 65536 := a)) (Suc p + n') bs) (Suc p) as
      = put (put (m(p mod 65536 := a)) (Suc p) as) (Suc p + n') bs"
    using Cons.prems n by (intro Cons.IH) auto
  ultimately show ?case unfolding put.simps n by (simp only: add_Suc add_Suc_right)
qed simp

lemma put_mod: "put m (p mod 65536) bs = put m p bs"
proof (induction bs arbitrary: m p)
  case (Cons b bs)
  have "put m' (Suc (p mod 65536)) bs = put m' (Suc p) bs" for m'
    using Cons [of m' "Suc (p mod 65536)"] Cons [of m' "Suc p"] by (simp add: mod_Suc_eq)
  then show ?case by simp
qed simp

section \<open>Writing the fields\<close>

lemma emitsD:
  assumes "emits w bs" and "unat pos < 65536"
  shows "w (m, pos) = (of_nat (length bs), put m (unat pos) bs, gator_buf_pos (pos + of_nat (length bs)))"
  using assms by (simp add: emits_def)

lemma gator_buf_pos_pos:
  assumes "unat pos < 65536" and "a + b \<le> 65536"
  shows "gator_buf_pos (gator_buf_pos (pos + of_nat a) + of_nat b) = gator_buf_pos (pos + of_nat (a + b))"
proof -
  have "unat (gator_buf_pos (gator_buf_pos (pos + of_nat a) + of_nat b))
      = (unat (gator_buf_pos (pos + of_nat a)) + b) mod 65536"
    using assms by (intro gator_buf_pos_add) (simp_all add: unat_gator_buf_pos)
  also have "\<dots> = unat (gator_buf_pos (pos + of_nat (a + b)))"
    using assms by (simp only: gator_buf_pos_add mod_add_left_eq add.assoc)
  finally show ?thesis by (simp add: word_unat_eq_iff)
qed

lemma write_fields_emits:
  "list_all2 emits ws bss \<Longrightarrow> unat pos < 65536 \<Longrightarrow> length (concat bss) \<le> 65536 \<Longrightarrow>
     write_fields ws (len, m, pos) = (len + of_nat (length (concat bss)), put m (unat pos) (concat bss),
       gator_buf_pos (pos + of_nat (length (concat bss))))"
proof (induction ws bss arbitrary: len m pos rule: list_all2_induct)
  case Nil
  then show ?case by (simp add: word_unat_eq_iff unat_gator_buf_pos)
next
  case (Cons w ws bs bss)
  let ?p = "gator_buf_pos (pos + of_nat (length bs))"
  have "write_fields (w # ws) (len, m, pos) = write_fields ws (len + of_nat (length bs), put m (unat pos) bs, ?p)"
    by (simp add: emitsD [OF Cons.hyps(1) Cons.prems(1)])
  also have "\<dots> = (len + of_nat (length bs) + of_nat (length (concat bss)),
      put (put m (unat pos) bs) (unat ?p) (concat bss), gator_buf_pos (?p + of_nat (length (concat bss))))"
    using Cons.prems by (intro Cons.IH) (simp_all add: unat_gator_buf_pos)
  also have "unat ?p = (unat pos + length bs) mod 65536"
    using Cons.prems by (intro gator_buf_pos_add) auto
  also have "gator_buf_pos (?p + of_nat (length (concat bss)))
      = gator_buf_pos (pos + of_nat (length bs + length (concat bss)))"
    using Cons.prems by (intro gator_buf_pos_pos) auto
  finally show ?case by (simp add: put_mod put_append add.assoc)
qed

lemma write_message_enqueue:
  assumes "thread_wf th" and "list_all2 emits ws bss" and "5 + length (concat bss) \<le> 65536"
  shows "fst (write_message marker ws th) = enqueue (frame marker (concat bss)) th"
proof -
  let ?bs = "concat bss" and ?p = "unat (write_pos th)"
  let ?wp = "gator_buf_pos (write_pos th + 1)" and ?m = "put (buf th) ?p [marker]"
  have p: "?p < 65536" using assms(1) by (simp add: thread_wf_def)
  have wp: "unat ?wp = Suc ?p mod 65536" "unat (gator_buf_pos (?wp + 4)) = (?p + 5) mod 65536"
    using gator_buf_pos_add [of "write_pos th" 1] gator_buf_pos_pos [of "write_pos th" 1 4]
      gator_buf_pos_add [of "write_pos th" 5] p by simp_all
  have wf1: "unat (gator_buf_pos (?wp + 4)) < 65536" "unat ?wp < 65536" by (simp_all add: wp)
  have msg_begin: "gator_msg_begin marker th = (th\<lparr>buf := ?m\<rparr>, gator_buf_pos (?wp + 4), ?wp, 0)"
    using emitsD [OF emits_byte [of marker] p] by (simp add: gator_msg_begin_def)
  have fields: "write_fields ws (0, ?m, gator_buf_pos (?wp + 4)) = (of_nat (length ?bs), put ?m (?p + 5) ?bs,
      gator_buf_pos (gator_buf_pos (?wp + 4) + of_nat (length ?bs)))"
    using write_fields_emits [OF assms(2) wf1(1), of 0 ?m] assms(3) by (simp add: wp put_mod)
  have "gator_buf_pos (gator_buf_pos (?wp + 4) + of_nat (length ?bs))
      = gator_buf_pos (write_pos th + of_nat (5 + length ?bs))"
    using gator_buf_pos_pos [of "write_pos th" 1 4] gator_buf_pos_pos [of "write_pos th" 5 "length ?bs"] p assms(3)
    by simp
  moreover have "put (put ?m (?p + 5) ?bs) (unat ?wp) (le32 (of_nat (length ?bs)))
      = put (buf th) ?p (frame marker ?bs)"
  proof -
    have "put (put ?m (Suc ?p + 4) ?bs) (Suc ?p) (le32 (of_nat (length ?bs)))
        = put (put ?m (Suc ?p) (le32 (of_nat (length ?bs)))) (Suc ?p + 4) ?bs"
      using assms(3) by (intro put_swap) auto
    then show ?thesis by (simp add: wp put_mod frame_def put_append add.commute [of 5])
  qed
  ultimately show ?thesis
    using msg_begin fields emitsD [OF emits_uint32 wf1(2)]
    by (simp add: write_message_def gator_msg_end_def enqueue_def Let_def)
qed

section \<open>The annotations as data\<close>

datatype annotation =
  Annotate_str u32 cstring
| Annotate_color u32 u32 cstring
| Name_channel u32 u32 cstring
| Name_group u32 cstring
| Marker cstring
| Marker_color u32 cstring
| Counter_value u32 u32 u32
| Activity_switch u32 u32 u32 u32
| Cam_job u32 u32 cstring u32 u64 u64 u32 u32 "u32 list"
| Cam_job_start u32 u32 cstring u32 u64 u32
| Cam_job_set_dependencies u32 u32 u64 u32 "u32 list"
| Cam_job_stop u32 u32 u64

fun annotate :: "call_env \<Rightarrow> nat \<Rightarrow> annotation \<Rightarrow> gator_state \<Rightarrow> gator_state option" where
  "annotate env c (Annotate_str ch s) = gator_annotate_str env c ch s"
| "annotate env c (Annotate_color ch col s) = gator_annotate_color env c ch col s"
| "annotate env c (Name_channel ch g s) = gator_annotate_name_channel env c ch g s"
| "annotate env c (Name_group g s) = gator_annotate_name_group env c g s"
| "annotate env c (Marker s) = gator_annotate_marker env c s"
| "annotate env c (Marker_color col s) = gator_annotate_marker_color env c col s"
| "annotate env c (Counter_value core i v) = gator_annotate_counter_value env c core i v"
| "annotate env c (Activity_switch core i act t) = gator_annotate_activity_switch env c core i act t"
| "annotate env c (Cam_job v j s t st d col p deps) = gator_cam_job env c v j s t st d col p deps"
| "annotate env c (Cam_job_start v j s t tm col) = gator_cam_job_start env c v j s t tm col"
| "annotate env c (Cam_job_set_dependencies v j tm p deps) = gator_cam_job_set_dependencies env c v j tm p deps"
| "annotate env c (Cam_job_stop v j tm) = gator_cam_job_stop env c v j tm"

text \<open>The specification: header, payload and the room that a call asks for, as plain numbers.\<close>

fun header :: "annotation \<Rightarrow> byte" where
  "header (Annotate_str _ _) = 1"
| "header (Annotate_color _ _ _) = 2"
| "header (Name_channel _ _ _) = 3"
| "header (Name_group _ _) = 4"
| "header (Marker _) = 6"
| "header (Marker_color _ _) = 7"
| "header (Counter_value _ _ _) = 9"
| "header (Activity_switch _ _ _ _) = 10"
| "header (Cam_job _ _ _ _ _ _ _ _ _) = 12"
| "header (Cam_job_start _ _ _ _ _ _) = 14"
| "header (Cam_job_set_dependencies _ _ _ _ _) = 15"
| "header (Cam_job_stop _ _ _) = 16"

abbreviation packed :: "'a::len word \<Rightarrow> byte list" where
  "packed x \<equiv> leb (sint x)"

fun parts :: "u64 \<Rightarrow> annotation \<Rightarrow> byte list list" where
  "parts now (Annotate_str ch s) = [packed now, packed ch, cbytes s]"
| "parts now (Annotate_color ch col s) = [packed now, packed ch, color_bytes col, cbytes s]"
| "parts now (Name_channel ch g s) = [packed now, packed ch, packed g, cbytes s]"
| "parts now (Name_group g s) = [packed now, packed g, cbytes s]"
| "parts now (Marker s) = [packed now, cbytes s]"
| "parts now (Marker_color col s) = [packed now, color_bytes col, cbytes s]"
| "parts now (Counter_value core i v) = [packed now, packed core, packed i, packed v]"
| "parts now (Activity_switch core i act t) = [packed now, packed core, packed i, packed act, packed t]"
| "parts now (Cam_job v j s t st d col p deps) = [packed v, packed j, packed t, packed st, packed d,
     color_bytes col, packed p, packed (of_nat (length deps) :: u32)] @ map packed deps @ [cbytes s]"
| "parts now (Cam_job_start v j s t tm col) =
     [packed v, packed j, packed t, packed tm, color_bytes col, cbytes s]"
| "parts now (Cam_job_set_dependencies v j tm p deps) =
     [packed v, packed j, packed tm, packed p, packed (of_nat (length deps) :: u32)] @ map packed deps"
| "parts now (Cam_job_stop v j tm) = [packed v, packed j, packed tm]"

definition payload :: "u64 \<Rightarrow> annotation \<Rightarrow> byte list" where
  "payload now msg = concat (parts now msg)"

fun reserve :: "annotation \<Rightarrow> nat" where
  "reserve (Annotate_str ch s) = 20 + length (cbytes s)"
| "reserve (Annotate_color ch col s) = 24 + length (cbytes s)"
| "reserve (Name_channel ch g s) = 25 + length (cbytes s)"
| "reserve (Name_group g s) = 20 + length (cbytes s)"
| "reserve (Marker s) = 15 + length (cbytes s)"
| "reserve (Marker_color col s) = 19 + length (cbytes s)"
| "reserve (Counter_value core i v) = 30"
| "reserve (Activity_switch core i act t) = 35"
| "reserve (Cam_job v j s t st d col p deps) = 54 + 5 * length deps + length (cbytes s)"
| "reserve (Cam_job_start v j s t tm col) = 34 + length (cbytes s)"
| "reserve (Cam_job_set_dependencies v j tm p deps) = 35 + 5 * length deps"
| "reserve (Cam_job_stop v j tm) = 25"

fun fields :: "call_env \<Rightarrow> annotation \<Rightarrow> writer list" where
  "fields env (Annotate_str ch s) = [write_now env, gator_buf_write_int ch, write_cstring s]"
| "fields env (Annotate_color ch col s) =
     [write_now env, gator_buf_write_int ch, gator_buf_write_color col, write_cstring s]"
| "fields env (Name_channel ch g s) =
     [write_now env, gator_buf_write_int ch, gator_buf_write_int g, write_cstring s]"
| "fields env (Name_group g s) = [write_now env, gator_buf_write_int g, write_cstring s]"
| "fields env (Marker s) = [write_now env, write_cstring s]"
| "fields env (Marker_color col s) = [write_now env, gator_buf_write_color col, write_cstring s]"
| "fields env (Counter_value core i v) =
     [write_now env, gator_buf_write_int core, gator_buf_write_int i, gator_buf_write_int v]"
| "fields env (Activity_switch core i act t) =
     [write_now env, gator_buf_write_int core, gator_buf_write_int i, gator_buf_write_int act, gator_buf_write_int t]"
| "fields env (Cam_job v j s t st d col p deps) =
     [gator_buf_write_int v, gator_buf_write_int j, gator_buf_write_int t, gator_buf_write_long st,
      gator_buf_write_long d, gator_buf_write_color col, gator_buf_write_int p,
      gator_buf_write_int (of_nat (length deps))] @ map gator_buf_write_int deps @ [write_cstring s]"
| "fields env (Cam_job_start v j s t tm col) =
     [gator_buf_write_int v, gator_buf_write_int j, gator_buf_write_int t, gator_buf_write_long tm,
      gator_buf_write_color col, write_cstring s]"
| "fields env (Cam_job_set_dependencies v j tm p deps) =
     [gator_buf_write_int v, gator_buf_write_int j, gator_buf_write_long tm, gator_buf_write_int p,
      gator_buf_write_int (of_nat (length deps))] @ map gator_buf_write_int deps"
| "fields env (Cam_job_stop v j tm) = [gator_buf_write_int v, gator_buf_write_int j, gator_buf_write_long tm]"

lemmas header_defs = HEADER_UTF8_def HEADER_UTF8_COLOR_def HEADER_CHANNEL_NAME_def HEADER_GROUP_NAME_def
  HEADER_VISUAL_def HEADER_MARKER_def HEADER_MARKER_COLOR_def HEADER_COUNTER_def HEADER_COUNTER_VALUE_def
  HEADER_ACTIVITY_SWITCH_def HEADER_CAM_TRACK_def HEADER_CAM_JOB_def HEADER_CAM_VIEW_NAME_def
  HEADER_CAM_JOB_START_def HEADER_CAM_JOB_SET_DEPS_def HEADER_CAM_JOB_STOP_def

lemmas size_defs = SIZE_COLOR_def MAXSIZE_PACK_INT_def MAXSIZE_PACK_LONG_def csize_def

lemmas call_defs = gator_annotate_str_def gator_annotate_color_def gator_annotate_name_channel_def
  gator_annotate_name_group_def gator_annotate_marker_def gator_annotate_marker_color_def
  gator_annotate_counter_value_def gator_annotate_activity_switch_def gator_cam_job_def
  gator_cam_job_start_def gator_cam_job_set_dependencies_def gator_cam_job_stop_def

lemma annotate_put:
  "annotate env c msg
     = with_thread env c (\<lambda>a. put_message a (of_nat (reserve msg)) (header msg) (fields env msg))"
  by (cases msg) (simp_all add: call_defs header_defs size_defs mult.commute)

lemma emits_cstring [wf_intros]: "length (cbytes s) \<le> 65536 \<Longrightarrow> emits (write_cstring s) (cbytes s)"
  by (simp add: write_cstring_def emits_bytes)

lemma emits_ints [wf_intros]: "list_all2 emits (map gator_buf_write_int xs) (map packed xs)"
  by (induction xs) (simp_all add: emits_int)

lemma fields_emit:
  assumes "reserve msg \<le> 65536"
  shows "list_all2 emits (fields env msg) (parts (gator_get_time (env_clock env)) msg)"
  using assms by (cases msg) (auto intro!: wf_intros list_all2_appendI)

lemma length_packed_ints: "length (concat (map packed (xs :: u32 list))) \<le> 5 * length xs"
proof (induction xs)
  case (Cons x xs)
  then show ?case using leb_int_length [of x] by simp
qed simp

lemma frame_reserved: "length (frame (header msg) (payload now msg)) \<le> reserve msg"
proof -
  have i: "length (packed (x :: u32)) \<le> 5" for x by (rule leb_int_length)
  have l: "length (packed (x :: u64)) \<le> 10" for x by (rule leb_long_length)
  show ?thesis
  proof (cases msg)
    case (Annotate_str ch s)
    then show ?thesis using l [of now] i [of ch] by (simp add: payload_def)
  next
    case (Annotate_color ch col s)
    then show ?thesis using l [of now] i [of ch] by (simp add: payload_def)
  next
    case (Name_channel ch g s)
    then show ?thesis using l [of now] i [of ch] i [of g] by (simp add: payload_def)
  next
    case (Name_group g s)
    then show ?thesis using l [of now] i [of g] by (simp add: payload_def)
  next
    case (Marker s)
    then show ?thesis using l [of now] by (simp add: payload_def)
  next
    case (Marker_color col s)
    then show ?thesis using l [of now] by (simp add: payload_def)
  next
    case (Counter_value core k v)
    then show ?thesis using l [of now] i [of core] i [of k] i [of v] by (simp add: payload_def)
  next
    case (Activity_switch core k act t)
    then show ?thesis using l [of now] i [of core] i [of k] i [of act] i [of t] by (simp add: payload_def)
  next
    case (Cam_job v j s t st d col p deps)
    then show ?thesis
      using l [of st] l [of d] i [of v] i [of j] i [of t] i [of p] i [of "of_nat (length deps)"]
        length_packed_ints [of deps] by (simp add: payload_def)
  next
    case (Cam_job_start v j s t tm col)
    then show ?thesis using l [of tm] i [of v] i [of j] i [of t] by (simp add: payload_def)
  next
    case (Cam_job_set_dependencies v j tm p deps)
    then show ?thesis
      using l [of tm] i [of v] i [of j] i [of p] i [of "of_nat (length deps)"] length_packed_ints [of deps]
      by (simp add: payload_def)
  next
    case (Cam_job_stop v j tm)
    then show ?thesis using l [of tm] i [of v] i [of j] by (simp add: payload_def)
  qed
qed

section \<open>The invariant of the process\<close>

definition gator_wf :: "gator_state \<Rightarrow> bool" where
  "gator_wf gs \<longleftrightarrow> distinct (map fst (threads gs))
     \<and> (\<forall>(a, th) \<in> set (threads gs). thread_wf th \<and> a < heap_top gs)"

lemma thread_at_wf: "gator_wf gs \<Longrightarrow> thread_at gs a = Some th \<Longrightarrow> thread_wf th"
  by (auto simp: gator_wf_def thread_at_def dest!: map_of_SomeD)

lemma thread_at_update [simp]:
  "thread_at (gs\<lparr>kernel_of := k\<rparr>) = thread_at gs"
  "thread_at (gs\<lparr>sender_sem := n\<rparr>) = thread_at gs"
  "thread_at (gs\<lparr>sync_sem := n\<rparr>) = thread_at gs"
  "thread_at (gs\<lparr>sync_waiter_sem := n\<rparr>) = thread_at gs"
  "thread_at (gs\<lparr>sender_last := t\<rparr>) = thread_at gs"
  "thread_at (gs\<lparr>resend_state := b\<rparr>) = thread_at gs"
  "thread_at (gs\<lparr>capturing := b\<rparr>) = thread_at gs"
  "thread_at (gs\<lparr>parent_fd := i\<rparr>) = thread_at gs"
  by (simp_all add: thread_at_def fun_eq_iff)

lemma gator_wf_update [simp]:
  "gator_wf (gs\<lparr>kernel_of := k\<rparr>) = gator_wf gs"
  "gator_wf (gs\<lparr>sender_sem := n\<rparr>) = gator_wf gs"
  "gator_wf (gs\<lparr>sync_sem := n\<rparr>) = gator_wf gs"
  "gator_wf (gs\<lparr>sync_waiter_sem := n\<rparr>) = gator_wf gs"
  "gator_wf (gs\<lparr>sender_last := t\<rparr>) = gator_wf gs"
  "gator_wf (gs\<lparr>resend_state := b\<rparr>) = gator_wf gs"
  "gator_wf (gs\<lparr>capturing := b\<rparr>) = gator_wf gs"
  "gator_wf (gs\<lparr>parent_fd := i\<rparr>) = gator_wf gs"
  "gator_wf (gs\<lparr>counters := cs\<rparr>) = gator_wf gs"
  "gator_wf (gs\<lparr>forked := b\<rparr>) = gator_wf gs"
  "gator_wf (gs\<lparr>senders := n\<rparr>) = gator_wf gs"
  by (simp_all add: gator_wf_def)

lemma map_of_set: "map_of (map (\<lambda>(b, t). (b, if b = a then x else t)) xs) c
    = (if c = a then map_option (\<lambda>_. x) (map_of xs a) else map_of xs c)"
  by (induction xs) auto

lemma thread_at_set [simp]:
  "thread_at (set_thread a th gs) b
     = (if b = a then map_option (\<lambda>_. th) (thread_at gs a) else thread_at gs b)"
  by (simp add: thread_at_def set_thread_def map_of_set)

lemma set_thread_fields [simp]:
  "capturing (set_thread a th gs) = capturing gs" "senders (set_thread a th gs) = senders gs"
  "parent_fd (set_thread a th gs) = parent_fd gs" "kernel_of (set_thread a th gs) = kernel_of gs"
  "map fst (threads (set_thread a th gs)) = map fst (threads gs)"
  by (simp_all add: set_thread_def comp_def case_prod_unfold)

lemma gator_wf_set [wf_intros]: "gator_wf gs \<Longrightarrow> thread_wf th \<Longrightarrow> gator_wf (set_thread a th gs)"
  by (auto simp: gator_wf_def set_thread_def comp_def case_prod_unfold)

lemma stop_thread_wf: "thread_wf th \<Longrightarrow> thread_wf (stop_thread th)"
  by (simp add: thread_wf_def stop_thread_def)

lemma gator_wf_stop [wf_intros]: "gator_wf gs \<Longrightarrow> gator_wf (gator_stop_capturing gs)"
  by (auto simp: gator_wf_def gator_stop_capturing_def comp_def case_prod_unfold stop_thread_wf)

lemma gator_wf_start [wf_intros]: "gator_wf gs \<Longrightarrow> gator_wf (gator_start_capturing gs)"
  by (simp add: gator_start_capturing_def)

lemma send_oob_wf: "send_oob n b th k = (ok, th', k') \<Longrightarrow> thread_wf th \<Longrightarrow> thread_wf th'"
  by (auto simp: send_oob_def thread_wf_def split: if_splits prod.splits)

lemma thread_wf_read: "thread_wf th \<Longrightarrow> thread_wf (th\<lparr>read_pos := gator_buf_pos p\<rparr>)"
  by (simp add: thread_wf_def unat_gator_buf_pos)

lemma send_ring_wf: "send_ring th n k = (b, th', k') \<Longrightarrow> thread_wf th \<Longrightarrow> thread_wf th'"
  by (auto simp: send_ring_def thread_wf_read split: if_splits prod.splits)

lemma gator_send_wf:
  "gator_send th wp k = (ok, th', k') \<Longrightarrow> thread_wf th \<Longrightarrow> thread_wf th'"
  by (auto simp: gator_send_def Let_def thread_wf_read dest!: send_ring_wf send_oob_wf
      split: if_splits prod.splits)

lemma thread_wf_update [simp]:
  "thread_wf (th\<lparr>fd := f\<rparr>) = thread_wf th" "thread_wf (th\<lparr>sem := n\<rparr>) = thread_wf th"
  by (simp_all add: thread_wf_def)

lemma transmit_cases:
  assumes "thread_at gs a = Some th"
  obtains (stopped) f k where "transmit a gs = gator_stop_capturing (set_thread a (th\<lparr>fd := f\<rparr>) (gs\<lparr>kernel_of := k\<rparr>))"
  | (sending) f k where "transmit a gs = transmit_on a (th\<lparr>fd := f\<rparr>) (set_thread a (th\<lparr>fd := f\<rparr>) (gs\<lparr>kernel_of := k\<rparr>))"
proof -
  obtain f k where "(if fd th < 0 then gator_connect (tid th) (pid gs) (gator_dont_mangle_keys gs) (kernel_of gs)
      else (fd th, kernel_of gs)) = (f, k)" by fastforce
  then show ?thesis using assms stopped [of f k] sending [of f k]
    by (cases "f < 0") (simp_all add: transmit_def Let_def del: split_paired_All)
qed

lemma transmit_on_cases:
  obtains (idle) "write_pos th = read_pos th" "oob_length th = 0" "transmit_on a th gs = gs"
  | (delivered) th' k where "gator_send th (write_pos th) (kernel_of gs) = (True, th', k)"
      "transmit_on a th gs = set_thread a (th'\<lparr>sem := Suc (sem th')\<rparr>) (set_thread a th' (gs\<lparr>kernel_of := k\<rparr>))"
  | (broken) th' k where "gator_send th (write_pos th) (kernel_of gs) = (False, th', k)"
      "transmit_on a th gs = gator_stop_capturing (set_thread a th' (gs\<lparr>kernel_of := k\<rparr>))"
proof (cases "gator_send th (write_pos th) (kernel_of gs)")
  case (fields ok th' k)
  then show ?thesis
    by (cases ok; cases "write_pos th \<noteq> read_pos th \<or> 0 < oob_length th")
      (auto simp: transmit_on_def Let_def intro: that)
qed

lemma gator_wf_transmit_on: "gator_wf gs \<Longrightarrow> thread_wf th \<Longrightarrow> gator_wf (transmit_on a th gs)"
  by (rule transmit_on_cases [of th a gs])
    (auto dest!: gator_send_wf intro!: gator_wf_set gator_wf_stop)

lemma gator_wf_transmit [wf_intros]:
  assumes "gator_wf gs"
  shows "gator_wf (transmit a gs)"
proof (cases "thread_at gs a")
  case (Some th)
  have "thread_wf th" using thread_at_wf [OF assms Some] .
  then show ?thesis using transmit_cases [OF Some] assms
    by (metis gator_wf_set gator_wf_stop gator_wf_transmit_on gator_wf_update(1) thread_wf_update(1))
qed (simp add: transmit_def assms)

lemma gator_wf_reap [wf_intros]: "gator_wf gs \<Longrightarrow> gator_wf (reap a gs)"
  by (auto simp: gator_wf_def reap_def Let_def distinct_map_filter split: option.splits)

lemma gator_wf_serve [wf_intros]: "gator_wf gs \<Longrightarrow> gator_wf (serve a gs)"
  by (simp add: serve_def gator_wf_reap gator_wf_transmit)

lemma gator_wf_serve_all: "gator_wf gs \<Longrightarrow> gator_wf (fold serve as gs)"
  by (induction as arbitrary: gs) (simp_all add: gator_wf_serve)

lemma gator_wf_connect: "gator_wf gs \<Longrightarrow> gator_wf (snd (sender_connect gs))"
  by (auto simp: sender_connect_def gator_parent_connect_def intro!: wf_intros split: prod.splits if_splits)

lemma gator_wf_resume: "gator_wf gs \<Longrightarrow> gator_wf (snd (sender_resume gs))"
  by (auto simp: sender_resume_def intro!: wf_intros split: prod.splits)

lemma gator_wf_wait: "gator_wf gs \<Longrightarrow> gator_wf (sender_wait gs)"
  by (simp add: sender_wait_def Let_def)

lemma gator_wf_turn [wf_intros]:
  assumes "gator_wf gs"
  shows "gator_wf (gator_func_turn gs)"
proof -
  obtain ok gs1 where 1: "sender_connect gs = (ok, gs1)" by (cases "sender_connect gs")
  obtain ok' gs2 where 2: "sender_resume gs1 = (ok', gs2)" by (cases "sender_resume gs1")
  have "gator_wf gs1" "gator_wf gs2"
    using gator_wf_connect [OF assms] gator_wf_resume [of gs1] 1 2 by simp_all
  then show ?thesis
    by (simp add: gator_func_turn_def 1 2 Let_def gator_wf_serve_all gator_wf_wait)
qed

lemma sem_wait_wf:
  "sem_wait_thread a gs = Some gs' \<Longrightarrow> gator_wf gs \<Longrightarrow> gator_wf gs'"
proof (induction rule: sem_wait_thread.raw_induct [rotated, consumes 1, case_names step])
  case (step f a gs gs')
  have "thread_wf (th\<lparr>sem := n\<rparr>)" if "thread_at gs a = Some th" for th n
    using thread_at_wf [OF step(3) that] by simp
  with step show ?case by (auto split: option.splits if_splits intro!: wf_intros)
qed

lemma wait_bytes_wf:
  "gator_buf_wait_bytes a n gs = Some gs' \<Longrightarrow> gator_wf gs \<Longrightarrow>
     gator_wf gs' \<and> (\<exists>th. thread_at gs' a = Some th \<and> n \<le> gator_buf_free th)"
proof (induction rule: gator_buf_wait_bytes.raw_induct [rotated, consumes 1, case_names step])
  case (step f a n gs gs')
  have "gator_wf (post_sender gs)" using step(3) by (simp add: post_sender_def)
  with step show ?case by (auto split: option.splits if_splits dest: sem_wait_wf)
qed

end
