(* ===== verification/Annotate_Runs.thy ===== *)
theory Annotate_Runs
  imports Annotate_Spec
begin

text \<open>
  The annotation calls and the sender together: a call appends one frame to the queue of its
  thread, frames reach the daemon in order and can be decoded, a call that waits for room returns as
  long as the sender runs, and the cases in which the code does not do so.
\<close>

section \<open>A call appends a frame\<close>

lemma unat_of_nat_small: "n < 2 ^ 32 \<Longrightarrow> unat (of_nat n :: u32) = n"
  by (simp add: unat_of_nat)

lemma put_message_enqueues:
  assumes wf: "gator_wf gs" and ws: "list_all2 emits ws bss" and n: "5 + length (concat bss) \<le> n" "n \<le> 32768"
    and put: "put_message a (of_nat n) marker ws gs = Some gs'"
  obtains gs2 th where "gator_buf_wait_bytes a (of_nat n) gs = Some gs2" and "thread_at gs2 a = Some th"
    and "n \<le> unat (gator_buf_free th)" and "thread_at gs' a = Some (enqueue (frame marker (concat bss)) th)"
    and "pending (enqueue (frame marker (concat bss)) th) = pending th @ frame marker (concat bss)"
    and "\<forall>b. b \<noteq> a \<longrightarrow> thread_at gs' b = thread_at gs2 b" and "gator_wf gs'"
proof -
  have u: "unat (of_nat n :: u32) = n" using n by (intro unat_of_nat_small) simp
  have "\<not> of_nat (THREAD_BUFFER_SIZE div 2) < (of_nat n :: u32)"
    using n u by (simp add: word_less_nat_alt THREAD_BUFFER_SIZE_def)
  then obtain gs2 th th' wake where w: "gator_buf_wait_bytes a (of_nat n) gs = Some gs2"
    and th: "thread_at gs2 a = Some th" and msg: "write_message marker ws th = (th', wake)"
    and gs': "gs' = (if wake then post_sender (set_thread a th' gs2) else set_thread a th' gs2)"
    using put by (auto simp: put_message_def Let_def split: option.splits prod.splits if_splits)
  from wait_bytes_wf [OF w wf] th have wf2: "gator_wf gs2" and free: "n \<le> unat (gator_buf_free th)"
    using u by (auto simp: word_le_nat_alt)
  have thwf: "thread_wf th" using thread_at_wf [OF wf2 th] .
  have th': "th' = enqueue (frame marker (concat bss)) th"
  proof -
    have "5 + length (concat bss) \<le> 65536" using n by simp
    from write_message_enqueue [OF thwf ws this, of marker] msg show ?thesis by simp
  qed
  have pend: "pending th' = pending th @ frame marker (concat bss)"
    unfolding th' using thwf free n by (intro ringq.pending_enqueue) auto
  have "gator_wf (set_thread a th' gs2)"
    unfolding th' using wf2 thwf by (intro gator_wf_set thread_wf_enqueue)
  then have "gator_wf gs'" unfolding gs' by (simp add: post_sender_def)
  moreover have "thread_at gs' a = Some th'" "\<forall>b. b \<noteq> a \<longrightarrow> thread_at gs' b = thread_at gs2 b"
    unfolding gs' using th by (simp_all add: post_sender_def)
  ultimately show ?thesis using that w th free pend unfolding th' by blast
qed

lemma resend_wf:
  assumes "\<And>i gs gs'. gator_wf gs \<Longrightarrow> f i gs = Some gs' \<Longrightarrow> gator_wf gs'"
  shows "gator_wf gs \<Longrightarrow> resend f is gs = Some gs' \<Longrightarrow> gator_wf gs'"
proof (induction "is" arbitrary: gs)
  case (Cons i "is")
  then show ?case by (auto split: option.splits intro: assms)
qed simp

text \<open>Every writer leaves the position inside the buffer, whatever it writes.\<close>

definition masks :: "writer \<Rightarrow> bool" where
  "masks w \<longleftrightarrow> (\<forall>m pos. unat (snd (snd (w (m, pos)))) < 65536)"

lemma masks_writers [simp]:
  "masks (gator_buf_write_byte b)" "masks (gator_buf_write_uint32 i)" "masks (gator_buf_write_color i)"
  "masks (gator_buf_write_int x)" "masks (gator_buf_write_long y)" "masks (gator_buf_write_time t)"
  "masks (write_cstring s)"
  by (auto simp: masks_def gator_buf_write_byte_def gator_buf_write_uint32_def gator_buf_write_color_def
      gator_buf_write_int_def gator_buf_write_long_def gator_buf_write_time_def write_cstring_def
      gator_buf_write_bytes_def unat_gator_buf_pos Let_def split: prod.splits)

lemma write_fields_masks:
  "list_all masks ws \<Longrightarrow> unat pos < 65536 \<Longrightarrow> write_fields ws (len, m, pos) = (len', m', pos') \<Longrightarrow>
     unat pos' < 65536"
proof (induction ws arbitrary: len m pos)
  case (Cons w ws)
  obtain n m1 p1 where w: "w (m, pos) = (n, m1, p1)" by (cases "w (m, pos)") auto
  then have "unat p1 < 65536" using Cons.prems(1) by (simp add: masks_def) (metis snd_conv)
  then show ?case using Cons.IH [of p1 "len + n" m1] Cons.prems w by simp
qed simp

lemma write_message_wf:
  assumes "thread_wf th" and "list_all masks ws"
  shows "thread_wf (fst (write_message marker ws th))"
proof -
  let ?wp = "gator_buf_pos (gator_buf_pos (write_pos th + 1) + 4)"
  obtain len m wp where w: "write_fields ws (0, store (write_pos th) marker (buf th), ?wp) = (len, m, wp)"
    by (metis prod.exhaust)
  have "unat wp < 65536" by (rule write_fields_masks [OF assms(2) _ w]) (simp add: unat_gator_buf_pos)
  then show ?thesis
    using assms(1) w by (simp add: write_message_def gator_msg_begin_def gator_buf_write_byte_def
        gator_msg_end_def gator_buf_write_uint32_def thread_wf_def Let_def)
qed

lemma put_message_wf:
  assumes "gator_wf gs" and "list_all masks ws" and "put_message a n marker ws gs = Some gs'"
  shows "gator_wf gs'"
proof (cases "of_nat (THREAD_BUFFER_SIZE div 2) < n")
  case True
  then show ?thesis using assms by (simp add: put_message_def)
next
  case False
  then obtain gs2 th th' wake where w: "gator_buf_wait_bytes a n gs = Some gs2"
    and th: "thread_at gs2 a = Some th" and msg: "write_message marker ws th = (th', wake)"
    and gs': "gs' = (if wake then post_sender (set_thread a th' gs2) else set_thread a th' gs2)"
    using assms(3) by (auto simp: put_message_def Let_def split: option.splits prod.splits if_splits)
  have "gator_wf gs2" using wait_bytes_wf [OF w assms(1)] by simp
  moreover from this have "thread_wf th'"
    using write_message_wf [OF thread_at_wf [OF _ th] assms(2), of marker] msg by simp
  ultimately show ?thesis unfolding gs' by (simp add: post_sender_def gator_wf_set)
qed

lemma counter_fields_masks: "list_all masks (counter_fields c)"
  by (auto simp: counter_fields_def list_all_iff activity_fields_def)

lemma stored_items_wf:
  "gator_wf gs \<Longrightarrow> gator_annotate_write_counter a c gs = Some gs' \<Longrightarrow> gator_wf gs'"
  "gator_wf gs \<Longrightarrow> gator_annotate_write_cam_track a t gs = Some gs' \<Longrightarrow> gator_wf gs'"
  "gator_wf gs \<Longrightarrow> gator_annotate_write_cam_name a n gs = Some gs' \<Longrightarrow> gator_wf gs'"
  by (auto simp: gator_annotate_write_counter_def gator_annotate_write_cam_track_def
      gator_annotate_write_cam_name_def intro: put_message_wf counter_fields_masks
      elim!: put_message_wf [rotated 2])

lemma resend_items_wf:
  assumes "gator_wf gs" and "resend_items a gs = Some gs'"
  shows "gator_wf gs'"
proof -
  obtain gs1 gs2 where r: "resend (gator_annotate_write_counter a) (counters gs) gs = Some gs1"
    "resend (gator_annotate_write_cam_track a) (cam_tracks gs1) gs1 = Some gs2"
    "resend (gator_annotate_write_cam_name a) (cam_names gs2) gs2 = Some gs'"
    using assms(2) by (auto simp: resend_items_def split: option.splits)
  have "gator_wf gs1" by (blast intro: resend_wf [OF _ _ r(1)] stored_items_wf(1) assms(1))
  then have "gator_wf gs2" by (blast intro: resend_wf [OF _ _ r(2)] stored_items_wf(2))
  then show ?thesis by (blast intro: resend_wf [OF _ _ r(3)] stored_items_wf(3))
qed

lemma gator_wf_new: "gator_wf gs \<Longrightarrow> gator_wf (snd (new_gator_thread env c gs))"
  by (auto simp: new_gator_thread_def gator_wf_def Let_def thread_wf_def new_thread_def less_Suc_eq
      split: prod.splits)

lemma gator_wf_func_begin: "gator_wf gs \<Longrightarrow> gator_wf (gator_func_begin b gs)"
  by (simp add: gator_func_begin_def)

lemma gator_wf_restart: "gator_wf gs \<Longrightarrow> gator_wf (snd (restart_sender env gs))"
  by (simp add: restart_sender_def gator_wf_func_begin)

lemma gator_wf_own: "gator_wf gs \<Longrightarrow> gator_wf (snd (own_thread env c gs))"
  by (simp add: own_thread_def gator_wf_new split: option.splits)

lemma get_thread_wf:
  assumes "gator_wf gs" and "gator_get_thread env c gs = Some (r, gs')"
  shows "gator_wf gs'"
proof -
  obtain ok gs1 where 1: "restart_sender env gs = (ok, gs1)" by (cases "restart_sender env gs")
  obtain a gs2 where 2: "own_thread env c gs1 = (a, gs2)" by (cases "own_thread env c gs1")
  have wf: "gator_wf gs1" "gator_wf gs2"
    using gator_wf_restart [OF assms(1), of env] gator_wf_own [of gs1 env c] 1 2 by simp_all
  consider "gs' = gs1" | "gs' = gs2"
    | b where "resend_items b (gs2\<lparr>resend_state := False\<rparr>) = Some gs'"
    using assms(2) by (simp add: gator_get_thread_def 1 2 split: option.splits if_splits)
  then show ?thesis
  proof cases
    case 3
    then show ?thesis using wf by (auto intro: resend_items_wf [OF _ 3])
  qed (simp_all add: wf)
qed

section \<open>The sender makes room\<close>

text \<open>A thread whose buffer the sender serves: it lives and has no image data waiting.\<close>

definition served :: "gator_thread \<Rightarrow> bool" where
  "served th \<longleftrightarrow> \<not> exited th \<and> oob_length th = 0 \<and> thread_wf th"

text \<open>The thread at \<open>a\<close> has been served since it was \<open>th0\<close>.\<close>

definition progressed :: "nat \<Rightarrow> gator_thread \<Rightarrow> gator_state \<Rightarrow> bool" where
  "progressed a th0 gs \<longleftrightarrow> (\<exists>th. thread_at gs a = Some th \<and> served th \<and> sem th0 < sem th
     \<and> used th < used th0 \<and> (capturing gs \<or> used th = 0))"

lemma used_stop [simp]: "used (stop_thread th) = 0"
  by (simp add: used_def stop_thread_def)

lemma used_update [simp]:
  "used (th\<lparr>sem := n\<rparr>) = used th" "used (th\<lparr>fd := f\<rparr>) = used th"
  by (simp_all add: used_def)

lemma served_update [simp]:
  "served (th\<lparr>sem := n\<rparr>) = served th" "served (th\<lparr>fd := f\<rparr>) = served th"
  "served th \<Longrightarrow> served (stop_thread th)"
  by (simp_all add: served_def stop_thread_wf) (simp_all add: stop_thread_def)

lemma stop_capturing_thread:
  "capturing gs \<Longrightarrow> thread_at (gator_stop_capturing gs) b = map_option stop_thread (thread_at gs b)"
  by (simp add: gator_stop_capturing_def thread_at_def map_of_map)

lemma stop_capturing_off [simp]: "\<not> capturing (gator_stop_capturing gs)"
  by (simp add: gator_stop_capturing_def)

lemma sem_stop [simp]: "sem (stop_thread th) = Suc (sem th)"
  by (simp add: stop_thread_def)

lemma progressed_stop:
  assumes "capturing gs" and "thread_at gs a = Some th" and "served th" and "0 < used th0" and "sem th0 \<le> sem th"
  shows "progressed a th0 (gator_stop_capturing gs)"
  using assms by (simp add: progressed_def stop_capturing_thread)

lemma sent_served:
  assumes "sent n j th k th' k'" and "served th"
  shows "served th'" and "used th' = used th - n" and "sem th' = sem th" and "n \<le> used th"
proof -
  have th': "th' = (dequeue n th)\<lparr>oob_data := drop j (oob_data th), oob_length := oob_length th - j\<rparr>"
    and n: "n \<le> used th" using assms(1) by (auto simp: sent_def)
  have wf: "thread_wf th" using assms(2) by (simp add: served_def)
  show "n \<le> used th" by (rule n)
  have "used th' = used (dequeue n th)" by (simp add: th' used_def)
  then show "used th' = used th - n" using used_dequeue [OF wf n] by simp
  show "sem th' = sem th" by (simp add: th' dequeue_def)
  show "served th'" using assms sent_wf [OF wf assms(1)] by (simp add: served_def th' dequeue_def)
qed

lemma pos_used: "thread_wf th \<Longrightarrow> 0 < used th \<longleftrightarrow> write_pos th \<noteq> read_pos th"
proof -
  assume wf: "thread_wf th"
  have "unat (write_pos th) = unat (read_pos th)" if "used th = 0"
    using write_pos_used [OF wf] wf that by (simp add: thread_wf_def)
  moreover have "used th = 0" if "write_pos th = read_pos th" using that by (simp add: used_def)
  ultimately show ?thesis by (auto simp: word_unat_eq_iff)
qed

lemma transmit_on_progress:
  assumes "capturing gs" and "thread_at gs a = Some th" and "served th" and "0 < used th"
  shows "progressed a th (transmit_on a th gs)"
proof -
  have wf: "thread_wf th" using assms(3) by (simp add: served_def)
  have ne: "write_pos th \<noteq> read_pos th" using assms(4) pos_used [OF wf] by simp
  show ?thesis
  proof (cases rule: transmit_on_cases [of th a gs])
    case idle
    then show ?thesis using ne by simp
  next
    case (delivered th' k)
    obtain n j where "sent n j th (kernel_of gs) th' k" "0 < n"
      using gator_send_sent [OF wf ne delivered(1)] by metis
    with sent_served [OF this(1) assms(3)] show ?thesis
      using assms delivered(2) by (simp add: progressed_def)
  next
    case (broken th' k)
    obtain n j where "sent n j th (kernel_of gs) th' k" using gator_send_sent [OF wf ne broken(1)] by metis
    with sent_served [OF this assms(3)] show ?thesis
      unfolding broken(2) using assms by (intro progressed_stop [where th = th']) auto
  qed
qed

lemma progressed_base: "sem th0 = sem th \<Longrightarrow> used th0 = used th \<Longrightarrow> progressed a th0 gs = progressed a th gs"
  by (simp add: progressed_def)

lemma transmit_progress:
  assumes "capturing gs" and "thread_at gs a = Some th" and "served th" and "0 < used th"
  shows "progressed a th (transmit a gs)"
  using assms(2)
proof (cases rule: transmit_cases)
  case (stopped f k)
  then show ?thesis using assms by (auto intro!: progressed_stop [where th = "th\<lparr>fd := f\<rparr>"])
next
  case (sending f k)
  have "progressed a (th\<lparr>fd := f\<rparr>) (transmit a gs)"
    unfolding sending using assms by (intro transmit_on_progress) auto
  then show ?thesis using progressed_base [of "th\<lparr>fd := f\<rparr>" th] by simp
qed

text \<open>Serving another thread leaves this one alone, or stops the capture.\<close>

lemma transmit_other:
  assumes "capturing gs" and "b \<noteq> a"
  shows "thread_at (transmit b gs) a = thread_at gs a \<and> capturing (transmit b gs)
    \<or> thread_at (transmit b gs) a = map_option stop_thread (thread_at gs a) \<and> \<not> capturing (transmit b gs)"
proof (cases "thread_at gs b")
  case (Some th)
  show ?thesis using Some
  proof (cases rule: transmit_cases)
    case (stopped f k)
    then show ?thesis using assms by (simp add: stop_capturing_thread)
  next
    case (sending f k)
    show ?thesis unfolding sending
      by (rule transmit_on_cases [of "th\<lparr>fd := f\<rparr>" b "set_thread b (th\<lparr>fd := f\<rparr>) (gs\<lparr>kernel_of := k\<rparr>)"])
        (use assms in \<open>auto simp: stop_capturing_thread\<close>)
  qed
qed (simp add: transmit_def assms)

lemma map_of_filter_other: "map_of (filter (\<lambda>(c, _). c \<noteq> b) xs) a = (if a = b then None else map_of xs a)"
  by (induction xs) auto

lemma reap_live: "thread_at gs a = Some th \<Longrightarrow> \<not> exited th \<Longrightarrow> thread_at (reap b gs) a = Some th"
  by (cases "thread_at gs b")
    (auto simp: reap_def Let_def thread_at_def map_of_filter_other split: if_splits)

lemma reap_capturing [simp]: "capturing (reap b gs) = capturing gs"
  by (simp add: reap_def Let_def split: option.splits)

lemma progressed_reap: "progressed a th0 gs \<Longrightarrow> progressed a th0 (reap b gs)"
  by (auto simp: progressed_def served_def dest!: reap_live [of gs a _ b])

lemma progressed_transmit:
  assumes "capturing gs" and "progressed a th0 gs"
  shows "progressed a th0 (transmit b gs)"
proof (cases "b = a")
  case False
  then show ?thesis using assms(2) transmit_other [OF assms(1) False] by (auto simp: progressed_def)
next
  case True
  obtain th where th: "thread_at gs a = Some th" "served th" "sem th0 < sem th" "used th < used th0"
    using assms(2) by (auto simp: progressed_def)
  show ?thesis
  proof (cases "used th = 0")
    case False
    from transmit_progress [OF assms(1) th(1,2)] False th show ?thesis by (auto simp: progressed_def True)
  next
    case idle: True
    then have eq: "write_pos th = read_pos th" "oob_length th = 0"
      using pos_used [of th] th(2) by (auto simp: served_def)
    have "progressed a th0 (transmit a gs)" using th(1)
    proof (cases rule: transmit_cases)
      case (stopped f k)
      then show ?thesis using assms(1) th
        by (auto intro!: progressed_stop [where th = "th\<lparr>fd := f\<rparr>"])
    next
      case (sending f k)
      then show ?thesis using assms(1) th eq by (simp add: transmit_on_def progressed_def)
    qed
    then show ?thesis by (simp add: True)
  qed
qed

lemma progressed_serve: "progressed a th0 gs \<Longrightarrow> progressed a th0 (serve b gs)"
  by (simp add: serve_def progressed_reap progressed_transmit)

lemma progressed_serve_all: "progressed a th0 gs \<Longrightarrow> progressed a th0 (fold serve bs gs)"
  by (induction bs arbitrary: gs) (simp_all add: progressed_serve)

lemma serve_all_progress:
  "capturing gs \<Longrightarrow> thread_at gs a = Some th \<Longrightarrow> served th \<Longrightarrow> 0 < used th \<Longrightarrow> a \<in> set bs \<Longrightarrow>
     progressed a th (fold serve bs gs)"
proof (induction bs arbitrary: gs)
  case (Cons b bs)
  show ?case
  proof (cases "b = a")
    case True
    have "progressed a th (serve a gs)"
      using Cons.prems transmit_progress [of gs a th] by (simp add: serve_def progressed_reap)
    then show ?thesis using True by (simp add: progressed_serve_all)
  next
    case False
    from transmit_other [OF Cons.prems(1) False] show ?thesis
    proof
      assume "thread_at (transmit b gs) a = thread_at gs a \<and> capturing (transmit b gs)"
      then have "capturing (serve b gs)" "thread_at (serve b gs) a = Some th"
        using Cons.prems by (auto simp: serve_def served_def intro: reap_live)
      then show ?thesis using Cons.IH [of "serve b gs"] Cons.prems False by simp
    next
      assume "thread_at (transmit b gs) a = map_option stop_thread (thread_at gs a) \<and> \<not> capturing (transmit b gs)"
      then have "progressed a th (transmit b gs)" using Cons.prems by (simp add: progressed_def)
      then have "progressed a th (serve b gs)" using Cons.prems(1) by (simp add: serve_def progressed_reap)
      then show ?thesis by (simp add: progressed_serve_all)
    qed
  qed
qed simp

lemma progressed_update [simp]:
  "progressed a th0 (gs\<lparr>sync_waiter_sem := n\<rparr>) = progressed a th0 gs"
  "progressed a th0 (gs\<lparr>kernel_of := k\<rparr>) = progressed a th0 gs"
  by (simp_all add: progressed_def)

lemma turn_progress:
  assumes "capturing gs" and "thread_at gs a = Some th" and "served th" and "0 < used th"
  shows "progressed a th (gator_func_turn gs)"
proof -
  obtain ok gs1 where 1: "sender_connect gs = (ok, gs1)" by (cases "sender_connect gs")
  show ?thesis
  proof (cases ok)
    case False
    then obtain k where "gs1 = gator_stop_capturing (gs\<lparr>kernel_of := k\<rparr>)"
      using 1 by (auto simp: sender_connect_def gator_parent_connect_def split: if_splits prod.splits)
    then show ?thesis using False 1 assms by (simp add: gator_func_turn_def progressed_stop)
  next
    case True
    then have "capturing gs1" "threads gs1 = threads gs"
      using 1 assms(1) by (auto simp: sender_connect_def gator_parent_connect_def gator_start_capturing_def
          split: if_splits prod.splits)
    then have gs2: "capturing (sender_wait gs1)" "threads (sender_wait gs1) = threads gs"
      by (simp_all add: sender_wait_def Let_def)
    have a: "a \<in> set (map fst (threads gs))"
      using assms(2) by (auto simp: thread_at_def image_iff dest!: map_of_SomeD intro!: bexI)
    have "thread_at ((sender_wait gs1)\<lparr>sync_sem := 0\<rparr>) a = Some th"
      using gs2 assms(2) by (simp add: thread_at_def)
    then have "progressed a th (fold serve (map fst (threads gs)) ((sender_wait gs1)\<lparr>sync_sem := 0\<rparr>))"
      using assms(3,4) a gs2 by (intro serve_all_progress) simp_all
    then show ?thesis
      using True 1 \<open>capturing gs1\<close> gs2(2) by (simp add: gator_func_turn_def sender_resume_def Let_def)
  qed
qed

section \<open>A waiting call returns\<close>

lemma senders_stop [simp]: "senders (gator_stop_capturing gs) = senders gs"
  by (simp add: gator_stop_capturing_def)

lemma senders_transmit [simp]: "senders (transmit b gs) = senders gs"
proof (cases "thread_at gs b")
  case (Some th)
  have "senders (transmit_on b th' gs') = senders gs'" for th' gs'
    by (rule transmit_on_cases [of th' b gs']) simp_all
  with Some show ?thesis by (auto intro: transmit_cases [OF Some])
qed (simp add: transmit_def)

lemma senders_serve_all [simp]: "senders (fold serve bs gs) = senders gs"
proof (induction bs arbitrary: gs)
  case (Cons b bs)
  have "senders (reap b gs') = senders gs'" for gs'
    by (simp add: reap_def Let_def split: option.splits)
  then have "senders (serve b gs) = senders gs" by (simp add: serve_def)
  then show ?case by (simp add: Cons)
qed simp

lemma senders_turn [simp]: "senders (gator_func_turn gs) = senders gs"
proof -
  obtain ok gs1 where 1: "sender_connect gs = (ok, gs1)" by (cases "sender_connect gs")
  obtain ok' gs2 where 2: "sender_resume gs1 = (ok', gs2)" by (cases "sender_resume gs1")
  have "senders gs1 = senders gs"
    using 1 by (auto simp: sender_connect_def gator_parent_connect_def gator_start_capturing_def
        split: if_splits prod.splits)
  moreover have "senders gs2 = senders gs1"
    using 2 by (auto simp: sender_resume_def gator_start_capturing_def split: if_splits prod.splits)
  ultimately show ?thesis by (simp add: gator_func_turn_def 1 2 sender_wait_def Let_def)
qed

lemma wait_returns_aux:
  "thread_at gs a = Some th \<Longrightarrow> served th \<Longrightarrow> capturing gs \<or> used th = 0 \<Longrightarrow> 0 < senders gs \<Longrightarrow>
     bytes \<le> 32768 \<Longrightarrow> \<exists>gs'. gator_buf_wait_bytes a bytes gs = Some gs'"
proof (induction "(used th, sem th)" arbitrary: gs th rule: wf_induct_rule [OF wf_lex_prod [OF wf_less_than wf_less_than]])
  case (1 th gs)
  let ?post = "post_sender gs"
  show ?case
  proof (cases "gator_buf_free th < bytes")
    case False
    then show ?thesis by (subst gator_buf_wait_bytes.simps) (simp add: 1)
  next
    case True
    have wf: "thread_wf th" using 1(3) by (simp add: served_def)
    have "used th \<noteq> 0"
    proof
      assume "used th = 0"
      then have "unat (gator_buf_free th) = 65535" by (simp add: gator_buf_free_eq [OF wf])
      then show False using True 1(6) by (simp add: word_less_nat_alt word_le_nat_alt)
    qed
    then have cap: "capturing gs" and pos: "0 < used th" using 1(4) by auto
    have post: "thread_at ?post a = Some th" "capturing ?post" "senders ?post = senders gs"
      using 1(2) cap by (simp_all add: post_sender_def)
    have "\<exists>gs2 th2. sem_wait_thread a ?post = Some gs2 \<and> thread_at gs2 a = Some th2 \<and> served th2
        \<and> (capturing gs2 \<or> used th2 = 0) \<and> senders gs2 = senders gs
        \<and> ((used th2, sem th2), (used th, sem th)) \<in> less_than <*lex*> less_than"
    proof (cases "0 < sem th")
      case True
      then show ?thesis
        using post 1(3) cap by (subst sem_wait_thread.simps) (simp add: exI [of _ "th\<lparr>sem := sem th - 1\<rparr>"])
    next
      case False
      let ?gs = "gator_func_turn ?post"
      have "progressed a th ?gs" using turn_progress [OF post(2,1) 1(3) pos] .
      then obtain th2 where th2: "thread_at ?gs a = Some th2" "served th2" "sem th < sem th2" "used th2 < used th"
        "capturing ?gs \<or> used th2 = 0" by (auto simp: progressed_def)
      have "sem_wait_thread a ?post = sem_wait_thread a ?gs"
        using post False 1(5) by (subst sem_wait_thread.simps) simp
      also have "\<dots> = Some (set_thread a (th2\<lparr>sem := sem th2 - 1\<rparr>) ?gs)"
        using th2 by (subst sem_wait_thread.simps) simp
      finally show ?thesis using th2 post(3) by (simp add: exI [of _ "th2\<lparr>sem := sem th2 - 1\<rparr>"])
    qed
    then obtain gs2 th2 where w: "sem_wait_thread a ?post = Some gs2" "thread_at gs2 a = Some th2" "served th2"
      "capturing gs2 \<or> used th2 = 0" "senders gs2 = senders gs"
      "((used th2, sem th2), (used th, sem th)) \<in> less_than <*lex*> less_than" by blast
    have "\<exists>gs'. gator_buf_wait_bytes a bytes gs2 = Some gs'"
      using 1(1) [OF w(6,2,3,4)] w(5) 1(5,6) by simp
    then show ?thesis using True w(1) 1(2) by (subst gator_buf_wait_bytes.simps) simp
  qed
qed

section \<open>The annotation calls\<close>

lemma too_large_iff:
  "n < 2 ^ 32 \<Longrightarrow> of_nat (THREAD_BUFFER_SIZE div 2) < (of_nat n :: u32) \<longleftrightarrow> 32768 < n"
  by (simp add: word_less_nat_alt THREAD_BUFFER_SIZE_def unat_of_nat)

text \<open>
  C4: an annotation call appends exactly one frame. When a call that asks for at most half of the
  buffer finds its buffer and returns, it has waited for room, appended the frame that specifies the
  call to the bytes still waiting to be sent, none of which is overwritten, and left the buffers of
  the other threads alone.
\<close>

theorem annotate_appends_frame:
  assumes "gator_wf gs" and "reserve msg \<le> 32768"
    and "gator_get_thread env c gs = Some (Some a, gs1)"
    and "annotate env c msg gs = Some gs'"
  shows "\<exists>gs2 th th'. gator_buf_wait_bytes a (of_nat (reserve msg)) gs1 = Some gs2
    \<and> thread_at gs2 a = Some th \<and> thread_at gs' a = Some th'
    \<and> pending th' = pending th @ frame (header msg) (payload (gator_get_time (env_clock env)) msg)
    \<and> (\<forall>b. b \<noteq> a \<longrightarrow> thread_at gs' b = thread_at gs2 b) \<and> gator_wf gs'"
proof -
  let ?now = "gator_get_time (env_clock env)"
  have put: "put_message a (of_nat (reserve msg)) (header msg) (fields env msg) gs1 = Some gs'"
    using assms(3,4) by (simp add: annotate_put with_thread_def)
  have ws: "list_all2 emits (fields env msg) (parts ?now msg)" using assms(2) by (intro fields_emit) simp
  have n: "5 + length (concat (parts ?now msg)) \<le> reserve msg"
    using frame_reserved [of msg ?now] by (simp add: payload_def)
  show ?thesis
    by (rule put_message_enqueues [OF get_thread_wf [OF assms(1,3)] ws n assms(2) put])
      (unfold payload_def, blast)
qed

text \<open>
  C3: a waiting call returns. As long as a sender runs and the thread has no image data pending, an
  annotation call that has found its buffer returns, whatever the kernel answers: each turn of
  the sender either sends some of the buffer or stops the capture and empties it, and wakes the
  caller; a call that asks for more than half of the buffer returns at once and writes nothing.
\<close>

theorem annotate_returns:
  assumes "gator_get_thread env c gs = Some (Some a, gs1)" and "thread_at gs1 a = Some th" and "served th"
    and "capturing gs1 \<or> used th = 0" and "0 < senders gs1" and "reserve msg < 2 ^ 32"
  shows "\<exists>gs'. annotate env c msg gs = Some gs' \<and> (32768 < reserve msg \<longrightarrow> gs' = gs1)"
proof (cases "32768 < reserve msg")
  case True
  then show ?thesis
    using assms(1) too_large_iff [OF assms(6)] by (simp add: annotate_put with_thread_def put_message_def)
next
  case False
  have b: "(of_nat (reserve msg) :: u32) \<le> 32768"
    using False assms(6) by (simp add: word_le_nat_alt unat_of_nat)
  obtain gs2 where w: "gator_buf_wait_bytes a (of_nat (reserve msg)) gs1 = Some gs2"
    using wait_returns_aux [OF assms(2-5) b] by blast
  have "thread_at gs2 a \<noteq> None"
    using w by (induction rule: gator_buf_wait_bytes.raw_induct [rotated, consumes 1, case_names step])
      (auto split: option.splits if_splits)
  then show ?thesis
    using w False assms(1) too_large_iff [OF assms(6)]
    by (auto simp: annotate_put with_thread_def put_message_def Let_def split: prod.splits)
qed

definition example_env :: call_env where
  "example_env = \<lparr>env_create = 0, env_malloc_thread = True, env_gettid = 7, env_garbage = \<lambda>_. 0xcc,
     env_sem_init = 0, env_setspecific = 0, env_clock = Some (3, 5), env_malloc_item = True,
     env_malloc_activities = True, env_malloc_colors = True, env_strdup = Some\<rparr>"

definition example_state :: gator_state where
  "example_state = \<lparr>threads = [(0, new_thread (\<lambda>_. 0xcc) 7)], counters = [], cam_tracks = [], cam_names = [],
     sender_sem = 0, sync_sem = 0, sync_waiter_sem = 0, key = [3 \<mapsto> 0], parent_fd = - 1, initialized = True,
     capturing = True, forked = False, resend_state = False, heap_top = 1, senders = 1, sender_last = 0,
     pid = 99, gator_dont_mangle_keys = 0, kernel_of = example_kernel\<rparr>"

lemma example_get_thread: "gator_get_thread example_env 3 example_state = Some (Some 0, example_state)"
  by (simp add: gator_get_thread_def restart_sender_def own_thread_def example_state_def)

lemma example_thread: "thread_at example_state 0 = Some (new_thread (\<lambda>_. 0xcc) 7)"
  "served (new_thread (\<lambda>_. 0xcc) 7)" "capturing example_state \<or> used (new_thread (\<lambda>_. 0xcc) 7) = 0"
  "0 < senders example_state" "gator_wf example_state"
  by (simp_all add: thread_at_def example_state_def served_def new_thread_def thread_wf_def gator_wf_def)

theorem annotate_returns_witness:
  "\<exists>gs'. annotate example_env 3 (Marker (Some [72, 105])) example_state = Some gs'"
  using annotate_returns [OF example_get_thread example_thread(1-4), of "Marker (Some [72, 105])"]
  by (auto simp: cbytes_def)

lemma example_annotate:
  "annotate example_env 3 (Marker (Some [72, 105])) example_state
     = put_message 0 17 6 (fields example_env (Marker (Some [72, 105]))) example_state"
  by (simp add: annotate_put with_thread_def example_get_thread cbytes_def)

lemma put_message_room:
  "thread_at gs a = Some th \<Longrightarrow> n \<le> gator_buf_free th \<Longrightarrow> n \<le> 32768 \<Longrightarrow> \<exists>gs'. put_message a n m ws gs = Some gs'"
  by (auto simp: put_message_def THREAD_BUFFER_SIZE_def gator_buf_wait_bytes.simps Let_def
      dest: leD split: prod.splits)

theorem annotate_appends_frame_witness:
  "\<exists>gs' th'. annotate example_env 3 (Marker (Some [72, 105])) example_state = Some gs'
     \<and> thread_at gs' 0 = Some th' \<and> (\<exists>old. pending th' = old @ frame 6 (leb 3000000005 @ [72, 105]))"
proof -
  have "\<exists>gs'. annotate example_env 3 (Marker (Some [72, 105])) example_state = Some gs'"
    unfolding example_annotate using example_thread(1)
    by (rule put_message_room) (simp_all add: gator_buf_free_def new_thread_def THREAD_BUFFER_MASK_def)
  then obtain gs' where gs': "annotate example_env 3 (Marker (Some [72, 105])) example_state = Some gs'" ..
  have "payload (gator_get_time (env_clock example_env)) (Marker (Some [72, 105])) = leb 3000000005 @ [72, 105]"
    by (simp add: payload_def cbytes_def example_env_def gator_get_time_def gator_time_def NS_PER_S_def)
  then show ?thesis
    using annotate_appends_frame [OF example_thread(5) _ example_get_thread gs'] gs'
    by (auto simp: cbytes_def)
qed

end
