(* ===== verification/Annotate_Stream.thy ===== *)
theory Annotate_Stream
  imports Annotate_Runs
begin

text \<open>
  One connection to the daemon over time: the application thread writes messages, the sender sends
  what has accumulated, in any order. What arrives is the frames in the order of the calls. Then the
  cases in which a caller is not served: flushing without a daemon, a set-up that failed half way,
  and the reservation of the counter message.
\<close>

section \<open>The stream of one connection\<close>

text \<open>
  \<open>session w0 th k fs\<close>: the kernel had received \<open>w0\<close> on the descriptor of the thread when its buffer
  was empty; since then the frames \<open>fs\<close> have been written to the buffer and the sender has been at work.
\<close>

inductive session :: "byte list \<Rightarrow> gator_thread \<Rightarrow> kernel \<Rightarrow> byte list list \<Rightarrow> bool" where
  session_start: "thread_wf th \<Longrightarrow> pending th = [] \<Longrightarrow> oob_length th = 0 \<Longrightarrow>
    session (wire k (fd th)) th k []"
| session_message: "session w0 th k fs \<Longrightarrow> reserve msg \<le> 32768 \<Longrightarrow>
    of_nat (reserve msg) \<le> gator_buf_free th \<Longrightarrow>
    session w0 (fst (write_message (header msg) (fields env msg) th)) k
      (fs @ [frame (header msg) (payload (gator_get_time (env_clock env)) msg)])"
| session_send: "session w0 th k fs \<Longrightarrow> write_pos th \<noteq> read_pos th \<Longrightarrow>
    gator_send th (write_pos th) k = (ok, th', k') \<Longrightarrow> session w0 th' k' fs"

lemma write_message_annotation:
  assumes "thread_wf th" and "reserve msg \<le> 32768"
  shows "fst (write_message (header msg) (fields env msg) th)
    = enqueue (frame (header msg) (payload (gator_get_time (env_clock env)) msg)) th"
proof -
  let ?now = "gator_get_time (env_clock env)"
  have "5 + length (concat (parts ?now msg)) \<le> 65536"
    using frame_reserved [of msg ?now] assms(2) by (simp add: payload_def)
  then show ?thesis
    using write_message_enqueue [OF assms(1) fields_emit [of msg env]] assms(2) by (simp add: payload_def)
qed

lemma session_invariant:
  "session w0 th k fs \<Longrightarrow> thread_wf th \<and> oob_length th = 0 \<and> wire k (fd th) @ pending th = w0 @ concat fs"
proof (induction rule: session.induct)
  case (session_message w0 th k fs msg env)
  let ?f = "frame (header msg) (payload (gator_get_time (env_clock env)) msg)"
  have wf: "thread_wf th" using session_message.IH by simp
  have "length ?f \<le> unat (gator_buf_free th)"
    using session_message.hyps(2,3) frame_reserved [of msg] le_trans
    by (fastforce simp: word_le_nat_alt unat_of_nat)
  then have "pending (enqueue ?f th) = pending th @ ?f" using ringq.pending_enqueue [OF wf] by blast
  moreover have "fd (enqueue ?f th) = fd th" "oob_length (enqueue ?f th) = oob_length th"
    by (simp_all add: enqueue_def)
  ultimately show ?case
    unfolding write_message_annotation [OF wf session_message.hyps(2)] using session_message.IH
    by (simp add: thread_wf_enqueue flip: append_assoc)
next
  case (session_send w0 th k fs ok th' k')
  then obtain n j where s: "sent n j th k th' k'" using gator_send_sent [of th k ok th' k'] by blast
  have "thread_wf th" using session_send.IH by simp
  from sent_wf [OF this s] sent_pending [OF this s] s session_send.IH show ?case
    by (auto simp: sent_def dequeue_def simp flip: append_assoc) (simp add: append_assoc)
qed simp

text \<open>
  C2: the stream of a connection. For any interleaving of annotation calls that have room and of
  sends of a buffer that is not empty, whatever part of each send the kernel accepts: what the
  kernel has accepted followed by what waits in the buffer is what it had accepted at the start
  followed by the frames of the calls, in order, complete and without anything between them.
\<close>

theorem session_stream: "session w0 th k fs \<Longrightarrow> wire k (fd th) @ pending th = w0 @ concat fs"
  using session_invariant by blast

theorem session_stream_witness:
  "let th = fst (write_message 6 (fields example_env (Marker (Some [72, 105]))) (new_thread (\<lambda>_. 0xcc) 7)) in
     wire example_kernel (fd th) @ pending th = frame 6 (leb 3000000005 @ [72, 105])"
proof -
  let ?th = "new_thread (\<lambda>_. 0xcc) 7" and ?msg = "Marker (Some [72, 105])"
  have "pending ?th = []" by (simp add: new_thread_def used_def flip: length_0_conv)
  then have "session [] ?th example_kernel []"
    using session_start [of ?th example_kernel] example_thread(2)
    by (simp add: served_def example_kernel_def new_thread_def)
  moreover have "reserve ?msg \<le> 32768" "of_nat (reserve ?msg) \<le> gator_buf_free ?th"
    by (simp_all add: cbytes_def gator_buf_free_def new_thread_def THREAD_BUFFER_MASK_def)
  ultimately have "session [] (fst (write_message 6 (fields example_env ?msg) ?th)) example_kernel
      [frame 6 (payload (gator_get_time (env_clock example_env)) ?msg)]"
    using session_message [of "[]" ?th example_kernel "[]" ?msg example_env] by simp
  from session_stream [OF this] show ?thesis
    by (simp add: Let_def payload_def cbytes_def example_env_def gator_get_time_def gator_time_def NS_PER_S_def)
qed

section \<open>Flushing without a daemon\<close>

lemma sync_wait_stuck:
  "sync_wait gs = Some gs' \<Longrightarrow> sync_waiter_sem gs = 0 \<Longrightarrow> parent_fd gs < 0 \<Longrightarrow>
     socket_tape (kernel_of gs) = [] \<Longrightarrow> False"
proof (induction rule: sync_wait.raw_induct [rotated, consumes 1, case_names step])
  case (step f gs gs')
  let ?gs = "gator_func_turn gs"
  have k: "socket_tape (close_all ths k) = socket_tape k" for ths k
    by (induction ths arbitrary: k) (simp_all add: sys_close_def)
  have "?gs = gator_stop_capturing (gs\<lparr>kernel_of := (kernel_of gs)\<lparr>socket_tape := []\<rparr>\<rparr>)"
    using step(4,5) by (simp add: gator_func_turn_def sender_connect_def gator_parent_connect_def
        gator_socket_cloexec_def tape_head_def)
  then have "sync_waiter_sem ?gs = 0" "parent_fd ?gs < 0" "socket_tape (kernel_of ?gs) = []"
    using step(3-5) by (simp_all add: gator_stop_capturing_def k)
  with step show ?case by (auto split: if_splits)
qed


definition blank_state :: gator_state where
  "blank_state = \<lparr>threads = [], counters = [], cam_tracks = [], cam_names = [],
     sender_sem = 0, sync_sem = 0, sync_waiter_sem = 0, key = \<lambda>_. None, parent_fd = 0, initialized = False,
     capturing = False, forked = False, resend_state = False, heap_top = 0, senders = 0, sender_last = 0,
     pid = 99, gator_dont_mangle_keys = 0, kernel_of = example_kernel\<lparr>socket_tape := []\<rparr>\<rparr>"

definition setup_ok :: setup_results where
  "setup_ok = \<lparr>sender_sem_init = 0, sync_sem_init = 0, sync_waiter_sem_init = 0, key_create = 0,
     atfork = 0, atexit = 0, create = 0\<rparr>"


section \<open>The counter message\<close>

text \<open>What the counter call reserves, as a number, and the bytes of its twelve integers.\<close>

definition counter_reserve :: "gator_counter \<Rightarrow> nat" where
  "counter_reserve c = 1 + 4 + 12 * 5 + 4 + sum_list (map (\<lambda>s. length (cbytes s) + 4) (activities c))
     + length (cbytes (title c)) + 1 + length (cbytes (cname c)) + 1 + length (cbytes (units c)) + 1
     + length (cbytes (description c))"

definition counter_ints :: "gator_counter \<Rightarrow> byte list list" where
  "counter_ints c = map packed [cid c, per_cpu c, class_code (counter_class c), display_code (display c),
     modifier c, composition_code (series_composition c), rendering_code (rendering_type c),
     average_selection c, average_cores c, percentage c, of_nat (length (activities c)), cores c]"

definition counter_parts :: "gator_counter \<Rightarrow> byte list list" where
  "counter_parts c = counter_ints c @ [color_bytes (color c)]
     @ concat (map (\<lambda>(s, col). [cbytes s, [0], color_bytes col]) (zip (activities c) (activity_colors c)))
     @ [cbytes (title c), [0], cbytes (cname c), [0], cbytes (units c), [0], cbytes (description c)]"

lemma activity_bytes_length:
  "length ss = length cols \<Longrightarrow>
     length (concat (concat (map (\<lambda>(s, col). [cbytes s, [0], color_bytes col]) (zip ss cols))))
       = sum_list (map (\<lambda>s. length (cbytes s) + 4) ss) + length ss"
  by (induction ss cols rule: list_induct2) simp_all

lemma activity_size_fold:
  "fold (\<lambda>s n. n + csize s + SIZE_COLOR) ss n
     = n + of_nat (sum_list (map (\<lambda>s. length (cbytes s) + 4) ss))"
  by (induction ss arbitrary: n) (simp_all add: csize_def SIZE_COLOR_def algebra_simps)

lemma write_counter_put: "gator_annotate_write_counter a c
    = put_message a (of_nat (counter_reserve c)) HEADER_COUNTER (counter_fields c)"
proof -
  have "activity_size c = of_nat (sum_list (map (\<lambda>s. length (cbytes s) + 4) (activities c)))"
    by (simp add: activity_size_def activity_size_fold)
  then show ?thesis
    by (simp add: gator_annotate_write_counter_def counter_reserve_def size_defs algebra_simps)
qed

lemma emits_activity:
  assumes "length (cbytes s) \<le> 65536"
  shows "list_all2 emits (activity_fields (s, col)) [cbytes s, [0], color_bytes col]"
  using assms by (auto simp: activity_fields_def intro!: wf_intros)

lemma emits_activities:
  assumes "\<forall>s \<in> set (activities c). length (cbytes s) \<le> 65536"
  shows "list_all2 emits (concat (map activity_fields (zip (activities c) (activity_colors c))))
    (concat (map (\<lambda>(s, col). [cbytes s, [0], color_bytes col]) (zip (activities c) (activity_colors c))))"
proof -
  have "list_all2 emits (concat (map activity_fields zs)) (concat (map (\<lambda>(s, col). [cbytes s, [0], color_bytes col]) zs))"
    if "\<forall>(s, col) \<in> set zs. length (cbytes s) \<le> 65536" for zs
    using that by (induction zs) (auto intro!: list_all2_appendI emits_activity)
  moreover have "\<forall>(s, col) \<in> set (zip (activities c) (activity_colors c)). length (cbytes s) \<le> 65536"
    using assms by (auto dest: set_zip_leftD)
  ultimately show ?thesis by blast
qed

lemma counter_emit:
  assumes "counter_reserve c \<le> 65536"
  shows "list_all2 emits (counter_fields c) (counter_parts c)"
proof -
  have "length (cbytes s) \<le> 65536" if "s \<in> set (activities c)" for s
    using member_le_sum_list [of "length (cbytes s) + 4" "map (\<lambda>s. length (cbytes s) + 4) (activities c)"] that assms
    by (simp add: counter_reserve_def)
  moreover have "length (cbytes (title c)) \<le> 65536" "length (cbytes (cname c)) \<le> 65536"
    "length (cbytes (units c)) \<le> 65536" "length (cbytes (description c)) \<le> 65536"
    using assms by (simp_all add: counter_reserve_def)
  ultimately show ?thesis
    unfolding counter_fields_def counter_parts_def counter_ints_def
    by (auto intro!: list_all2_appendI emits_activities wf_intros)
qed

lemma counter_length:
  assumes "length (activities c) = length (activity_colors c)"
  shows "length (frame HEADER_COUNTER (concat (counter_parts c))) + 60
    = counter_reserve c + length (activities c) + length (concat (counter_ints c))"
  using activity_bytes_length [OF assms] by (simp add: counter_parts_def counter_reserve_def)

lemma length_packed_pos: "1 \<le> length (packed x)"
  by (simp add: leb.simps)

lemma code_bytes:
  "length (packed (class_code k)) = 1" "length (packed (display_code d)) = 1"
  "length (packed (composition_code s)) = 1" "length (packed (rendering_code r)) = 1"
proof -
  show "length (packed (class_code k)) = 1" by (cases k) (simp_all add: leb.simps pack_last_iff)
  show "length (packed (display_code d)) = 1" by (cases d) (simp_all add: leb.simps pack_last_iff)
  show "length (packed (composition_code s)) = 1" by (cases s) (simp_all add: leb.simps pack_last_iff)
  show "length (packed (rendering_code r)) = 1" by (cases r) (simp_all add: leb.simps pack_last_iff)
qed

lemma counter_ints_bounds:
  "12 \<le> length (concat (counter_ints c))" "length (concat (counter_ints c)) \<le> 44"
proof -
  note pos = length_packed_pos and le = leb_int_length
  show "12 \<le> length (concat (counter_ints c))"
    using pos [of "cid c"] pos [of "per_cpu c"] pos [of "modifier c"] pos [of "average_selection c"]
      pos [of "average_cores c"] pos [of "percentage c"] pos [of "of_nat (length (activities c)) :: u32"] pos [of "cores c"]
    by (simp add: counter_ints_def code_bytes)
  show "length (concat (counter_ints c)) \<le> 44"
    using le [of "cid c"] le [of "per_cpu c"] le [of "modifier c"] le [of "average_selection c"]
      le [of "average_cores c"] le [of "percentage c"] le [of "of_nat (length (activities c))"] le [of "cores c"]
    by (simp add: counter_ints_def code_bytes)
qed

text \<open>
  C33: the room that a counter message reserves. Each activity takes one byte more in the message
  than in the reservation, the NUL after its name: the message fits the room reserved for it exactly
  when its activities are no more than what its twelve integers leave unused. With up to 16
  activities it always fits, with more than 48 it never does, and then a full buffer is overrun.
\<close>

theorem counter_reservation:
  assumes "length (activities c) = length (activity_colors c)" and "counter_reserve c \<le> 32768" and "thread_wf th"
  shows "gator_annotate_write_counter a c
      = put_message a (of_nat (counter_reserve c)) HEADER_COUNTER (counter_fields c)
    \<and> fst (write_message HEADER_COUNTER (counter_fields c) th)
      = enqueue (frame HEADER_COUNTER (concat (counter_parts c))) th
    \<and> (length (frame HEADER_COUNTER (concat (counter_parts c))) \<le> counter_reserve c
      \<longleftrightarrow> length (activities c) \<le> 60 - length (concat (counter_ints c)))
    \<and> (length (activities c) \<le> 16 \<longrightarrow> length (frame HEADER_COUNTER (concat (counter_parts c))) \<le> counter_reserve c)
    \<and> (48 < length (activities c) \<longrightarrow> counter_reserve c < length (frame HEADER_COUNTER (concat (counter_parts c))))"
proof -
  let ?n = "length (activities c)"
  note len = counter_length [OF assms(1)] counter_ints_bounds [of c]
  have "sum_list (map (\<lambda>s. length (cbytes s) + 4) (activities c)) = sum_list (map (\<lambda>s. length (cbytes s)) (activities c)) + 4 * ?n"
    by (simp add: sum_list_addf sum_list_triv)
  then have "4 * ?n \<le> 32768" using assms(2) by (simp add: counter_reserve_def)
  then have "5 + length (concat (counter_parts c)) \<le> 65536" using len assms(2) by simp
  moreover have "list_all2 emits (counter_fields c) (counter_parts c)"
    using assms(2) by (intro counter_emit) simp
  ultimately have "fst (write_message HEADER_COUNTER (counter_fields c) th)
      = enqueue (frame HEADER_COUNTER (concat (counter_parts c))) th"
    using write_message_enqueue [OF assms(3)] by blast
  then show ?thesis using len write_counter_put [of a c] by auto
qed

definition example_counter :: gator_counter where
  "example_counter = \<lparr>title = None, cname = None, units = None, description = None,
     activities = replicate 50 (Some [65]), activity_colors = replicate 50 0, per_cpu = 0, average_selection = 0,
     average_cores = 0, percentage = 0, counter_class = ANNOTATE_ACTIVITY, display = ANNOTATE_AVERAGE,
     series_composition = ANNOTATE_STACKED, rendering_type = ANNOTATE_BAR, cid = 1, modifier = 1, cores = 1,
     color = 0\<rparr>"

theorem counter_reservation_witness:
  "counter_reserve example_counter < length (frame HEADER_COUNTER (concat (counter_parts example_counter)))"
proof -
  have "length (activities example_counter) = length (activity_colors example_counter)"
    "counter_reserve example_counter \<le> 32768" "48 < length (activities example_counter)"
    by (simp_all add: example_counter_def counter_reserve_def cbytes_def sum_list_replicate)
  moreover have "thread_wf (new_thread (\<lambda>_. 0) 7)" by (simp add: thread_wf_def new_thread_def)
  ultimately show ?thesis using counter_reservation [of example_counter "new_thread (\<lambda>_. 0) 7" 0] by blast
qed

end
