(* ===== verification/Annotate_Decode.thy ===== *)
theory Annotate_Decode
  imports Annotate_Spec "HOL-Library.Monad_Syntax"
begin

text \<open>
  A reader of the annotation stream, as the daemon needs one: it splits the stream into frames and
  reads the fields of each. Decoding what a call wrote yields the arguments of the call.
\<close>

section \<open>Fields\<close>

definition get_int :: "byte list \<Rightarrow> (u32 \<times> byte list) option" where
  "get_int bs = map_option (\<lambda>(v, r). (word_of_int v, r)) (unleb bs)"

definition get_long :: "byte list \<Rightarrow> (u64 \<times> byte list) option" where
  "get_long bs = map_option (\<lambda>(v, r). (word_of_int v, r)) (unleb bs)"

definition join :: "byte \<Rightarrow> byte \<Rightarrow> byte \<Rightarrow> byte \<Rightarrow> u32" where
  "join b0 b1 b2 b3 = ucast b0 OR push_bit 8 (ucast b1) OR push_bit 16 (ucast b2) OR push_bit 24 (ucast b3)"

fun get_color :: "byte list \<Rightarrow> (u32 \<times> byte list) option" where
  "get_color (b0 # b1 # b2 # b3 # r) = Some (join b3 b0 b1 b2, r)"
| "get_color _ = None"

fun get_ints :: "nat \<Rightarrow> byte list \<Rightarrow> (u32 list \<times> byte list) option" where
  "get_ints 0 bs = Some ([], bs)"
| "get_ints (Suc n) bs = do { (x, bs) \<leftarrow> get_int bs; (xs, bs) \<leftarrow> get_ints n bs; Some (x # xs, bs) }"

fun unframe :: "byte list \<Rightarrow> (byte \<times> byte list \<times> byte list) option" where
  "unframe (marker # b0 # b1 # b2 # b3 # r) = (let n = unat (join b0 b1 b2 b3) in
     if n \<le> length r then Some (marker, take n r, drop n r) else None)"
| "unframe _ = None"

lemma get_int_packed: "get_int (packed (x :: u32) @ r) = Some (x, r)"
  by (simp add: get_int_def unleb_leb)

lemma get_long_packed: "get_long (packed (x :: u64) @ r) = Some (x, r)"
  by (simp add: get_long_def unleb_leb)

lemma join_bytes: "join (ucast (x AND 0xff)) (ucast (drop_bit 8 x AND 0xff)) (ucast (drop_bit 16 x AND 0xff))
    (ucast (drop_bit 24 x AND 0xff)) = x"
proof (rule bit_word_eqI)
  have ff: "(0xff :: u32) = mask 8" by (simp add: mask_eq_exp_minus_1)
  fix n assume "n < LENGTH(32)"
  then have "n < 8 \<or> 8 \<le> n \<and> n < 16 \<or> 16 \<le> n \<and> n < 24 \<or> 24 \<le> n \<and> n < 32" by auto
  then show "bit (join (ucast (x AND 0xff)) (ucast (drop_bit 8 x AND 0xff)) (ucast (drop_bit 16 x AND 0xff))
      (ucast (drop_bit 24 x AND 0xff))) n = bit x n"
    unfolding join_def ff by (elim disjE) (auto simp: bit_simps)
qed

lemma get_color_bytes: "get_color (color_bytes c @ r) = Some (c, r)"
  using join_bytes [of c] by (simp add: color_bytes_def)

lemma get_ints_packed: "get_ints (length xs) (concat (map packed (xs :: u32 list)) @ r) = Some (xs, r)"
  by (induction xs) (simp_all add: get_int_packed)

lemma unframe_frame:
  assumes "length p < 2 ^ 32"
  shows "unframe (frame marker p @ r) = Some (marker, p, r)"
  using assms by (simp add: frame_def le32_def join_bytes unat_of_nat)

section \<open>Messages\<close>

definition cstr :: "byte list \<Rightarrow> cstring" where
  "cstr bs = Some bs"

definition decode :: "byte \<Rightarrow> byte list \<Rightarrow> (u64 option \<times> annotation) option" where
  "decode marker p =
     (if marker = 1 then do { (now, p) \<leftarrow> get_long p; (ch, p) \<leftarrow> get_int p; Some (Some now, Annotate_str ch (cstr p)) }
      else if marker = 2 then do { (now, p) \<leftarrow> get_long p; (ch, p) \<leftarrow> get_int p; (col, p) \<leftarrow> get_color p;
        Some (Some now, Annotate_color ch col (cstr p)) }
      else if marker = 3 then do { (now, p) \<leftarrow> get_long p; (ch, p) \<leftarrow> get_int p; (g, p) \<leftarrow> get_int p;
        Some (Some now, Name_channel ch g (cstr p)) }
      else if marker = 4 then do { (now, p) \<leftarrow> get_long p; (g, p) \<leftarrow> get_int p; Some (Some now, Name_group g (cstr p)) }
      else if marker = 6 then do { (now, p) \<leftarrow> get_long p; Some (Some now, Marker (cstr p)) }
      else if marker = 7 then do { (now, p) \<leftarrow> get_long p; (col, p) \<leftarrow> get_color p;
        Some (Some now, Marker_color col (cstr p)) }
      else if marker = 9 then do { (now, p) \<leftarrow> get_long p; (core, p) \<leftarrow> get_int p; (i, p) \<leftarrow> get_int p;
        (v, p) \<leftarrow> get_int p; Some (Some now, Counter_value core i v) }
      else if marker = 10 then do { (now, p) \<leftarrow> get_long p; (core, p) \<leftarrow> get_int p; (i, p) \<leftarrow> get_int p;
        (act, p) \<leftarrow> get_int p; (t, p) \<leftarrow> get_int p; Some (Some now, Activity_switch core i act t) }
      else if marker = 12 then do { (v, p) \<leftarrow> get_int p; (j, p) \<leftarrow> get_int p; (t, p) \<leftarrow> get_int p;
        (st, p) \<leftarrow> get_long p; (d, p) \<leftarrow> get_long p; (col, p) \<leftarrow> get_color p; (pr, p) \<leftarrow> get_int p;
        (n, p) \<leftarrow> get_int p; (deps, p) \<leftarrow> get_ints (unat n) p;
        Some (None, Cam_job v j (cstr p) t st d col pr deps) }
      else if marker = 14 then do { (v, p) \<leftarrow> get_int p; (j, p) \<leftarrow> get_int p; (t, p) \<leftarrow> get_int p;
        (tm, p) \<leftarrow> get_long p; (col, p) \<leftarrow> get_color p; Some (None, Cam_job_start v j (cstr p) t tm col) }
      else if marker = 15 then do { (v, p) \<leftarrow> get_int p; (j, p) \<leftarrow> get_int p; (tm, p) \<leftarrow> get_long p;
        (pr, p) \<leftarrow> get_int p; (n, p) \<leftarrow> get_int p; (deps, p) \<leftarrow> get_ints (unat n) p;
        Some (None, Cam_job_set_dependencies v j tm pr deps) }
      else if marker = 16 then do { (v, p) \<leftarrow> get_int p; (j, p) \<leftarrow> get_int p; (tm, p) \<leftarrow> get_long p;
        Some (None, Cam_job_stop v j tm) }
      else None)"

text \<open>A null string reads back as the empty string, and some messages carry no time of their own.\<close>

fun normal :: "annotation \<Rightarrow> annotation" where
  "normal (Annotate_str ch s) = Annotate_str ch (cstr (cbytes s))"
| "normal (Annotate_color ch col s) = Annotate_color ch col (cstr (cbytes s))"
| "normal (Name_channel ch g s) = Name_channel ch g (cstr (cbytes s))"
| "normal (Name_group g s) = Name_group g (cstr (cbytes s))"
| "normal (Marker s) = Marker (cstr (cbytes s))"
| "normal (Marker_color col s) = Marker_color col (cstr (cbytes s))"
| "normal (Cam_job v j s t st d col p deps) = Cam_job v j (cstr (cbytes s)) t st d col p deps"
| "normal (Cam_job_start v j s t tm col) = Cam_job_start v j (cstr (cbytes s)) t tm col"
| "normal msg = msg"

definition stamp :: "u64 \<Rightarrow> annotation \<Rightarrow> u64 option" where
  "stamp now msg = (if header msg \<in> {12, 14, 15, 16} then None else Some now)"

lemmas get_fields = get_int_packed get_long_packed get_color_bytes get_ints_packed
  get_int_packed [where r = "[]", simplified] get_long_packed [where r = "[]", simplified]
  get_ints_packed [where r = "[]", simplified]

lemma decode_payload:
  assumes "reserve msg < 2 ^ 32"
  shows "decode (header msg) (payload now msg) = Some (stamp now msg, normal msg)"
  using assms by (cases msg)
    (simp_all add: decode_def payload_def stamp_def get_fields unat_of_nat)



end
