(* ===== verification/Vulkan_Layer.thy ===== *)
theory Vulkan_Layer
  imports Results
begin

text \<open>
  The Vulkan layer (\<open>layer/vulkan_layer.cpp\<close>): it intercepts the calls of a Vulkan program, keeps a
  collector context for each device, counts frames, starts and stops the manager at the configured
  frames and writes the results when the device goes away. The Vulkan loader and the next layer are
  outside the repository: what they return (handles, status codes) is an argument of the
  definitions, and a function pointer obtained from them is a value that names the layer and the
  function.
\<close>

section \<open>State\<close>

datatype pfn = Layer string | Next nat string

text \<open>What a pointer to a \<open>vkGetProcAddr\<close> function answers for a name.\<close>

fun ask :: "pfn \<Rightarrow> string \<Rightarrow> pfn" where
  "ask (Next l _) name = Next l name"
| "ask (Layer _) name = Layer name"

datatype VkResult = VK_SUCCESS | VK_ERROR_INITIALIZATION_FAILED | VK_ERROR_LAYER_NOT_PRESENT | VK_OTHER int

record InstanceDispatchTable =
  gipa :: pfn
  nextDestroyInstance :: pfn
  nextEnumerateDeviceExtensionProperties :: pfn

record ('j, 'x, 'w) vkCollectorContext =
  ctx_id :: u32
  frames_processed :: u32
  current_frame :: u32
  current_subframe :: u32
  num_subframes_per_frame :: u32
  start_frame :: u32
  end_frame :: u32
  collectors_started :: bool
  collectors_finished :: bool
  postprocessed :: bool
  init_failed :: bool
  collectors :: "('j, 'x, 'w) collection option"
  run_start_wall_timer :: i64
  run_duration_wall_timer :: double
  run_start_cpu_timer :: i64
  run_duration_cpu_timer :: double
  gdpa :: pfn
  nextDestroyDevice :: pfn
  nextGetDeviceQueue :: pfn
  nextQueueSubmit :: pfn
  nextQueuePresentKHR :: pfn

text \<open>
  The globals of the file. A context is an object on the heap; the maps hold its address, and the
  element that \<open>operator[]\<close> creates for a missing key is a null pointer.
\<close>

record ('j, 'x, 'w) layer =
  instance_dispatch_map :: "nat \<Rightarrow> InstanceDispatchTable option"
  device_to_context_map :: "nat \<Rightarrow> nat option"
  queue_to_context_map :: "nat \<Rightarrow> nat option"
  contexts :: "nat \<Rightarrow> ('j, 'x, 'w) vkCollectorContext option"
  next_address :: nat
  gconfig_initialized :: bool
  glibcollector_config :: 'j
  next_id :: u32

definition context_at :: "('j, 'x, 'w) layer \<Rightarrow> nat option \<Rightarrow> (nat \<times> ('j, 'x, 'w) vkCollectorContext) result" where
  "context_at L p = (case p of None \<Rightarrow> Inl NullPointer
     | Some a \<Rightarrow> (case contexts L a of None \<Rightarrow> Inl NullPointer | Some c \<Rightarrow> Inr (a, c)))"

section \<open>Configuration\<close>

definition get_config_path :: "bool \<Rightarrow> string option \<Rightarrow> string" where
  "get_config_path android env_path =
     (if android then ''/sdcard/Download/libcollector_config.json''
      else case env_path of None \<Rightarrow> ''libcollector_config.json'' | Some p \<Rightarrow> p)"

text \<open>
  The read loop: every attempt writes to the start of the string. An attempt answers with the
  characters read, whether the end of the file was reached and the error indicator; the error
  numbers 11 and 4 (\<open>EAGAIN\<close> and \<open>EWOULDBLOCK\<close>, \<open>EINTR\<close>) repeat it, and the last attempt
  listed ends the loop.
\<close>

definition overwrite :: "string \<Rightarrow> string \<Rightarrow> string" where
  "overwrite contents chunk = chunk @ drop (length chunk) contents"

fun read_loop :: "nat \<Rightarrow> nat \<Rightarrow> string \<Rightarrow> (string \<times> bool \<times> int) list \<Rightarrow> string" where
  "read_loop len r contents [] = contents"
| "read_loop len r contents ((chunk, eof, err) # as) =
     (let r = r + length chunk; contents = overwrite contents chunk in
      if \<not> eof \<and> r \<noteq> len \<and> (err = 11 \<or> err = 4) then read_loop len r contents as else contents)"

definition config_defaults :: "'j json_ops \<Rightarrow> bool \<Rightarrow> 'j \<Rightarrow> 'j" where
  "config_defaults J android c =
     (let c1 = (if j_asString J (j_get J c ''result_file_basename'' (j_of_string J [])) = []
            then j_set J c ''result_file_basename''
              (j_of_string J (if android then ''/sdcard/Download/results.json'' else ''results.json''))
            else c);
          c2 = (if j_asInt J (j_get J c1 ''num_subframes_per_frame'' (j_of_int J 0)) = 0
            then j_set J c1 ''num_subframes_per_frame'' (j_of_int J 1) else c1)
      in if j_asString J (j_get J c2 ''frame_trigger_function'' (j_of_string J [])) = []
         then j_set J c2 ''frame_trigger_function'' (j_of_string J ''vkQueuePresentKHR'') else c2)"

text \<open>
  \<open>opened\<close> is the length of the file and the answers of the read attempts, \<open>None\<close> when it cannot be
  opened; \<open>parse\<close> is the parser of the JSON library, which sets the value even when it fails.
\<close>

definition read_config ::
  "'j json_ops \<Rightarrow> bool \<Rightarrow> (string \<Rightarrow> 'j \<Rightarrow> bool \<times> 'j) \<Rightarrow> (nat \<times> (string \<times> bool \<times> int) list) option \<Rightarrow>
     ('j, 'x, 'w) layer \<Rightarrow> bool \<times> ('j, 'x, 'w) layer" where
  "read_config J android parse opened L = (case opened of None \<Rightarrow> (False, L)
     | Some (len, as) \<Rightarrow>
         (case parse (read_loop len 0 (replicate (len + 1) NUL) as) (glibcollector_config L) of (ok, c) \<Rightarrow>
            if \<not> ok then (False, L\<lparr>glibcollector_config := c\<rparr>)
            else (True, L\<lparr>glibcollector_config := config_defaults J android c\<rparr>)))"

section \<open>Contexts\<close>

definition vkCollectorContext_new :: "'j json_ops \<Rightarrow> ('j, 'x, 'w) layer \<Rightarrow> ('j, 'x, 'w) vkCollectorContext" where
  "vkCollectorContext_new J L =
     (let cfg = glibcollector_config L; null = Layer [] in
      \<lparr>ctx_id = next_id L, frames_processed = 0, current_frame = 0, current_subframe = 0,
       num_subframes_per_frame = j_asInt J (j_get J cfg ''num_subframes_per_frame'' (j_of_int J 1)),
       start_frame = j_asInt J (j_get J cfg ''start_frame'' (j_of_int J 0)),
       end_frame = j_asInt J (j_get J cfg ''end_frame'' (j_of_int J 99999)),
       collectors_started = False, collectors_finished = False, postprocessed = False, init_failed = False,
       collectors = None, run_start_wall_timer = 0, run_duration_wall_timer = DFin 0, run_start_cpu_timer = 0,
       run_duration_cpu_timer = DFin 0, gdpa = null, nextDestroyDevice = null, nextGetDeviceQueue = null,
       nextQueueSubmit = null, nextQueuePresentKHR = null\<rparr>)"

text \<open>
  The environment of the layer: the constructors of the collectors, the virtual functions, what
  uninitialised memory holds and the state of the system.
\<close>

record ('j, 'x, 'w) host =
  h_json :: "'j json_ops"
  h_android :: bool
  h_new :: "'j \<Rightarrow> string \<Rightarrow> builtin \<Rightarrow> ('j, 'x) collector_scheme"
  h_fresh :: "nat \<Rightarrow> ('j, 'x) collector_scheme"
  h_vtable :: "nat \<Rightarrow> ('j, 'x, 'w) vtable"
  h_styled :: "'j \<Rightarrow> string"

definition initialize_collectors ::
  "('j, 'x, 'w) host \<Rightarrow> 'w \<Rightarrow> 'j \<Rightarrow> ('j, 'x, 'w) vkCollectorContext \<Rightarrow> ('j, 'x, 'w) vkCollectorContext result" where
  "initialize_collectors h w cfg c =
     bind_res (Collection_new (h_json h) (h_android h) (h_new h) (h_fresh h) w (j_at (h_json h) cfg ''collectors'') False)
       (\<lambda>s. bind_res (initialize (h_json h) (h_vtable h) [] s) (\<lambda>(_, s). Inr (c\<lparr>collectors := Some s\<rparr>)))"

text \<open>The clocks at a call: the wall clock in nanoseconds, the processor time, the manager's clock.\<close>

record ticks =
  t_wall :: i64
  t_cpu :: i64
  t_now :: i64

definition stop_timers :: "ticks \<Rightarrow> ('j, 'x, 'w) vkCollectorContext \<Rightarrow> ('j, 'x, 'w) vkCollectorContext" where
  "stop_timers t c = c\<lparr>
     run_duration_wall_timer := DFin (of_int (sint (t_wall t - run_start_wall_timer c)) / 1000000000),
     run_duration_cpu_timer := DFin (of_int (sint (t_cpu t - run_start_cpu_timer c)) / 1000000)\<rparr>"

definition on_collectors ::
  "(('j, 'x, 'w) collection \<Rightarrow> ('j, 'x, 'w) collection result) \<Rightarrow> ('j, 'x, 'w) vkCollectorContext \<Rightarrow>
     ('j, 'x, 'w) vkCollectorContext result" where
  "on_collectors f c = (case collectors c of None \<Rightarrow> Inl NullPointer
     | Some s \<Rightarrow> bind_res (f s) (\<lambda>s'. Inr (c\<lparr>collectors := Some s'\<rparr>)))"

definition process_frame ::
  "(nat \<Rightarrow> ('j, 'x, 'w) vtable) \<Rightarrow> ticks \<Rightarrow> ('j, 'x, 'w) vkCollectorContext \<Rightarrow>
     ('j, 'x, 'w) vkCollectorContext result" where
  "process_frame V t c0 =
     (let c = c0\<lparr>current_subframe := current_subframe c0 + 1\<rparr> in
      if num_subframes_per_frame c \<le> current_subframe c
      then (let c = c\<lparr>current_frame := current_frame c + 1, current_subframe := 0\<rparr> in
        if start_frame c < current_frame c \<and> \<not> collectors_started c
        then bind_res (on_collectors (start V [] (t_now t))
               (c\<lparr>run_start_wall_timer := t_wall t, run_start_cpu_timer := t_cpu t\<rparr>))
             (\<lambda>c. Inr (c\<lparr>collectors_started := True\<rparr>))
        else if end_frame c < current_frame c \<and> collectors_started c
        then bind_res (on_collectors (stop V) c) (\<lambda>c. Inr ((stop_timers t c)\<lparr>collectors_finished := True\<rparr>))
        else if collectors_started c \<and> \<not> collectors_finished c
        then bind_res (on_collectors (collect V [] (t_now t)) c)
               (\<lambda>c. Inr (c\<lparr>frames_processed := frames_processed c + 1\<rparr>))
        else Inr c)
      else Inr c)"

section \<open>Results\<close>

text \<open>
  \<open>std::equal\<close> on the reversed strings: it compares until a character differs or the token ends;
  a name that is a proper suffix of the token is read beyond its start.
\<close>

fun equal_range :: "string \<Rightarrow> string \<Rightarrow> bool result" where
  "equal_range [] bs = Inr True"
| "equal_range (t # ts) [] = Inl OutOfBounds"
| "equal_range (t # ts) (b # bs) = (if t = b then equal_range ts bs else Inr False)"

fun find_sub :: "string \<Rightarrow> string \<Rightarrow> nat option" where
  "find_sub pat s = (if take (length pat) s = pat then Some 0
     else case s of [] \<Rightarrow> None | _ # s' \<Rightarrow> map_option Suc (find_sub pat s'))"

definition output_file :: "string \<Rightarrow> u32 \<Rightarrow> string result" where
  "output_file base n =
     (let json_token = ''.json''; suffix = ''_device_'' @ show_nat (unat n) @ json_token in
      bind_res (equal_range (rev json_token) (rev base)) (\<lambda>eq.
        if eq then (case find_sub json_token base of None \<Rightarrow> Inl OutOfRange
          | Some i \<Rightarrow> Inr (take i base @ suffix))
        else Inr (base @ suffix)))"

text \<open>The frame rates that follow from the cycles the \<open>ferret\<close> collector counted.\<close>

definition ferret_fps :: "'j json_ops \<Rightarrow> u32 \<Rightarrow> double \<Rightarrow> string \<Rightarrow> string \<Rightarrow> 'j \<Rightarrow> 'j" where
  "ferret_fps J frames megacycles runtime_key fps_key d =
     (let runtime = ddiv megacycles (DFin 3000); d1 = j_set J d runtime_key (j_of_double J runtime) in
      j_set J d1 fps_key (j_of_double J (if j_asDouble J (j_at J d1 runtime_key) = DFin 0 then DFin 0
        else ddiv (double_of_int (uint frames)) (j_asDouble J (j_at J d1 runtime_key)))))"

definition ferret_results :: "'j json_ops \<Rightarrow> u32 \<Rightarrow> 'j \<Rightarrow> 'j \<Rightarrow> 'j" where
  "ferret_results J frames res d =
     (if j_isMember J res ''ferret'' \<and> \<not> j_empty J (j_at J res ''ferret'')
         \<and> j_isMember J (j_at J res ''ferret'') ''postprocessed_results''
      then (let p = j_at J (j_at J res ''ferret'') ''postprocessed_results'' in
        ferret_fps J frames (j_asDouble J (j_at J p ''megacycles_sum''))
            ''full_system_cpu_runtime@3GHz'' ''cpu_fps_full_system@3GHz''
          (ferret_fps J frames (double_of_int (sint (j_asInt J (j_at J p ''main_thread_megacycles''))))
            ''main_thread_cpu_runtime@3GHz'' ''cpu_fps_main_thread@3GHz'' d))
      else d)"

definition result_data :: "'j json_ops \<Rightarrow> ('j, 'x, 'w) vkCollectorContext \<Rightarrow> 'j \<Rightarrow> 'j" where
  "result_data J c res =
     (let d = j_set J (j_null J) ''frames'' (j_of_int J (scast (frames_processed c)));
          d = j_set J d ''cpu_runtime_seconds'' (j_of_double J (run_duration_cpu_timer c));
          d = j_set J d ''fps'' (j_of_double J (ddiv (double_of_int (uint (frames_processed c))) (run_duration_wall_timer c)));
          d = j_set J d ''system_runtime_seconds'' (j_of_double J (run_duration_wall_timer c))
      in j_set J (ferret_results J (frames_processed c) res d) ''frame_data'' res)"

text \<open>What one attempt to write the file answers: whether the data was written and the error indicator.\<close>

fun write_loop :: "(bool \<times> int) list \<Rightarrow> bool" where
  "write_loop [] = False"
| "write_loop ((written, err) # as) = (if \<not> written \<and> (err = 11 \<or> err = 4) then write_loop as else written)"

text \<open>
  The second result is the file written, its name and its contents; the argument \<open>file\<close> is \<open>None\<close>
  when the file cannot be opened.
\<close>

definition postprocess_results ::
  "('j, 'x, 'w) host \<Rightarrow> 'j \<Rightarrow> (bool \<times> int) list option \<Rightarrow> ticks \<Rightarrow> ('j, 'x, 'w) vkCollectorContext \<Rightarrow>
     (('j, 'x, 'w) vkCollectorContext \<times> (string \<times> string) option) result" where
  "postprocess_results h cfg file t c0 =
     (if postprocessed c0 \<or> \<not> collectors_started c0 then Inr (c0, None)
      else bind_res (if collectors_finished c0 then Inr c0
          else bind_res (on_collectors (stop (h_vtable h)) c0)
                 (\<lambda>c. Inr ((stop_timers t c)\<lparr>collectors_finished := True\<rparr>))) (\<lambda>c.
        case collectors c of None \<Rightarrow> Inl NullPointer | Some s \<Rightarrow>
          bind_res (results (h_json h) s) (\<lambda>res.
          bind_res (output_file (j_asString (h_json h) (j_at (h_json h) cfg ''result_file_basename'')) (ctx_id c)) (\<lambda>name.
            case file of None \<Rightarrow> Inr (c, None)
            | Some as \<Rightarrow> Inr (c\<lparr>postprocessed := True\<rparr>,
                if write_loop as then Some (name, h_styled h (result_data (h_json h) c res)) else None)))))"

section \<open>Intercepted calls\<close>

text \<open>
  The chain of structures passed to the create functions: the loader's link information holds the
  layers below, the first of which is taken off.
\<close>

datatype chain_link = Other | LinkInfo "nat list"

fun take_link :: "chain_link list \<Rightarrow> (nat \<times> chain_link list) option result" where
  "take_link [] = Inr None"
| "take_link (LinkInfo [] # cs) = Inl NullPointer"
| "take_link (LinkInfo (l # ls) # cs) = Inr (Some (l, LinkInfo ls # cs))"
| "take_link (Other # cs) = bind_res (take_link cs) (\<lambda>r. Inr (map_option (\<lambda>(l, cs'). (l, Other # cs')) r))"

definition lc_vkCreateInstance ::
  "chain_link list \<Rightarrow> VkResult \<Rightarrow> nat \<Rightarrow> ('j, 'x, 'w) layer \<Rightarrow>
     (VkResult \<times> chain_link list \<times> ('j, 'x, 'w) layer) result" where
  "lc_vkCreateInstance chain ret key L = bind_res (take_link chain) (\<lambda>link. case link of
     None \<Rightarrow> Inr (VK_ERROR_INITIALIZATION_FAILED, chain, L)
   | Some (l, chain') \<Rightarrow>
       Inr (ret, chain', L\<lparr>instance_dispatch_map := (instance_dispatch_map L)(key \<mapsto>
          \<lparr>gipa = Next l ''vkGetInstanceProcAddr'', nextDestroyInstance = Next l ''vkDestroyInstance'',
           nextEnumerateDeviceExtensionProperties = Next l ''vkEnumerateDeviceExtensionProperties''\<rparr>)\<rparr>))"

text \<open>The first component is the function that is called at the end.\<close>

definition lc_vkDestroyInstance :: "nat \<Rightarrow> ('j, 'x, 'w) layer \<Rightarrow> (pfn \<times> ('j, 'x, 'w) layer) result" where
  "lc_vkDestroyInstance key L = (case instance_dispatch_map L key of None \<Rightarrow> Inl NullPointer
     | Some table \<Rightarrow> Inr (nextDestroyInstance table,
         L\<lparr>instance_dispatch_map := (instance_dispatch_map L)(key := None)\<rparr>))"

definition lc_vkCreateDevice ::
  "('j, 'x, 'w) host \<Rightarrow> 'w \<Rightarrow> chain_link list \<Rightarrow> VkResult \<Rightarrow> nat \<Rightarrow> ('j, 'x, 'w) layer \<Rightarrow>
     (VkResult \<times> chain_link list \<times> ('j, 'x, 'w) layer) result" where
  "lc_vkCreateDevice h w chain ret device L = bind_res (take_link chain) (\<lambda>link. case link of
     None \<Rightarrow> Inr (VK_ERROR_INITIALIZATION_FAILED, chain, L)
   | Some (l, chain') \<Rightarrow>
       (let c = (vkCollectorContext_new (h_json h) L)\<lparr>gdpa := Next l ''vkGetDeviceProcAddr'',
              nextDestroyDevice := Next l ''vkDestroyDevice'', nextQueueSubmit := Next l ''vkQueueSubmit'',
              nextGetDeviceQueue := Next l ''vkGetDeviceQueue'', nextQueuePresentKHR := Next l ''vkQueuePresentKHR''\<rparr>;
            cfg = json_touch (h_json h) (glibcollector_config L) ''collectors''; a = next_address L in
        bind_res (initialize_collectors h w cfg c) (\<lambda>c.
          Inr (ret, chain', L\<lparr>next_id := next_id L + 1, next_address := Suc a, glibcollector_config := cfg,
            contexts := (contexts L)(a \<mapsto> c), device_to_context_map := (device_to_context_map L)(device \<mapsto> a)\<rparr>))))"

text \<open>
  The results are written when they have not been yet; the destructor tries again, which matters
  when the file could not be opened. The answers of the system to the two attempts are arguments.
\<close>

definition lc_vkDestroyDevice ::
  "('j, 'x, 'w) host \<Rightarrow> (bool \<times> int) list option \<Rightarrow> (bool \<times> int) list option \<Rightarrow> ticks \<Rightarrow> nat \<Rightarrow> ('j, 'x, 'w) layer \<Rightarrow>
     (pfn \<times> (string \<times> string) option list \<times> ('j, 'x, 'w) layer) result" where
  "lc_vkDestroyDevice h file1 file2 t device L =
     bind_res (context_at L (device_to_context_map L device)) (\<lambda>(a, c).
     bind_res (if postprocessed c then Inr (c, None) else postprocess_results h (glibcollector_config L) file1 t c) (\<lambda>(c1, o1).
     bind_res (postprocess_results h (glibcollector_config L) file2 t c1) (\<lambda>(c2, o2).
       Inr (nextDestroyDevice c2, [o1, o2], L\<lparr>device_to_context_map := (device_to_context_map L)(device := None),
         contexts := (contexts L)(a := None)\<rparr>))))"

definition lc_vkGetDeviceQueue :: "nat \<Rightarrow> nat \<Rightarrow> ('j, 'x, 'w) layer \<Rightarrow> (pfn \<times> ('j, 'x, 'w) layer) result" where
  "lc_vkGetDeviceQueue device queue L =
     bind_res (context_at L (device_to_context_map L device)) (\<lambda>(a, c).
       Inr (nextGetDeviceQueue c, L\<lparr>queue_to_context_map := (queue_to_context_map L)(queue \<mapsto> a)\<rparr>))"

definition queue_call ::
  "(nat \<Rightarrow> ('j, 'x, 'w) vtable) \<Rightarrow> (('j, 'x, 'w) vkCollectorContext \<Rightarrow> pfn) \<Rightarrow> ticks \<Rightarrow> nat \<Rightarrow> ('j, 'x, 'w) layer \<Rightarrow>
     (pfn \<times> ('j, 'x, 'w) layer) result" where
  "queue_call V nxt t queue L =
     bind_res (context_at L (queue_to_context_map L queue)) (\<lambda>(a, c).
     bind_res (process_frame V t c) (\<lambda>c. Inr (nxt c, L\<lparr>contexts := (contexts L)(a \<mapsto> c)\<rparr>)))"

definition lc_vkQueueSubmit where
  "lc_vkQueueSubmit V t queue L = queue_call V nextQueueSubmit t queue L"

definition lc_vkQueuePresentKHR where
  "lc_vkQueuePresentKHR V t queue L = queue_call V nextQueuePresentKHR t queue L"

definition lc_vkGetDeviceProcAddr :: "'j json_ops \<Rightarrow> nat \<Rightarrow> string \<Rightarrow> ('j, 'x, 'w) layer \<Rightarrow> pfn result" where
  "lc_vkGetDeviceProcAddr J device funcName L =
     (if funcName \<in> {''vkGetDeviceProcAddr'', ''vkDestroyDevice'', ''vkGetDeviceQueue''} then Inr (Layer funcName)
      else if funcName = (if j_asString J (j_get J (glibcollector_config L) ''frame_trigger_function'' (j_of_string J []))
             = ''vkQueueSubmit'' then ''vkQueueSubmit'' else ''vkQueuePresentKHR'') then Inr (Layer funcName)
      else bind_res (context_at L (device_to_context_map L device)) (\<lambda>(_, c). Inr (ask (gdpa c) funcName)))"

definition lc_vkGetInstanceProcAddr ::
  "'j json_ops \<Rightarrow> bool \<Rightarrow> (string \<Rightarrow> 'j \<Rightarrow> bool \<times> 'j) \<Rightarrow> (nat \<times> (string \<times> bool \<times> int) list) option \<Rightarrow> nat \<Rightarrow> string \<Rightarrow>
     ('j, 'x, 'w) layer \<Rightarrow> (pfn \<times> ('j, 'x, 'w) layer) result" where
  "lc_vkGetInstanceProcAddr J android parse opened key funcName L0 =
     (let L = (if gconfig_initialized L0 then L0
            else (snd (read_config J android parse opened L0))\<lparr>gconfig_initialized := True\<rparr>) in
      if funcName \<in> {''vkGetInstanceProcAddr'', ''vkCreateInstance'', ''vkCreateDevice'', ''vkDestroyInstance''}
      then Inr (Layer funcName, L)
      else case instance_dispatch_map L key of None \<Rightarrow> Inl NullPointer
        | Some table \<Rightarrow> Inr (ask (gipa table) funcName, L))"

text \<open>The number of properties the enumeration functions report, \<open>None\<close> when they do not write it.\<close>

definition vkEnumerateInstanceLayerProperties :: "bool \<Rightarrow> nat option \<times> (string \<times> string) option" where
  "vkEnumerateInstanceLayerProperties null =
     (if null then (Some 1, None)
      else (None, Some (''VK_LAYER_ARM_libcollector'', ''ARM libcollector layer implementation.'')))"

definition vkEnumerateInstanceExtensionProperties :: "string option \<Rightarrow> VkResult \<times> nat option" where
  "vkEnumerateInstanceExtensionProperties pLayerName =
     (case pLayerName of None \<Rightarrow> (VK_ERROR_LAYER_NOT_PRESENT, None)
      | Some n \<Rightarrow> if n = ''VK_LAYER_ARM_libcollector'' then (VK_SUCCESS, Some 0) else (VK_ERROR_LAYER_NOT_PRESENT, None))"

definition vkEnumerateDeviceExtensionProperties ::
  "nat option \<Rightarrow> string option \<Rightarrow> bool \<Rightarrow> ('j, 'x, 'w) layer \<Rightarrow> (pfn option \<times> nat option) result" where
  "vkEnumerateDeviceExtensionProperties physicalDevice pLayerName count_null L =
     (if pLayerName \<noteq> Some ''VK_LAYER_ARM_libcollector''
      then (case physicalDevice of None \<Rightarrow> Inr (None, None)
        | Some key \<Rightarrow> (case instance_dispatch_map L key of None \<Rightarrow> Inl NullPointer
            | Some table \<Rightarrow> Inr (Some (nextEnumerateDeviceExtensionProperties table), None)))
      else Inr (None, if count_null then None else Some 0))"

end
