(* ===== verification/Vulkan_Runs.thy ===== *)
theory Vulkan_Runs
  imports Vulkan_Layer
begin

text \<open>
  The layer and the manager together: which frames of a Vulkan program are recorded, what happens
  after the last one, and where the results of a device go.
\<close>

section \<open>The frames of a run\<close>

definition frames_run ::
  "(nat \<Rightarrow> ('j, 'x, 'w) vtable) \<Rightarrow> ticks list \<Rightarrow> ('j, 'x, 'w) vkCollectorContext \<Rightarrow>
     ('j, 'x, 'w) vkCollectorContext result" where
  "frames_run V ts c = fold_res (\<lambda>c t. process_frame V t c) c ts"

text \<open>
  \<open>schedule n c\<close>: where a context stands after \<open>n\<close> calls of the frame function. With \<open>s\<close> calls per
  frame, start frame \<open>a\<close> and end frame \<open>b\<close>, the run starts with frame \<open>a + 1\<close>, the frames after it
  up to \<open>b\<close> are recorded, and the run is over after frame \<open>b\<close>.
\<close>

definition schedule :: "nat \<Rightarrow> ('j, 'x, 'w) vkCollectorContext \<Rightarrow> bool" where
  "schedule n c \<longleftrightarrow>
     (let s = unat (num_subframes_per_frame c); a = unat (start_frame c); b = unat (end_frame c); f = n div s in
      unat (current_frame c) = f \<and> unat (current_subframe c) = n mod s
      \<and> (collectors_started c \<longleftrightarrow> a < f) \<and> (collectors_finished c \<longleftrightarrow> a + 1 < f \<and> b < f)
      \<and> unat (frames_processed c) = (if a < f then min f b - (a + 1) else 0)
      \<and> (a < f \<longrightarrow> (\<exists>m. collectors c = Some m \<and> length (mTiming m) = unat (frames_processed c)
            \<and> mCustomHeaders m = [])))"

context manager
begin

lemma stop_keeps_timing:
  assumes "stop V s = Inr s'"
  shows "mTiming s' = mTiming s \<and> mCustomHeaders s' = mCustomHeaders s"
proof -
  let ?P = "\<lambda>(tmp :: nat list, t). mTiming t = mTiming s \<and> mCustomHeaders t = mCustomHeaders s"
  obtain tmp s1 where 1: "fold_res (stop_one V) ([], foldl signal_finished s (mRunning s)) (mRunning s) = Inr (tmp, s1)"
    and s': "s' = s1\<lparr>mRunning := tmp, running := False\<rparr>"
    using assms by (auto simp: stop_def)
  have sf: "mTiming (foldl signal_finished t ps) = mTiming t \<and>
      mCustomHeaders (foldl signal_finished t ps) = mCustomHeaders t" for t ps
    by (induction ps arbitrary: t) (auto simp: signal_finished_def update_obj_def)
  have "?P (tmp, s1)"
  proof (rule fold_res_invariant [OF 1])
    show "?P ([], foldl signal_finished s (mRunning s))" using sf by simp
  next
    fix q p q' assume P: "?P q" and q': "stop_one V q p = Inr q'"
    obtain l t where q: "q = (l, t)" by (cases q)
    obtain l' t' where t': "q' = (l', t')" by (cases q')
    have "same_manager t t'" using stop_one_effect [of l t p l' t'] q' q t' by simp
    then have "mTiming t' = mTiming t" "mCustomHeaders t' = mCustomHeaders t"
      by (simp_all add: same_manager_fields)
    then show "?P q'" using P t' q by simp
  qed
  then show ?thesis by (simp add: s')
qed

end

lemma schedule_step:
  assumes m: "manager V" and sch: "schedule n c" and n: "Suc n < 2 ^ 32" and s: "0 < num_subframes_per_frame c"
    and r: "process_frame V t c = Inr c'"
  shows "schedule (Suc n) c' \<and> num_subframes_per_frame c' = num_subframes_per_frame c
    \<and> start_frame c' = start_frame c \<and> end_frame c' = end_frame c"
proof -
  let ?s = "unat (num_subframes_per_frame c)" and ?a = "unat (start_frame c)" and ?b = "unat (end_frame c)"
  let ?f = "n div ?s"
  have s0: "0 < ?s" using s by (simp add: unat_gt_0)
  have cf: "unat (current_frame c) = ?f" and cs: "unat (current_subframe c) = n mod ?s"
    and st: "collectors_started c \<longleftrightarrow> ?a < ?f" and fin: "collectors_finished c \<longleftrightarrow> ?a + 1 < ?f \<and> ?b < ?f"
    and fp: "unat (frames_processed c) = (if ?a < ?f then min ?f ?b - (?a + 1) else 0)"
    and tm: "?a < ?f \<Longrightarrow> \<exists>m. collectors c = Some m \<and> length (mTiming m) = unat (frames_processed c)
            \<and> mCustomHeaders m = []"
    using sch by (auto simp: schedule_def Let_def)
  have fn: "Suc ?f < 2 ^ 32" using n div_le_dividend [of n ?s] by linarith
  have cs1: "unat (current_subframe c + 1) = Suc (n mod ?s)"
    using cs n unat_add_small [of "current_subframe c" 1] mod_less_eq_dividend [of n ?s] by simp
  have cf1: "unat (current_frame c + 1) = Suc ?f"
    using cf n fn unat_add_small [of "current_frame c" 1] by simp
  show ?thesis
  proof (cases "Suc (n mod ?s) = ?s")
    case False
    then have "\<not> num_subframes_per_frame c \<le> current_subframe c + 1"
      using cs1 mod_less_divisor [OF s0, of n] by (simp add: word_le_nat_alt)
    then have c': "c' = c\<lparr>current_subframe := current_subframe c + 1\<rparr>"
      using r by (auto simp: process_frame_def Let_def)
    have "Suc n div ?s = ?f" "Suc n mod ?s = Suc (n mod ?s)" using False by (simp_all add: div_Suc mod_Suc)
    then show ?thesis using cf cs1 st fin fp tm by (auto simp: c' schedule_def Let_def)
  next
    case True
    then have full: "num_subframes_per_frame c \<le> current_subframe c + 1" using cs1 by (simp add: word_le_nat_alt)
    have f': "Suc n div ?s = Suc ?f" "Suc n mod ?s = 0" using True by (simp_all add: div_Suc mod_Suc)
    define c1 where "c1 = c\<lparr>current_frame := current_frame c + 1, current_subframe := 0\<rparr>"
    have lt: "start_frame c < current_frame c + 1 \<longleftrightarrow> ?a < Suc ?f" "end_frame c < current_frame c + 1 \<longleftrightarrow> ?b < Suc ?f"
      using cf1 by (simp_all add: word_less_nat_alt)
    note sim = process_frame_def Let_def on_collectors_def full lt st fin schedule_def f' cf1
    consider (starts) "?a = ?f" | (stops) "?a < ?f" "?b \<le> ?f" | (collects) "?a < ?f" "?f < ?b" | (idle) "?f < ?a"
      by linarith
    then show ?thesis
    proof cases
      case starts
      then obtain m m' where "collectors c = Some m" and 1: "start V [] (t_now t) m = Inr m'"
        and c': "c' = c1\<lparr>run_start_wall_timer := t_wall t, run_start_cpu_timer := t_cpu t, collectors := Some m',
          collectors_started := True\<rparr>"
        using r by (auto simp: sim c1_def split: option.splits)
      show ?thesis using starts manager.start_timing [OF m 1] fp fin by (simp add: c' c1_def schedule_def Let_def f' cf1)
    next
      case stops
      then obtain k where k: "collectors c = Some k" "length (mTiming k) = unat (frames_processed c)" "mCustomHeaders k = []"
        using tm by blast
      then obtain k' where 1: "stop V k = Inr k'"
        and c': "c' = (stop_timers t (c1\<lparr>collectors := Some k'\<rparr>))\<lparr>collectors_finished := True\<rparr>"
        using r stops by (auto simp: sim c1_def)
      show ?thesis using stops manager.stop_keeps_timing [OF m 1] fp st k
        by (simp add: c' c1_def schedule_def Let_def f' cf1 stop_timers_def min_def)
    next
      case collects
      then obtain k where k: "collectors c = Some k" "length (mTiming k) = unat (frames_processed c)" "mCustomHeaders k = []"
        using tm by blast
      then obtain k' where 1: "collect V [] (t_now t) k = Inr k'"
        and c': "c' = c1\<lparr>collectors := Some k', frames_processed := frames_processed c + 1\<rparr>"
        using r collects by (auto simp: sim c1_def)
      have "unat (frames_processed c + 1) = Suc (unat (frames_processed c))"
        using fp collects n fn unat_add_small [of "frames_processed c" 1] by simp
      then show ?thesis using collects manager.collect_timing [OF m 1] fp fin st k
        by (simp add: c' c1_def schedule_def Let_def f' cf1)
    next
      case idle
      then have "c' = c1" using r by (auto simp: sim c1_def split: if_splits)
      then show ?thesis using idle fp fin st by (simp add: c1_def schedule_def Let_def f' cf1)
    qed
  qed
qed

lemma frames_run_schedule:
  "manager V \<Longrightarrow> schedule n c \<Longrightarrow> n + length ts < 2 ^ 32 \<Longrightarrow> 0 < num_subframes_per_frame c \<Longrightarrow>
     frames_run V ts c = Inr c' \<Longrightarrow>
     schedule (n + length ts) c' \<and> num_subframes_per_frame c' = num_subframes_per_frame c
       \<and> start_frame c' = start_frame c \<and> end_frame c' = end_frame c"
proof (induction ts arbitrary: n c)
  case (Cons t ts)
  from Cons.prems(5) obtain c1 where 1: "process_frame V t c = Inr c1" and 2: "frames_run V ts c1 = Inr c'"
    by (auto simp: frames_run_def)
  have "Suc n < 2 ^ 32" using Cons.prems(3) by simp
  note s1 = schedule_step [OF Cons.prems(1,2) this Cons.prems(4) 1]
  show ?case using Cons.IH [of "Suc n" c1] Cons.prems(1,3,4) s1 2 by simp
qed (simp add: frames_run_def)

text \<open>
  C36: which frames are recorded. After any number of calls of the frame function on the context of
  a new device, the frame count is the number of calls divided by the calls per frame; the
  manager has been started once the count passes \<open>start_frame\<close> and stopped once it passes
  \<open>end_frame\<close> (and the frame after the start); the number of recorded frames, which is also the
  length of the manager's timing column, counts the frames after the one that started the run, up
  to and including \<open>end_frame\<close>.
\<close>

theorem layer_schedule:
  assumes "\<forall>p. collector_class (V p)" and "0 < num_subframes_per_frame c"
    and "c = (vkCollectorContext_new J L)\<lparr>collectors := Some m\<rparr>"
    and "length ts < 2 ^ 32" and "frames_run V ts c = Inr c'"
  shows "let f = length ts div unat (num_subframes_per_frame c); a = unat (start_frame c); b = unat (end_frame c) in
    unat (current_frame c') = f \<and> (collectors_started c' \<longleftrightarrow> a < f)
    \<and> (collectors_finished c' \<longleftrightarrow> a + 1 < f \<and> b < f)
    \<and> unat (frames_processed c') = (if a < f then min f b - (a + 1) else 0)
    \<and> (a < f \<longrightarrow> (\<exists>m'. collectors c' = Some m' \<and> length (mTiming m') = unat (frames_processed c')))"
proof -
  have m: "manager V" using assms(1) by (simp add: manager_def)
  have "schedule 0 c" by (simp add: assms(3) schedule_def vkCollectorContext_new_def Let_def)
  from frames_run_schedule [OF m this _ assms(2,5)] assms(4) show ?thesis
    by (auto simp: schedule_def Let_def)
qed

definition example_layer :: "(json, private_state, unit) layer" where
  "example_layer = \<lparr>instance_dispatch_map = \<lambda>_. None, device_to_context_map = \<lambda>_. None,
     queue_to_context_map = \<lambda>_. None, contexts = \<lambda>_. None, next_address = 0, gconfig_initialized = True,
     glibcollector_config = JNull, next_id = 0\<rparr>"

definition example_context :: "(json, private_state, unit) vkCollectorContext" where
  "example_context = (vkCollectorContext_new tree_json example_layer)
     \<lparr>collectors := Some (example_running\<lparr>mRunning := []\<rparr>)\<rparr>"

definition example_ticks :: "ticks list" where
  "example_ticks = [\<lparr>t_wall = 10, t_cpu = 1, t_now = 100\<rparr>, \<lparr>t_wall = 20, t_cpu = 2, t_now = 200\<rparr>,
     \<lparr>t_wall = 30, t_cpu = 3, t_now = 300\<rparr>]"

lemma example_frames: "\<exists>c'. frames_run example_V example_ticks example_context = Inr c'"
  by (simp add: frames_run_def example_ticks_def example_context_def vkCollectorContext_new_def example_layer_def
      process_frame_def on_collectors_def start_def collect_def each_unthreaded_def example_running_def
      empty_collection_def resize_def Let_def)

theorem layer_schedule_witness:
  "\<exists>c'. frames_run example_V example_ticks example_context = Inr c' \<and> unat (frames_processed c') = 2"
proof -
  obtain c' where c': "frames_run example_V example_ticks example_context = Inr c'" using example_frames by blast
  have f: "num_subframes_per_frame example_context = 1" "start_frame example_context = 0"
    "end_frame example_context = 99999" "length example_ticks = 3"
    by (simp_all add: example_context_def vkCollectorContext_new_def example_layer_def example_ticks_def Let_def)
  from layer_schedule [OF _ _ example_context_def _ c'] example_V_class f c' show ?thesis by (simp add: Let_def)
qed

section \<open>After the last frame\<close>

text \<open>
  The frame after the last one stops the manager again. Once the frame count has passed
  \<open>end_frame\<close> every further frame calls \<open>stop\<close>; when the first enabled collector has a thread of
  its own, the second of these calls throws, out of the intercepted Vulkan call.
\<close>

theorem layer_stops_twice:
  assumes "\<forall>p. collector_class (V p)" and "collectors c = Some s" and "coll_wf s" and "collectors_started c"
    and "num_subframes_per_frame c = 1" and "current_subframe c = 0" and "end_frame c \<le> current_frame c"
    and "unat (current_frame c) + 2 < 2 ^ 32" and "process_frame V t c = Inr c1"
    and "collectors c1 = Some s1" and "mRunning s1 = p # ps" and "mIsThreaded (objs s1 p)"
  shows "process_frame V t' c1 = Inl InvalidJoin"
proof -
  have m: "manager V" using assms(1) by (simp add: manager_def)
  have f1: "unat (current_frame c + 1) = unat (current_frame c) + 1"
    and f2: "unat (current_frame c + 2) = unat (current_frame c) + 2"
    using unat_add_small [of "current_frame c" 1] unat_add_small [of "current_frame c" 2] assms(8) by simp_all
  have e: "end_frame c < current_frame c + 1" "end_frame c < current_frame c + 2"
    using assms(7) f1 f2 by (simp_all add: word_less_nat_alt word_le_nat_alt)
  from assms(2,4-6,9,10) e(1) have s1: "stop V s = Inr s1"
    and c1: "collectors_started c1" "num_subframes_per_frame c1 = 1" "current_subframe c1 = 0"
      "end_frame c1 = end_frame c" "current_frame c1 = current_frame c + 1"
    by (auto simp: process_frame_def Let_def on_collectors_def stop_timers_def)
  have "thread (objs s1 p) = NotJoinable" using manager.stop_wf [OF m s1 assms(3)] by simp
  from manager.stop_first_not_joinable [OF m assms(11,12) this] c1 e(2) assms(10) show ?thesis
    by (simp add: process_frame_def Let_def on_collectors_def add.assoc)
qed

definition example_last :: "(json, private_state, unit) vkCollectorContext" where
  "example_last = example_context\<lparr>collectors := Some example_running, collectors_started := True,
     current_frame := 5, end_frame := 5\<rparr>"

theorem layer_stops_twice_witness:
  "\<exists>c1. process_frame example_V \<lparr>t_wall = 10, t_cpu = 1, t_now = 100\<rparr> example_last = Inr c1
     \<and> process_frame example_V \<lparr>t_wall = 20, t_cpu = 2, t_now = 200\<rparr> c1 = Inl InvalidJoin"
proof -
  obtain s1 where s1: "stop example_V example_running = Inr s1" "mRunning s1 = [0]" "mIsThreaded (objs s1 0)"
    using example_stop by blast
  have f: "collectors example_last = Some example_running" "collectors_started example_last"
    "num_subframes_per_frame example_last = 1" "current_subframe example_last = 0"
    "end_frame example_last \<le> current_frame example_last" "unat (current_frame example_last) + 2 < 2 ^ 32"
    "start_frame example_last = 0" "current_frame example_last = 5" "end_frame example_last = 5"
    by (simp_all add: example_last_def example_context_def vkCollectorContext_new_def example_layer_def Let_def)
  then obtain c1 where c1: "process_frame example_V \<lparr>t_wall = 10, t_cpu = 1, t_now = 100\<rparr> example_last = Inr c1"
    "collectors c1 = Some s1"
    using s1(1) by (simp add: process_frame_def on_collectors_def stop_timers_def Let_def)
  then show ?thesis
    using layer_stops_twice [OF _ f(1) example_running_wf f(2-6) c1(1,2) s1(2,3)] example_V_class by blast
qed

section \<open>The result files\<close>

lemma equal_range_suffix: "equal_range ts bs = Inr True \<Longrightarrow> \<exists>r. bs = ts @ r"
  by (induction ts bs rule: equal_range.induct) (auto split: if_splits)

lemma equal_range_append: "equal_range ts (ts @ r) = Inr True"
  by (induction ts) auto

lemma find_sub_le: "find_sub pat (xs @ pat) \<noteq> None"
proof (induction xs)
  case Nil
  show ?case by (simp add: find_sub.simps)
next
  case (Cons x xs)
  then show ?case by (subst find_sub.simps) (auto split: option.splits)
qed

lemma show_nat_inject: "show_nat a = show_nat b \<Longrightarrow> a = b"
  by (metis digits_value_show_nat)

definition device_suffix :: "u32 \<Rightarrow> string" where
  "device_suffix n = ''_device_'' @ show_nat (unat n) @ ''.json''"

lemma output_file_cases:
  assumes "output_file base n = Inr name"
  obtains k where "name = take k base @ device_suffix n" and "\<And>m. output_file base m = Inr (take k base @ device_suffix m)"
proof -
  obtain eq where eq: "equal_range (rev ''.json'') (rev base) = Inr eq"
    using assms by (auto simp: output_file_def Let_def simp del: rev.simps)
  show ?thesis
  proof (cases eq)
    case False
    then show ?thesis using assms eq that [of "length base"]
      by (simp add: output_file_def Let_def device_suffix_def del: rev.simps)
  next
    case True
    then obtain k where "find_sub ''.json'' base = Some k"
      using assms eq by (auto simp: output_file_def Let_def simp del: rev.simps find_sub.simps split: option.splits)
    then show ?thesis using True assms eq that [of k]
      by (simp add: output_file_def Let_def device_suffix_def del: rev.simps find_sub.simps)
  qed
qed

text \<open>
  The result files of different devices. Whatever base name is configured, two devices with
  different numbers never write the same file; a base name that ends in \<open>.json\<close> and has no other
  occurrence of it gets the device number in front of the ending.
\<close>

theorem output_file_distinct:
  assumes "output_file base i = Inr a" and "output_file base j = Inr b" and "i \<noteq> j"
    and "find_sub ''.json'' (stem @ ''.json'') = Some (length stem)"
  shows "a \<noteq> b \<and> output_file (stem @ ''.json'') i = Inr (stem @ ''_device_'' @ show_nat (unat i) @ ''.json'')"
proof
  obtain k where a: "a = take k base @ device_suffix i" and "\<And>m. output_file base m = Inr (take k base @ device_suffix m)"
    using output_file_cases [OF assms(1)] by blast
  then have b: "b = take k base @ device_suffix j" using assms(2) by simp
  show "a \<noteq> b"
  proof
    assume "a = b"
    then have "show_nat (unat i) = show_nat (unat j)" by (simp add: a b device_suffix_def)
    then show False using show_nat_inject assms(3) by (simp add: word_unat_eq_iff)
  qed
  have "equal_range (rev ''.json'') (rev (stem @ ''.json'')) = Inr True"
    unfolding rev_append by (rule equal_range_append)
  then show "output_file (stem @ ''.json'') i = Inr (stem @ ''_device_'' @ show_nat (unat i) @ ''.json'')"
    using assms(4) by (simp add: output_file_def Let_def del: rev.simps rev_append find_sub.simps)
qed

theorem output_file_distinct_witness:
  "output_file (''results'' @ ''.json'') 0 = Inr ''results_device_0.json''"
proof -
  have d: "digit_char 0 = CHR ''0''" "digit_char 1 = CHR ''1''" by code_simp+
  have e: "output_file ''x'' 0 = Inr ''x_device_0.json''" "output_file ''x'' 1 = Inr ''x_device_1.json''"
    "find_sub ''.json'' (''results'' @ ''.json'') = Some (length ''results'')" "show_nat 0 = ''0''"
    using d by (simp_all add: output_file_def Let_def show_nat.simps)
  show ?thesis using output_file_distinct [OF e(1,2) _ e(3)] e(4) by simp
qed

end
