(* ===== verification/Streamline.thy ===== *)
theory Streamline
  imports Annotate_Messages Dispatch
begin

text \<open>
  \<open>StreamlineCollector\<close>: a collector without samples that marks the recorded frames in the
  annotation stream. Its world is the state of the annotation library.
\<close>

definition measured_frames :: "byte list" where
  "measured_frames = map (\<lambda>ch. of_nat (of_char ch)) ''Measured frames''"

definition Streamline_init :: "setup_results \<Rightarrow> ('j, 'x, gator_state) vmethod" where
  "Streamline_init r c w = Inr (True, c, gator_annotate_setup r w)"

definition Streamline_start :: "call_env \<Rightarrow> nat \<Rightarrow> ('j, 'x, gator_state) vmethod" where
  "Streamline_start env caller c w =
     (if mCollecting c then Inr (True, c, w)
      else case gator_annotate_str env caller 0 (Some measured_frames) w of None \<Rightarrow> Inl NoReturn
        | Some w' \<Rightarrow> Inr (True, c\<lparr>mCollecting := True\<rparr>, w'))"

definition Streamline_stop :: "call_env \<Rightarrow> nat \<Rightarrow> ('j, 'x, gator_state) vmethod" where
  "Streamline_stop env caller c w =
     (if mCollecting c
      then case gator_annotate_str env caller 0 None w of None \<Rightarrow> Inl NoReturn
        | Some w' \<Rightarrow> Inr (True, c\<lparr>mCollecting := False\<rparr>, w')
      else Inr (True, c\<lparr>mCollecting := False\<rparr>, w))"

definition streamline_vtable :: "setup_results \<Rightarrow> call_env \<Rightarrow> nat \<Rightarrow> ('j, 'x, gator_state) vtable" where
  "streamline_vtable r env caller =
     (base_vtable (\<lambda>now. pure_method (\<lambda>c. (True, c))) (pure_method (\<lambda>c. (True, c))))
       \<lparr>v_init := Streamline_init r, v_deinit := pure_method (\<lambda>c. (True, c)),
        v_start := Streamline_start env caller, v_stop := Streamline_stop env caller,
        v_postprocess := (\<lambda>timing. pure_method (\<lambda>c. (True, c)))\<rparr>"

lemma streamline_contract:
  "keeps_contract (Streamline_init r)" "keeps_contract (Streamline_start env caller)"
  "keeps_contract (Streamline_stop env caller)"
  by (auto simp: keeps_contract_def managed_def Streamline_init_def Streamline_start_def Streamline_stop_def
      split: if_splits option.splits)

interpretation streamline: collector_class "streamline_vtable r env caller"
  unfolding streamline_vtable_def
  by (intro collector_class_override_postprocess collector_class_override base_collector_class
      streamline_contract contract_pure) auto

end
