(* ===== verification/Hwcpipe.thy ===== *)
theory Hwcpipe
  imports Hwc_Names Collector C_Library
begin

text \<open>
  The reader of the Mali hardware counters (\<open>hwcpipe.cpp\<close>): identifying the GPU, opening the counter
  interface of the driver, the table that maps the cores of the program to the cores of the GPU, and
  the layout of the counters in a sample. The driver is outside the repository: what its calls
  answer is an argument.
\<close>

section \<open>Hardware information\<close>

record MaliHWInfo =
  valid :: bool
  mp_count :: u32
  gpu_id :: u32
  r_value :: u32
  p_value :: u32
  core_mask :: u32

text \<open>A call of the driver answers with the result of \<open>ioctl\<close> and the code it leaves in the header.\<close>

definition mali_ioctl :: "int \<times> u32 \<Rightarrow> int" where
  "mali_ioctl a = (case a of (res, ret) \<Rightarrow> if res \<noteq> 0 then - 1 else if ret \<noteq> 0 then - 1 else 0)"

text \<open>The answers of the driver to the property calls; \<open>groups\<close> is the array of 16 core groups.\<close>

record gpu_answers =
  g_open :: int
  g_version :: "int \<times> u32"
  g_flags :: "int \<times> u32"
  g_props :: "int \<times> u32"
  g_product_id :: u32
  g_major :: u16
  g_minor :: u16
  g_num_core_groups :: u32
  g_groups :: "u64 list"

definition popcount :: "u32 \<Rightarrow> nat" where
  "popcount w = length (filter (bit w) [0..<32])"

fun or_masks :: "nat \<Rightarrow> u64 list \<Rightarrow> u32 \<Rightarrow> u32 result" where
  "or_masks 0 gs m = Inr m"
| "or_masks (Suc n) [] m = Inl OutOfBounds"
| "or_masks (Suc n) (g # gs) m = or_masks n gs (m OR ucast g)"

definition get_mali_hw_info :: "gpu_answers \<Rightarrow> MaliHWInfo \<Rightarrow> (bool \<times> MaliHWInfo) result" where
  "get_mali_hw_info g info0 =
     (let info = info0\<lparr>valid := False\<rparr> in
      if g_open g < 0 \<or> mali_ioctl (g_version g) \<noteq> 0 \<or> mali_ioctl (g_flags g) \<noteq> 0
        \<or> mali_ioctl (g_props g) \<noteq> 0 then Inr (False, info)
      else bind_res (or_masks (unat (g_num_core_groups g)) (g_groups g) (core_mask info)) (\<lambda>m.
        Inr (True, info\<lparr>gpu_id := g_product_id g, r_value := ucast (g_major g), p_value := ucast (g_minor g),
          core_mask := m, mp_count := of_nat (popcount m), valid := True\<rparr>)))"

section \<open>The reader\<close>

record MaliHWCReader =
  hw :: MaliHWInfo
  rd_fd :: int
  hwc_fd :: int
  buffer_size :: u32
  buffer_count :: u32
  hw_ver :: u32
  sample_data :: "u32 list option"
  timestamp :: u64
  counter_buffer :: "u32 list"
  lut :: "string list"
  alive :: bool
  core_index_remap :: "nat list"

text \<open>The answers of the driver to the calls of one attempt; \<open>a_mapped\<close> is what the memory map shows.\<close>

record reader_answers =
  a_open :: int
  a_check :: "int \<times> u32"
  a_major :: u16
  a_flags :: "int \<times> u32"
  a_setup :: "int \<times> u32"
  a_hwc_fd :: int
  a_api :: int
  a_api_version :: u32
  a_size :: int
  a_buffer_size :: u32
  a_hwver :: int
  a_hw_ver :: u32
  a_mapped :: "u32 list option"
  a_interval :: int

definition HWCNT_READER_API :: u32 where
  "HWCNT_READER_API = 1"

definition reader_term :: "MaliHWCReader \<Rightarrow> MaliHWCReader" where
  "reader_term r = r\<lparr>sample_data := None, hwc_fd := - 1, rd_fd := - 1\<rparr>"

text \<open>The last product whose masked number is that of the GPU.\<close>

definition identify :: "u32 \<Rightarrow> string list option" where
  "identify gid = fold (\<lambda>p found. if product_mask p AND gid = product_id p then Some (names_lut p) else found)
     products None"

text \<open>\<open>__builtin_ctz\<close>.\<close>

fun ctz :: "nat \<Rightarrow> nat" where
  "ctz n = (if n = 0 \<or> odd n then 0 else Suc (ctz (n div 2)))"

declare ctz.simps [simp del]

lemma ctz_least: "n \<noteq> 0 \<Longrightarrow> bit n (ctz n) \<and> (\<forall>i < ctz n. \<not> bit n i)"
proof (induction n rule: ctz.induct)
  case (1 n)
  show ?case
  proof (cases "odd n")
    case True
    then show ?thesis by (simp add: ctz.simps [of n] bit_0)
  next
    case False
    then have n: "bit (n div 2) (ctz (n div 2)) \<and> (\<forall>i < ctz (n div 2). \<not> bit (n div 2) i)"
      using 1 by (simp add: dvd_div_eq_0_iff)
    have "\<not> bit n i" if "i < Suc (ctz (n div 2))" for i
      using that n False by (cases i) (simp_all add: bit_0 bit_Suc)
    then show ?thesis using n False 1(2) by (simp add: ctz.simps [of n] bit_Suc)
  qed
qed

lemma lowest_bit:
  fixes m :: u32
  assumes "m \<noteq> 0"
  shows "bit m (ctz (unat m))" and "i < ctz (unat m) \<Longrightarrow> \<not> bit m i" and "ctz (unat m) < 32"
proof -
  have e: "bit (unat m) i = bit m i" for i by (simp add: bit_unsigned_iff possible_bit_def)
  have "bit (unat m) (ctz (unat m)) \<and> (\<forall>i < ctz (unat m). \<not> bit (unat m) i)"
    using ctz_least [of "unat m"] assms by (simp add: unat_eq_0)
  then show "bit m (ctz (unat m))" and "i < ctz (unat m) \<Longrightarrow> \<not> bit m i" by (simp_all add: e)
  then show "ctz (unat m) < 32" using bit_imp_le_length [of m] by simp
qed

lemma clear_bit_less:
  fixes m :: u32
  assumes "bit m b"
  shows "m AND NOT (push_bit b 1) < m"
proof -
  have "m AND NOT (push_bit b 1) \<le> m" by (rule word_and_le2)
  moreover have "m AND NOT (push_bit b 1) \<noteq> m"
  proof
    assume e: "m AND NOT (push_bit b 1) = m"
    have "b < 32" using bit_imp_le_length [OF assms] by simp
    then have "\<not> bit (m AND NOT (push_bit b 1)) b" by (simp add: bit_simps)
    then show False using e assms by simp
  qed
  ultimately show ?thesis by simp
qed

function remap_loop :: "u32 \<Rightarrow> nat list \<Rightarrow> nat list" where
  "remap_loop m acc =
     (if m = 0 then acc
      else let b = ctz (unat m) in remap_loop (m AND NOT (push_bit b 1)) (acc @ [b]))"
  by pat_completeness auto
termination
proof (relation "measure (\<lambda>(m, acc). unat m)", goal_cases)
  case (2 m acc b)
  then show ?case using clear_bit_less [OF lowest_bit(1) [of m]] by (simp add: word_less_nat_alt)
qed simp

declare remap_loop.simps [simp del]

definition init_reader :: "reader_answers \<Rightarrow> u32 \<Rightarrow> MaliHWCReader \<Rightarrow> bool \<times> MaliHWCReader" where
  "init_reader a n r0 =
     (let r = (reader_term r0)\<lparr>buffer_count := n, rd_fd := a_open a\<rparr> in
      if a_open a < 0 then (False, r)
      else if mali_ioctl (a_check a) \<noteq> 0 \<or> a_major a < 10 then (False, r)
      else if mali_ioctl (a_flags a) \<noteq> 0 then (False, r)
      else if mali_ioctl (a_setup a) \<noteq> 0 then (False, r)
      else let r = r\<lparr>hwc_fd := a_hwc_fd a\<rparr> in
        if a_api a \<noteq> 0 \<or> a_api_version a \<noteq> HWCNT_READER_API then (False, r)
        else if a_size a \<noteq> 0 then (False, r)
        else let r = r\<lparr>buffer_size := a_buffer_size a\<rparr> in
          if a_hwver a \<noteq> 0 then (False, r)
          else let r = r\<lparr>hw_ver := a_hw_ver a, sample_data := a_mapped a\<rparr> in
            if a_mapped a = None then (False, r)
            else if a_interval a \<noteq> 0 then (False, r)
            else case identify (gpu_id (hw r)) of None \<Rightarrow> (False, r)
              | Some names \<Rightarrow> (True, r\<lparr>lut := names, alive := True,
                  counter_buffer := replicate (unat (buffer_size r) div 4) 0,
                  core_index_remap := remap_loop (core_mask (hw r)) []\<rparr>))"

text \<open>The constructor: up to 1023 attempts with a growing number of buffers.\<close>

fun init_attempts :: "(nat \<Rightarrow> reader_answers) \<Rightarrow> nat list \<Rightarrow> MaliHWCReader \<Rightarrow> MaliHWCReader" where
  "init_attempts ans [] r = r"
| "init_attempts ans (i # is) r =
     (if alive r then r else init_attempts ans is (snd (init_reader (ans i) (of_nat i) r)))"

definition MaliHWCReader_new :: "MaliHWInfo \<Rightarrow> (nat \<Rightarrow> reader_answers) \<Rightarrow> MaliHWCReader" where
  "MaliHWCReader_new info ans =
     (let r = \<lparr>hw = info, rd_fd = - 1, hwc_fd = - 1, buffer_size = 0, buffer_count = 0, hw_ver = 0,
        sample_data = None, timestamp = 0, counter_buffer = [], lut = [], alive = False,
        core_index_remap = []\<rparr> in
      if valid info then init_attempts ans [1..<1024] r else r)"

section \<open>Names and counters\<close>

definition get_counter_names :: "MaliHWCReader \<Rightarrow> MaliCounterBlockName \<Rightarrow> string list" where
  "get_counter_names r block = drop (MALI_NAME_BLOCK_SIZE * block_number block) (lut r)"

fun find_from :: "nat \<Rightarrow> string list \<Rightarrow> string \<Rightarrow> int" where
  "find_from i [] name = - 1"
| "find_from i (n # ns) name = (if strstr n name then int i else find_from (Suc i) ns name)"

definition find_counter_index_by_name :: "MaliHWCReader \<Rightarrow> MaliCounterBlockName \<Rightarrow> string \<Rightarrow> int" where
  "find_counter_index_by_name r block name =
     find_from 0 (take MALI_NAME_BLOCK_SIZE (get_counter_names r block)) name"

definition remap_core_index :: "MaliHWCReader \<Rightarrow> nat \<Rightarrow> nat result" where
  "remap_core_index r i = (if i < length (core_index_remap r) then Inr (core_index_remap r ! i) else Inl OutOfBounds)"

text \<open>The position of a block in the sample, in counters.\<close>

definition get_counters :: "MaliHWCReader \<Rightarrow> MaliCounterBlockName \<Rightarrow> nat \<Rightarrow> nat result" where
  "get_counters r block core =
     (if hw_ver r < 5 then
        (case block of MALI_NAME_BLOCK_JM \<Rightarrow> Inr (MALI_NAME_BLOCK_SIZE * 6)
         | MALI_NAME_BLOCK_MMU \<Rightarrow> Inr (MALI_NAME_BLOCK_SIZE * 5)
         | MALI_NAME_BLOCK_TILER \<Rightarrow> Inr (MALI_NAME_BLOCK_SIZE * 4)
         | MALI_NAME_BLOCK_SHADER \<Rightarrow> bind_res (remap_core_index r core) (\<lambda>i. Inr (MALI_NAME_BLOCK_SIZE * i)))
      else
        (case block of MALI_NAME_BLOCK_JM \<Rightarrow> Inr (MALI_NAME_BLOCK_SIZE * 0)
         | MALI_NAME_BLOCK_MMU \<Rightarrow> Inr (MALI_NAME_BLOCK_SIZE * 2)
         | MALI_NAME_BLOCK_TILER \<Rightarrow> Inr (MALI_NAME_BLOCK_SIZE * 1)
         | MALI_NAME_BLOCK_SHADER \<Rightarrow> bind_res (remap_core_index r core) (\<lambda>i. Inr (MALI_NAME_BLOCK_SIZE * (3 + i)))))"

definition get_counter_index :: "MaliHWCReader \<Rightarrow> MaliCounterBlockName \<Rightarrow> nat \<Rightarrow> nat \<Rightarrow> u32 result" where
  "get_counter_index r block index core = bind_res (get_counters r block core) (\<lambda>b. Inr (of_nat b + of_nat index))"

text \<open>\<open>get_counters(block, core)[index]\<close>; an access outside the sample is undefined.\<close>

definition counter_at :: "MaliHWCReader \<Rightarrow> MaliCounterBlockName \<Rightarrow> nat \<Rightarrow> int \<Rightarrow> u32 result" where
  "counter_at r block core index = bind_res (get_counters r block core) (\<lambda>b.
     let i = int b + index in
     if 0 \<le> i \<and> nat i < length (counter_buffer r) then Inr (counter_buffer r ! nat i) else Inl OutOfBounds)"

text \<open>
  One sample from the driver: the result of \<open>poll\<close>, the events, the answers to getting and putting
  back the buffer, the number and the time of the buffer.
\<close>

record event_answers =
  e_count :: int
  e_pollin :: bool
  e_get :: int
  e_idx :: u32
  e_timestamp :: u64
  e_put :: int

definition wait_next_event :: "event_answers \<Rightarrow> MaliHWCReader \<Rightarrow> (bool \<times> MaliHWCReader) result" where
  "wait_next_event e r =
     (if e_count e < 0 \<or> \<not> e_pollin e \<or> e_get e \<noteq> 0 then Inr (False, r)
      else case sample_data r of None \<Rightarrow> Inl NullPointer
        | Some mem \<Rightarrow>
          (let n = unat (buffer_size r) div 4; off = unat (buffer_size r * e_idx e) div 4 in
           if length mem < off + n then Inl OutOfBounds
           else Inr (e_put e = 0,
             r\<lparr>counter_buffer := take n (drop off mem) @ drop n (counter_buffer r), timestamp := e_timestamp e\<rparr>)))"

section \<open>The core table\<close>

lemma upt_around: "b < n \<Longrightarrow> [0..<n] = [0..<b] @ b # [Suc b..<n]"
  by (metis le_eq_less_or_eq less_imp_le_nat upt_add_eq_append upt_conv_Cons zero_le add.left_neutral le_add_diff_inverse)

lemma filter_lowest:
  fixes m :: u32
  assumes "m \<noteq> 0"
  shows "filter (bit m) [0..<32]
    = ctz (unat m) # filter (bit (m AND NOT (push_bit (ctz (unat m)) 1))) [0..<32]"
proof -
  let ?b = "ctz (unat m)" and ?m = "m AND NOT (push_bit (ctz (unat m)) 1)"
  note low = lowest_bit [OF assms]
  have bits: "bit ?m i \<longleftrightarrow> bit m i \<and> i \<noteq> ?b" if "i < 32" for i
    using that by (auto simp: bit_simps)
  have "filter (bit m) [0..<?b] = []" "filter (bit ?m) [0..<?b] = []"
    using low(2,3) bits by (auto simp: filter_empty_conv)
  moreover have "filter (bit ?m) [Suc ?b..<32] = filter (bit m) [Suc ?b..<32]"
    using bits by (intro filter_cong) auto
  ultimately show ?thesis
    unfolding upt_around [OF low(3)] using low(1) bits [OF low(3)] by simp
qed

lemma remap_loop_filter: "remap_loop m acc = acc @ filter (bit m) [0..<32]"
proof (induction m acc rule: remap_loop.induct)
  case (1 m acc)
  show ?case
  proof (cases "m = 0")
    case False
    then show ?thesis using 1 [OF False refl] filter_lowest [OF False]
      by (simp add: remap_loop.simps [of m acc] Let_def)
  qed (simp add: remap_loop.simps)
qed

text \<open>
  C37: the table of cores. The loop that builds it ends for every mask, and the table lists exactly
  the cores of the mask in ascending order; it has as many entries as the core count the reader
  reports, so every core number below that count is mapped.
\<close>

theorem core_table:
  "remap_loop m [] = filter (bit m) [0..<32] \<and> length (remap_loop m []) = popcount m
     \<and> sorted_wrt (<) (remap_loop m []) \<and> set (remap_loop m []) = {i. bit m i}"
proof -
  have "i < 32" if "bit m i" for i using bit_imp_le_length [OF that] by simp
  then have "set (filter (bit m) [0..<32]) = {i. bit m i}" by auto
  moreover have "sorted_wrt (<) (filter (bit m) [0..<32])" by (intro sorted_wrt_filter) simp
  ultimately show ?thesis by (simp add: remap_loop_filter popcount_def)
qed

section \<open>Identifying the GPU\<close>

lemmas product_ids = PRODUCT_ID_MASK_OLD_def PRODUCT_ID_MASK_NEW_def PRODUCT_ID_T60X_def PRODUCT_ID_T62X_def
  PRODUCT_ID_T72X_def PRODUCT_ID_T76X_def PRODUCT_ID_T82X_def PRODUCT_ID_T83X_def PRODUCT_ID_T86X_def
  PRODUCT_ID_TFRX_def PRODUCT_ID_TMIX_def PRODUCT_ID_THEX_def PRODUCT_ID_TSIX_def

lemma old_new_mask:
  fixes gid :: u32
  assumes "0xffff AND gid = x"
  shows "0xf00f AND gid = 0xf00f AND x"
proof -
  have "0xf00f AND (0xffff AND gid) = (0xf00f AND 0xffff) AND gid" by (simp only: and.assoc)
  also have "(0xf00f AND 0xffff :: u32) = 0xf00f" by simp
  finally show ?thesis using assms by simp
qed

lemma product_cases:
  assumes "p \<in> set products"
  shows "product_mask p = 0xffff \<and> 0xf00f AND product_id p \<in> {0x6006, 0}
    \<or> product_mask p = 0xf00f \<and> product_id p \<in> {0x6000, 0x6001, 0x7000}"
  using assms by (auto simp: products_def product_ids)

lemma product_ids_distinct: "inj_on product_id (set products)"
proof -
  have "distinct (map product_id products)" by (simp add: products_def product_ids)
  then show ?thesis by (simp add: distinct_map)
qed

lemma masks_exclude:
  assumes "p \<in> set products" and "q \<in> set products" and "product_mask p = 0xffff" and "product_mask q = 0xf00f"
    and "product_mask p AND gid = product_id p"
  shows "product_mask q AND gid \<noteq> product_id q"
proof -
  have "0xf00f AND gid = 0xf00f AND product_id p" using old_new_mask [of gid] assms(3,5) by simp
  then have "0xf00f AND gid \<in> {0x6006, 0}" using product_cases [OF assms(1)] assms(3) by simp
  moreover have "product_id q \<in> {0x6000, 0x6001, 0x7000}" using product_cases [OF assms(2)] assms(4) by simp
  ultimately show ?thesis using assms(4) by auto
qed

lemma products_disjoint:
  assumes "p \<in> set products" and "q \<in> set products"
    and "product_mask p AND gid = product_id p" and "product_mask q AND gid = product_id q"
  shows "p = q"
proof -
  have "product_mask p = product_mask q"
    using product_cases [OF assms(1)] product_cases [OF assms(2)] masks_exclude [OF assms(1,2) _ _ assms(3)]
      masks_exclude [OF assms(2,1) _ _ assms(4)] assms(3,4) by argo
  then have "product_id p = product_id q" using assms(3,4) by simp
  then show ?thesis using product_ids_distinct assms(1,2) by (simp add: inj_on_def)
qed

lemma fold_unique:
  assumes "p \<in> set ps" and "P p" and "\<And>q. q \<in> set ps \<Longrightarrow> P q \<Longrightarrow> q = p"
  shows "fold (\<lambda>p found. if P p then Some (f p) else found) ps acc = Some (f p)"
  using assms
proof (induction ps arbitrary: acc)
  case (Cons q ps)
  have keep: "fold (\<lambda>p found. if P p then Some (f p) else found) qs (Some (f p)) = Some (f p)"
    if "\<forall>q \<in> set qs. P q \<longrightarrow> q = p" for qs
    using that by (induction qs) auto
  show ?case
  proof (cases "p \<in> set ps")
    case True
    have "fold (\<lambda>p found. if P p then Some (f p) else found) ps acc' = Some (f p)" for acc'
      using Cons.IH [OF True Cons.prems(2), of acc'] Cons.prems(3) by (meson list.set_intros(2))
    then show ?thesis by simp
  next
    case False
    then have q: "q = p" using Cons.prems(1) by simp
    have "\<forall>q \<in> set ps. P q \<longrightarrow> q = p" using Cons.prems(3) by auto
    from keep [OF this] show ?thesis unfolding q using Cons.prems(2) by simp
  qed
qed simp

text \<open>
  A GPU is identified by at most one entry. Whatever number the driver reports, no two entries
  of the product table match it, with either of the two masks; the loop, which keeps the last match
  and not the first as the comment at the masks asks, therefore finds the entry that matches.
\<close>

theorem identify_unique:
  assumes "p \<in> set products" and "product_mask p AND gid = product_id p"
  shows "identify gid = Some (names_lut p) \<and> (\<forall>q \<in> set products. product_mask q AND gid = product_id q \<longrightarrow> q = p)"
  using fold_unique [OF assms(1), of "\<lambda>q. product_mask q AND gid = product_id q" names_lut None]
    products_disjoint [OF _ assms(1) _ assms(2)] assms(2)
  by (auto simp: identify_def)

theorem identify_unique_witness: "identify 0x7210 = Some hardware_counters_mali_tSIx"
proof -
  let ?p = "\<lparr>product_mask = PRODUCT_ID_MASK_NEW, product_id = PRODUCT_ID_TSIX, names_lut = hardware_counters_mali_tSIx\<rparr>"
  have "?p \<in> set products" by (simp add: products_def)
  moreover have "product_mask ?p AND 0x7210 = product_id ?p" by (simp add: product_ids)
  ultimately show ?thesis using identify_unique [of ?p "0x7210"] by simp
qed


section \<open>A reader that is alive\<close>

lemma identify_member: "identify gid = Some t \<Longrightarrow> \<exists>p \<in> set products. names_lut p = t"
proof -
  have "fold (\<lambda>p found. if product_mask p AND gid = product_id p then Some (names_lut p) else found) ps acc = Some t
    \<Longrightarrow> acc = Some t \<or> (\<exists>p \<in> set ps. names_lut p = t)" for ps acc
    by (induction ps arbitrary: acc) (fastforce split: if_splits)+
  then show "identify gid = Some t \<Longrightarrow> ?thesis" by (fastforce simp: identify_def)
qed

definition reader_wf :: "MaliHWCReader \<Rightarrow> bool" where
  "reader_wf r \<longleftrightarrow> (alive r \<longrightarrow> identify (gpu_id (hw r)) = Some (lut r)
     \<and> core_index_remap r = remap_loop (core_mask (hw r)) [] \<and> length (counter_buffer r) = unat (buffer_size r) div 4)"

lemma reader_wf_lut: "reader_wf r \<Longrightarrow> alive r \<Longrightarrow> length (lut r) = 4 * MALI_NAME_BLOCK_SIZE"
  using identify_member products_length by (fastforce simp: reader_wf_def)

lemma init_reader_wf: "\<not> alive r \<Longrightarrow> reader_wf (snd (init_reader a n r)) \<and> hw (snd (init_reader a n r)) = hw r"
  by (auto simp: init_reader_def reader_term_def reader_wf_def Let_def split: option.splits)

lemma init_attempts_wf:
  "reader_wf r \<Longrightarrow> reader_wf (init_attempts ans is r) \<and> hw (init_attempts ans is r) = hw r"
  by (induction "is" arbitrary: r) (simp_all add: init_reader_wf)

lemma reader_wf_dead: "\<not> alive r \<Longrightarrow> reader_wf r"
  by (simp add: reader_wf_def)

lemma MaliHWCReader_new_wf:
  "reader_wf (MaliHWCReader_new i ans) \<and> hw (MaliHWCReader_new i ans) = i"
  by (simp add: MaliHWCReader_new_def Let_def init_attempts_wf reader_wf_dead)

lemma hw_info_count:
  "get_mali_hw_info g i0 = Inr (ok, i) \<Longrightarrow> valid i = ok \<and> (ok \<longrightarrow> mp_count i = of_nat (popcount (core_mask i)))"
  by (auto simp: get_mali_hw_info_def Let_def split: if_splits)

lemma popcount_le: "popcount m \<le> 32"
  unfolding popcount_def by (rule order_trans [OF length_filter_le]) simp

lemma remap_length: "length (remap_loop m []) = popcount m"
  by (simp add: remap_loop_filter popcount_def)

lemma wait_next_event_frame:
  assumes "wait_next_event e r = Inr (ok, r')" and "reader_wf r" and "alive r"
  shows "reader_wf r' \<and> alive r' \<and> hw r' = hw r \<and> lut r' = lut r \<and> core_index_remap r' = core_index_remap r
    \<and> hw_ver r' = hw_ver r \<and> length (counter_buffer r') = length (counter_buffer r)"
  using assms
  by (auto simp: wait_next_event_def reader_wf_def Let_def split: if_splits option.splits)

end
