(* ===== verification/Mali_Counters.thy ===== *)
theory Mali_Counters
  imports Hwcpipe System_Collectors
begin

text \<open>
  \<open>MaliCounterCollector\<close>: the collector of the Mali hardware counters. Its private state is the
  information on the GPU, the reader, and three vectors with one entry per counter: the name under
  which the samples are stored, the position in the block of the sample, and the core. The first part
  holds the operations; then what \<open>init\<close> puts into the vectors, what a run records, and when a sample
  can be read at all.
\<close>

section \<open>State and construction\<close>

text \<open>\<open>start_values\<close> is \<open>counter_buffer\<close> of the collector, of which only \<open>start\<close> writes the entries.\<close>

record mali_state =
  info :: MaliHWInfo
  counter_reader :: MaliHWCReader
  header :: "string list"
  indices :: "(MaliCounterBlockName \<times> int) list"
  core_indices :: "int list"
  start_values :: "real list"
  num_counters :: nat

record 'w mali_ops =
  m_open :: "'w \<Rightarrow> int \<times> 'w"
  m_event :: "'w \<Rightarrow> event_answers \<times> 'w"

text \<open>Fields without an initialiser start with whatever is in memory: \<open>junk\<close> and \<open>n\<close>.\<close>

definition InfoCapsule_new :: "gpu_answers \<Rightarrow> MaliHWInfo \<Rightarrow> MaliHWInfo result" where
  "InfoCapsule_new g junk = bind_res (get_mali_hw_info g junk) (\<lambda>(_, i). Inr i)"

definition MaliCounterCollector_new ::
  "'j json_ops \<Rightarrow> 'j \<Rightarrow> string \<Rightarrow> gpu_answers \<Rightarrow> MaliHWInfo \<Rightarrow> (nat \<Rightarrow> reader_answers) \<Rightarrow> nat
    \<Rightarrow> ('j, mali_state) collector_scheme result" where
  "MaliCounterCollector_new J config nm g junk ans n =
     bind_res (InfoCapsule_new g junk) (\<lambda>i.
       Inr (collector.extend (Collector_new J config nm)
         \<lparr>info = i, counter_reader = MaliHWCReader_new i ans, header = [], indices = [],
          core_indices = [], start_values = [], num_counters = n\<rparr>))"

section \<open>Operations\<close>

text \<open>One turn of the loop over a block: counters without a name are skipped.\<close>

definition build_entry ::
  "MaliCounterBlockName \<Rightarrow> nat \<Rightarrow> string \<Rightarrow> int \<Rightarrow> mali_state \<Rightarrow> nat \<Rightarrow> mali_state result" where
  "build_entry block block_size verbose_block_name cr s index =
     (let names = get_counter_names (counter_reader s) block;
          own = block_number MALI_NAME_BLOCK_JM * block_size + index in
      if length names \<le> index \<or> length names \<le> own then Inl OutOfBounds
      else if names ! index = [] then Inr s
      else Inr (s\<lparr>header := header s @ [verbose_block_name @ ''_'' @ names ! own],
        indices := indices s @ [(block, find_counter_index_by_name (counter_reader s) block (names ! index))],
        core_indices := core_indices s @ [cr]\<rparr>))"

definition build_block_vectors ::
  "MaliCounterBlockName \<Rightarrow> nat \<Rightarrow> string \<Rightarrow> int \<Rightarrow> mali_state \<Rightarrow> mali_state result" where
  "build_block_vectors block block_size verbose_block_name cr s =
     fold_res (build_entry block block_size verbose_block_name cr) s [0..<block_size]"

definition build_shader_vectors :: "mali_state \<Rightarrow> nat \<Rightarrow> mali_state result" where
  "build_shader_vectors s corenum =
     build_block_vectors MALI_NAME_BLOCK_SHADER MALI_NAME_BLOCK_SIZE (''SC:'' @ show_nat corenum) (int corenum) s"

definition build_vectors :: "mali_state \<Rightarrow> mali_state result" where
  "build_vectors s =
     bind_res (build_block_vectors MALI_NAME_BLOCK_JM MALI_NAME_BLOCK_SIZE ''JM'' (- 1) s) (\<lambda>s.
     bind_res (build_block_vectors MALI_NAME_BLOCK_TILER MALI_NAME_BLOCK_SIZE ''TILER'' (- 1) s) (\<lambda>s.
     bind_res (build_block_vectors MALI_NAME_BLOCK_MMU MALI_NAME_BLOCK_SIZE ''MMU'' (- 1) s) (\<lambda>s.
     fold_res build_shader_vectors s [0..<nat (sint (mp_count (hw (counter_reader s))))])))"

definition resize_values :: "nat \<Rightarrow> real list \<Rightarrow> real list" where
  "resize_values n xs = take n xs @ replicate (n - length xs) 0"

definition Mali_init :: "('j, mali_state, 'w) vmethod" where
  "Mali_init c w =
     (let s = collector.more c in
      if \<not> valid (info s) then Inr (False, c, w)
      else if \<not> alive (counter_reader s) then Inr (False, c, w)
      else bind_res (build_vectors s) (\<lambda>s'.
        let n = length (header s') in
        Inr (True, set_private (\<lambda>_. s'\<lparr>num_counters := n, start_values := resize_values n (start_values s')\<rparr>) c, w)))"

definition Mali_available :: "'w mali_ops \<Rightarrow> ('j, mali_state, 'w) vmethod" where
  "Mali_available M c w = (case m_open M w of (h, w') \<Rightarrow> Inr (\<not> h < 0, c, w'))"

text \<open>What the loops of \<open>start\<close> and \<open>collect\<close> read for the counter at a position of the vectors.\<close>

definition read_counter :: "mali_state \<Rightarrow> nat \<Rightarrow> u32 result" where
  "read_counter s index =
     (if length (core_indices s) \<le> index \<or> length (indices s) \<le> index then Inl OutOfBounds
      else let core_index = core_indices s ! index; (block, pos) = indices s ! index in
        if core_index = - 1 then counter_at (counter_reader s) block 0 pos
        else counter_at (counter_reader s) block (nat core_index) pos)"

definition start_value :: "mali_state \<Rightarrow> nat \<Rightarrow> mali_state result" where
  "start_value s index = bind_res (read_counter s index) (\<lambda>v.
     if length (start_values s) \<le> index then Inl OutOfBounds
     else Inr (s\<lparr>start_values := (start_values s)[index := real (unat v)]\<rparr>))"

definition Mali_start :: "'w mali_ops \<Rightarrow> ('j, mali_state, 'w) vmethod" where
  "Mali_start M c w =
     (let s = collector.more c in
      if \<not> valid (info s) then Inr (False, c, w)
      else bind_res (fold_res start_value s [0..<num_counters s]) (\<lambda>s'.
        case m_event M w of (e, w') \<Rightarrow>
          bind_res (wait_next_event e (counter_reader s')) (\<lambda>(ok, r).
            Inr (ok, set_private (\<lambda>_. s'\<lparr>counter_reader := r\<rparr>) c, w'))))"

definition collect_counter ::
  "('j, mali_state) collector_scheme \<times> real \<Rightarrow> nat \<Rightarrow> (('j, mali_state) collector_scheme \<times> real) result" where
  "collect_counter cs index =
     (case cs of (c, total_sum) \<Rightarrow>
        if length (header (collector.more c)) \<le> index then Inl OutOfBounds
        else bind_res (read_counter (collector.more c) index) (\<lambda>v.
          bind_res (add_uint (header (collector.more c) ! index) v c) (\<lambda>c'.
            Inr (c', total_sum + real (unat v)))))"

text \<open>
  The sum is a \<open>float\<close> in the source; it is compared with zero only, and a sum of numbers that
  are not negative is zero in either arithmetic exactly when all of them are.
\<close>

definition Mali_collect :: "i64 \<Rightarrow> ('j, mali_state, 'w) vmethod" where
  "Mali_collect now c w =
     (if \<not> valid (info (collector.more c)) then Inr (False, c, w)
      else bind_res (fold_res collect_counter (c, 0) [0..<num_counters (collector.more c)]) (\<lambda>(c', total_sum).
        if total_sum = 0 then Inl (Exited 0) else Inr (True, c', w)))"

definition mali_vtable :: "'w mali_ops \<Rightarrow> ('j, mali_state, 'w) vtable" where
  "mali_vtable M =
     (base_vtable Mali_collect (Mali_available M))
       \<lparr>v_init := Mali_init, v_deinit := pure_method (\<lambda>c. (True, c)), v_start := Mali_start M\<rparr>"


section \<open>The contract\<close>

definition recorded :: "CollectorValueResults \<Rightarrow> string \<Rightarrow> CollectorValue list" where
  "recorded r k = (case map_of r k of None \<Rightarrow> [] | Some l \<Rightarrow> vl_list l)"

lemma add_uint_eq:
  assumes "add_uint k v c = Inr c'"
  shows "collector.more c' = collector.more c" and "managed c' = managed c"
    and "results_wf (mResults c) \<Longrightarrow> results_wf (mResults c')"
    and "recorded (mResults c') k' = recorded (mResults c) k' @ (if k' = k then [CV_u64 (ucast v)] else [])"
proof -
  note a = assms [unfolded add_uint_def]
  show "collector.more c' = collector.more c" and "managed c' = managed c" using add_with_frame [OF a] by simp_all
  show "results_wf (mResults c) \<Longrightarrow> results_wf (mResults c')" using add_with_wf [OF a] by simp
  from a show "recorded (mResults c') k' = recorded (mResults c) k' @ (if k' = k then [CV_u64 (ucast v)] else [])"
    by (auto simp: add_with_eq push_back_uint_def push_back_typed_eq_Inr recorded_def map_of_map_set empty_list_def
        split: option.splits)
qed

lemma collect_counter_eq:
  "collect_counter (c, x) i = Inr (c', y) \<longleftrightarrow> i < length (header (collector.more c))
     \<and> (\<exists>v. read_counter (collector.more c) i = Inr v \<and> add_uint (header (collector.more c) ! i) v c = Inr c'
       \<and> y = x + real (unat v))"
  by (auto simp: collect_counter_def)

lemma collect_counters_frame:
  assumes "fold_res collect_counter (c, x) is = Inr (c', y)"
  shows "collector.more c' = collector.more c \<and> managed c' = managed c
    \<and> (results_wf (mResults c) \<longrightarrow> results_wf (mResults c'))"
  using assms
proof (induction "is" arbitrary: c x)
  case (Cons i "is")
  from Cons.prems obtain v c1 where 1: "add_uint (header (collector.more c) ! i) v c = Inr c1"
    and r: "fold_res collect_counter (c1, x + real (unat v)) is = Inr (c', y)"
    using that by (auto simp: collect_counter_eq)
  show ?case using Cons.IH [OF r] add_uint_eq(1-3) [OF 1] by simp
qed simp

lemma mali_contract:
  "keeps_contract (Mali_init :: ('j, mali_state, 'w) vmethod)"
  "keeps_contract (Mali_available M :: ('j, mali_state, 'w) vmethod)"
  "keeps_contract (Mali_start M :: ('j, mali_state, 'w) vmethod)"
  by (auto simp: keeps_contract_def Mali_init_def Mali_available_def Mali_start_def managed_def
      set_private_def Let_def case_prod_beta split: if_splits)

lemma mali_collect_eq:
  "Mali_collect now c w = Inr (ok, c', w') \<longleftrightarrow>
     (if valid (info (collector.more c))
      then ok \<and> w' = w \<and> (\<exists>y. y \<noteq> 0 \<and> fold_res collect_counter (c, 0) [0..<num_counters (collector.more c)] = Inr (c', y))
      else \<not> ok \<and> c' = c \<and> w' = w)"
  by (auto simp: Mali_collect_def split: if_splits)

lemma mali_collect_contract: "keeps_contract (Mali_collect now)"
  using collect_counters_frame by (fastforce simp: keeps_contract_def mali_collect_eq split: if_splits)

interpretation mali: collector_class "mali_vtable M"
  unfolding mali_vtable_def
  by (intro collector_class_override base_collector_class mali_contract mali_collect_contract contract_pure) auto

section \<open>What init puts into the vectors\<close>

type_synonym mali_entry = "string \<times> (MaliCounterBlockName \<times> int) \<times> int"

definition block_entries :: "MaliHWCReader \<Rightarrow> MaliCounterBlockName \<Rightarrow> string \<Rightarrow> int \<Rightarrow> mali_entry list" where
  "block_entries r block prefix cr =
     map (\<lambda>nm. (prefix @ ''_'' @ nm, (block, find_counter_index_by_name r block nm), cr))
       (filter (\<lambda>nm. nm \<noteq> []) (take MALI_NAME_BLOCK_SIZE (get_counter_names r block)))"

definition shader_entries :: "MaliHWCReader \<Rightarrow> nat \<Rightarrow> mali_entry list" where
  "shader_entries r k = block_entries r MALI_NAME_BLOCK_SHADER (''SC:'' @ show_nat k) (int k)"

definition core_count :: "MaliHWCReader \<Rightarrow> nat" where
  "core_count r = nat (sint (mp_count (hw r)))"

definition all_entries :: "MaliHWCReader \<Rightarrow> mali_entry list" where
  "all_entries r = block_entries r MALI_NAME_BLOCK_JM ''JM'' (- 1) @ block_entries r MALI_NAME_BLOCK_TILER ''TILER'' (- 1)
     @ block_entries r MALI_NAME_BLOCK_MMU ''MMU'' (- 1) @ concat (map (shader_entries r) [0..<core_count r])"

definition add_entries :: "mali_entry list \<Rightarrow> mali_state \<Rightarrow> mali_state" where
  "add_entries es s = s\<lparr>header := header s @ map fst es, indices := indices s @ map (fst \<circ> snd) es,
     core_indices := core_indices s @ map (snd \<circ> snd) es\<rparr>"

lemma add_entries_simps [simp]:
  "add_entries [] s = s" "add_entries es' (add_entries es s) = add_entries (es @ es') s"
  "counter_reader (add_entries es s) = counter_reader s" "info (add_entries es s) = info s"
  "start_values (add_entries es s) = start_values s"
  by (simp_all add: add_entries_def)

lemma names_long:
  assumes "length (lut r) = 4 * MALI_NAME_BLOCK_SIZE"
  shows "MALI_NAME_BLOCK_SIZE \<le> length (get_counter_names r block)"
  using assms by (cases block) (simp_all add: get_counter_names_def MALI_NAME_BLOCK_SIZE_def)

lemma build_entries_upto:
  assumes "n \<le> length (get_counter_names (counter_reader s) block)"
  shows "fold_res (build_entry block sz v cr) s [0..<n] = Inr (add_entries
    (map (\<lambda>nm. (v @ ''_'' @ nm, (block, find_counter_index_by_name (counter_reader s) block nm), cr))
       (filter (\<lambda>nm. nm \<noteq> []) (take n (get_counter_names (counter_reader s) block)))) s)"
  using assms
proof (induction n)
  case (Suc n)
  then show ?case
    by (simp add: fold_res_append build_entry_def Let_def take_Suc_conv_app_nth) (simp add: add_entries_def)
qed simp

lemma build_block_eq:
  assumes "length (lut (counter_reader s)) = 4 * MALI_NAME_BLOCK_SIZE"
  shows "build_block_vectors block MALI_NAME_BLOCK_SIZE v cr s
    = Inr (add_entries (block_entries (counter_reader s) block v cr) s)"
  using build_entries_upto [OF names_long [OF assms]] by (simp add: build_block_vectors_def block_entries_def)

lemma build_shaders_eq:
  assumes "length (lut (counter_reader s)) = 4 * MALI_NAME_BLOCK_SIZE"
  shows "fold_res build_shader_vectors s ks = Inr (add_entries (concat (map (shader_entries (counter_reader s)) ks)) s)"
  using assms
  by (induction ks arbitrary: s) (simp_all add: build_shader_vectors_def build_block_eq shader_entries_def)

lemma build_vectors_eq:
  assumes "length (lut (counter_reader s)) = 4 * MALI_NAME_BLOCK_SIZE"
  shows "build_vectors s = Inr (add_entries (all_entries (counter_reader s)) s)"
  using assms by (simp add: build_vectors_def build_block_eq build_shaders_eq all_entries_def core_count_def)

text \<open>The search of a name that is in the block: the first name that contains it, at or before its own position.\<close>

lemma find_from_first:
  assumes "j < length ns" and "strstr (ns ! j) nm"
  shows "\<exists>p \<le> j. find_from i ns nm = int (i + p) \<and> strstr (ns ! p) nm \<and> (\<forall>q < p. \<not> strstr (ns ! q) nm)"
  using assms
proof (induction ns arbitrary: i j)
  case (Cons n ns)
  show ?case
  proof (cases "strstr n nm")
    case False
    then obtain j' where j: "j = Suc j'" using Cons.prems(2) by (cases j) auto
    then obtain p where "p \<le> j'" "find_from (Suc i) ns nm = int (Suc i + p)" "strstr (ns ! p) nm"
      "\<forall>q < p. \<not> strstr (ns ! q) nm"
      using Cons.IH [of j' "Suc i"] Cons.prems by auto
    then show ?thesis using False j
      by (intro exI [of _ "Suc p"]) (auto simp: nth_Cons' less_Suc_eq_0_disj)
  qed auto
qed simp

lemma strstr_self: "strstr s s"
  unfolding strstr_iff by (rule exI [of _ "[]"], rule exI [of _ "[]"]) simp

lemma find_counter_first:
  assumes "length (lut r) = 4 * MALI_NAME_BLOCK_SIZE" and "j < MALI_NAME_BLOCK_SIZE"
  shows "\<exists>p \<le> j. find_counter_index_by_name r block (get_counter_names r block ! j) = int p
    \<and> strstr (get_counter_names r block ! p) (get_counter_names r block ! j)
    \<and> (\<forall>q < p. \<not> strstr (get_counter_names r block ! q) (get_counter_names r block ! j))"
  using find_from_first [of j "take MALI_NAME_BLOCK_SIZE (get_counter_names r block)" "get_counter_names r block ! j" 0]
    assms names_long [OF assms(1)] strstr_self
  by (auto simp: find_counter_index_by_name_def)

section \<open>The vectors stay as init left them\<close>

definition mali_wf :: "mali_state \<Rightarrow> bool" where
  "mali_wf s \<longleftrightarrow> (let r = counter_reader s; es = all_entries r in
     valid (info s) \<and> alive r \<and> reader_wf r \<and> core_count r = length (core_index_remap r)
     \<and> header s = map fst es \<and> indices s = map (fst \<circ> snd) es \<and> core_indices s = map (snd \<circ> snd) es
     \<and> num_counters s = length es)"

lemma all_entries_cong:
  "lut r' = lut r \<Longrightarrow> hw r' = hw r \<Longrightarrow> all_entries r' = all_entries r"
proof -
  assume e: "lut r' = lut r" "hw r' = hw r"
  then have "block_entries r' = block_entries r"
    by (intro ext) (simp add: block_entries_def get_counter_names_def find_counter_index_by_name_def)
  then show ?thesis using e by (simp add: all_entries_def shader_entries_def [abs_def] core_count_def)
qed

lemma core_count_new:
  assumes "get_mali_hw_info g junk = Inr (ok, i)" and "valid i" and "alive r" and "reader_wf r" and "hw r = i"
  shows "core_count r = length (core_index_remap r)"
proof -
  have "mp_count i = of_nat (popcount (core_mask i))" using hw_info_count [OF assms(1)] assms(2) by simp
  then have "sint (mp_count i) = int (popcount (core_mask i))"
    using popcount_le [of "core_mask i"] by (simp add: signed_of_nat signed_take_bit_int_eq_self)
  then show ?thesis using assms(3-5) remap_length by (simp add: core_count_def reader_wf_def)
qed

lemma mali_init_wf:
  assumes "MaliCounterCollector_new J config nm g junk ans n = Inr c" and "Mali_init c w = Inr (True, c1, w1)"
  shows "mali_wf (collector.more c1) \<and> mResults c1 = []"
proof -
  obtain ok i where i: "get_mali_hw_info g junk = Inr (ok, i)"
    and c: "c = collector.extend (Collector_new J config nm)
      \<lparr>info = i, counter_reader = MaliHWCReader_new i ans, header = [], indices = [], core_indices = [],
       start_values = [], num_counters = n\<rparr>"
    using assms(1) by (auto simp: MaliCounterCollector_new_def InfoCapsule_new_def)
  let ?r = "MaliHWCReader_new i ans"
  have s: "counter_reader (collector.more c) = ?r" "info (collector.more c) = i" "header (collector.more c) = []"
    "indices (collector.more c) = []" "core_indices (collector.more c) = []" "mResults c = []"
    by (simp_all add: c collector.defs Collector_new_def)
  note wf = MaliHWCReader_new_wf [of i ans]
  have va: "valid i" "alive ?r" using assms(2) s by (auto simp: Mali_init_def Let_def split: if_splits)
  then have "build_vectors (collector.more c) = Inr (add_entries (all_entries ?r) (collector.more c))"
    using build_vectors_eq [of "collector.more c"] reader_wf_lut [of ?r] wf s by simp
  then show ?thesis
    using assms(2) s va wf core_count_new [OF i va] by (auto simp: Mali_init_def Let_def mali_wf_def set_private_def add_entries_def)
qed

lemma start_value_keeps:
  "start_value s i = Inr s' \<Longrightarrow> \<exists>vs. s' = s\<lparr>start_values := vs\<rparr>"
  by (auto simp: start_value_def split: if_splits)

lemma mali_start_wf:
  assumes "Mali_start M c w = Inr (ok, c1, w1)" and "mali_wf (collector.more c)"
  shows "mali_wf (collector.more c1) \<and> mResults c1 = mResults c
    \<and> (\<exists>e. wait_next_event e (counter_reader (collector.more c)) = Inr (ok, counter_reader (collector.more c1)))"
proof -
  obtain s' e r where f: "fold_res start_value (collector.more c) [0..<num_counters (collector.more c)] = Inr s'"
    and e: "wait_next_event e (counter_reader s') = Inr (ok, r)" and c1: "c1 = set_private (\<lambda>_. s'\<lparr>counter_reader := r\<rparr>) c"
    using assms by (auto simp: Mali_start_def Let_def mali_wf_def case_prod_beta split: if_splits)
  have "\<exists>vs. s' = (collector.more c)\<lparr>start_values := vs\<rparr>"
    by (rule fold_res_invariant [OF f]) (auto dest!: start_value_keeps intro: exI [of _ "start_values (collector.more c)"])
  then obtain vs where s': "s' = (collector.more c)\<lparr>start_values := vs\<rparr>" ..
  have "reader_wf (counter_reader (collector.more c))" "alive (counter_reader (collector.more c))"
    using assms(2) by (simp_all add: mali_wf_def Let_def)
  with e s' have r: "reader_wf r" "alive r" "lut r = lut (counter_reader (collector.more c))"
    "hw r = hw (counter_reader (collector.more c))" "core_index_remap r = core_index_remap (counter_reader (collector.more c))"
    using wait_next_event_frame [of e "counter_reader (collector.more c)" ok r] by auto
  then show ?thesis
    using assms(2) s' e all_entries_cong [OF r(3,4)]
    by (auto simp: c1 set_private_def mali_wf_def Let_def core_count_def)
qed

section \<open>Reading a sample\<close>

text \<open>Whether a sample is large enough for the blocks the reader addresses, old layout and new one.\<close>

definition readable :: "MaliHWCReader \<Rightarrow> bool" where
  "readable r = (let n = length (counter_buffer r) in
     if hw_ver r < 5
     then MALI_NAME_BLOCK_SIZE * 7 \<le> n \<and> list_all (\<lambda>b. MALI_NAME_BLOCK_SIZE * (b + 1) \<le> n) (core_index_remap r)
     else MALI_NAME_BLOCK_SIZE * 3 \<le> n \<and> list_all (\<lambda>b. MALI_NAME_BLOCK_SIZE * (b + 4) \<le> n) (core_index_remap r))"

lemma get_counters_fits:
  assumes "readable r" and "block \<noteq> MALI_NAME_BLOCK_SHADER \<or> k < length (core_index_remap r)"
  shows "\<exists>b. get_counters r block k = Inr b \<and> b + MALI_NAME_BLOCK_SIZE \<le> length (counter_buffer r)"
  using assms
  by (cases block)
    (auto simp: readable_def get_counters_def remap_core_index_def list_all_length Let_def MALI_NAME_BLOCK_SIZE_def
      add.commute split: if_splits)

lemma counter_at_fits:
  assumes "readable r" and "block \<noteq> MALI_NAME_BLOCK_SHADER \<or> k < length (core_index_remap r)"
    and "0 \<le> p" and "p < int MALI_NAME_BLOCK_SIZE"
  shows "\<exists>v. counter_at r block k p = Inr v"
proof -
  obtain b where "get_counters r block k = Inr b" "b + MALI_NAME_BLOCK_SIZE \<le> length (counter_buffer r)"
    using get_counters_fits [OF assms(1,2)] by blast
  then show ?thesis using assms(3,4) by (simp add: counter_at_def Let_def nat_less_iff)
qed

lemma block_entry_cases:
  assumes "e \<in> set (block_entries r block prefix cr)" and "length (lut r) = 4 * MALI_NAME_BLOCK_SIZE"
  shows "\<exists>h p. e = (h, (block, p), cr) \<and> 0 \<le> p \<and> p < int MALI_NAME_BLOCK_SIZE"
proof -
  obtain nm where nm: "nm \<in> set (take MALI_NAME_BLOCK_SIZE (get_counter_names r block))"
    and e: "e = (prefix @ ''_'' @ nm, (block, find_counter_index_by_name r block nm), cr)"
    using assms(1) by (auto simp: block_entries_def)
  then obtain j where j: "j < MALI_NAME_BLOCK_SIZE" "nm = get_counter_names r block ! j"
    by (auto simp: in_set_conv_nth)
  with find_counter_first [OF assms(2) j(1), of block] e show ?thesis by auto
qed

lemma entry_cases:
  assumes "e \<in> set (all_entries r)" and "length (lut r) = 4 * MALI_NAME_BLOCK_SIZE"
  shows "\<exists>h block p cr. e = (h, (block, p), cr) \<and> 0 \<le> p \<and> p < int MALI_NAME_BLOCK_SIZE
    \<and> (cr = - 1 \<and> block \<noteq> MALI_NAME_BLOCK_SHADER \<or> 0 \<le> cr \<and> nat cr < core_count r)"
  using assms by (auto simp: all_entries_def shader_entries_def dest!: block_entry_cases)

lemma read_counter_defined:
  assumes "mali_wf s" and "readable (counter_reader s)" and "i < num_counters s"
  shows "\<exists>v. read_counter s i = Inr v"
proof -
  let ?r = "counter_reader s"
  have i: "i < length (all_entries ?r)" and l: "length (lut ?r) = 4 * MALI_NAME_BLOCK_SIZE"
    using assms(1,3) reader_wf_lut by (auto simp: mali_wf_def Let_def)
  obtain h block p cr where e: "all_entries ?r ! i = (h, (block, p), cr)" "0 \<le> p" "p < int MALI_NAME_BLOCK_SIZE"
    "cr = - 1 \<and> block \<noteq> MALI_NAME_BLOCK_SHADER \<or> 0 \<le> cr \<and> nat cr < length (core_index_remap ?r)"
    using entry_cases [OF nth_mem [OF i] l] assms(1) by (auto simp: mali_wf_def Let_def)
  then show ?thesis
    using assms(1) i counter_at_fits [OF assms(2) _ e(2,3), of block]
    by (auto simp: read_counter_def mali_wf_def Let_def)
qed

section \<open>What a run records\<close>

definition counter_values :: "mali_state \<Rightarrow> string \<Rightarrow> u32 list" where
  "counter_values s k = map (projr \<circ> read_counter s) (filter (\<lambda>i. header s ! i = k) [0..<num_counters s])"

lemma collect_counters_recorded:
  assumes "fold_res collect_counter (c, x) is = Inr (c', y)"
  shows "recorded (mResults c') k = recorded (mResults c) k
      @ map (CV_u64 \<circ> ucast \<circ> projr \<circ> read_counter (collector.more c)) (filter (\<lambda>i. header (collector.more c) ! i = k) is)
    \<and> y = x + (\<Sum>i \<leftarrow> is. real (unat (projr (read_counter (collector.more c) i))))"
  using assms
proof (induction "is" arbitrary: c x)
  case (Cons i "is")
  from Cons.prems obtain v c1 where v: "read_counter (collector.more c) i = Inr v"
    and 1: "add_uint (header (collector.more c) ! i) v c = Inr c1"
    and r: "fold_res collect_counter (c1, x + real (unat v)) is = Inr (c', y)"
    using that by (auto simp: collect_counter_eq)
  show ?case using Cons.IH [OF r] add_uint_eq(1,4) [OF 1] v by auto
qed simp

text \<open>A list that takes unsigned samples.\<close>

definition unsigned_results :: "CollectorValueResults \<Rightarrow> bool" where
  "unsigned_results r = list_all (\<lambda>l. vl_type l \<in> {TYPE_UNASSIGNED, TYPE_U64}) (map snd r)"

lemma add_uint_returns:
  assumes "unsigned_results (mResults c)"
  shows "\<exists>c'. add_uint k v c = Inr c' \<and> unsigned_results (mResults c')"
proof -
  let ?l = "case map_of (mResults c) k of None \<Rightarrow> empty_list | Some l \<Rightarrow> l"
  have "vl_type ?l \<in> {TYPE_UNASSIGNED, TYPE_U64}"
    using map_of_all [OF assms [unfolded unsigned_results_def], of k] by (auto simp: empty_list_def split: option.splits)
  then obtain l where "push_back_uint v ?l = Inr l" "vl_type l = TYPE_U64"
    by (simp add: push_back_uint_def push_back_typed_eq_Inr)
  then show ?thesis
    using assms by (intro exI [of _ "c\<lparr>mResults := map_set k l (mResults c)\<rparr>"])
      (simp add: add_uint_def add_with_eq unsigned_results_def map_set_all)
qed

lemma collect_counters_return:
  assumes "mali_wf s" and "readable (counter_reader s)" and "collector.more c = s" and "unsigned_results (mResults c)"
  shows "\<exists>c' y. fold_res collect_counter (c, x) [0..<num_counters s] = Inr (c', y) \<and> unsigned_results (mResults c')"
proof -
  let ?P = "\<lambda>(c', y :: real). collector.more c' = s \<and> unsigned_results (mResults c')"
  have "\<exists>t. fold_res collect_counter (c, x) [0..<num_counters s] = Inr t \<and> ?P t"
  proof (rule fold_res_returns)
    fix cy i assume i: "i \<in> set [0..<num_counters s]" and p: "?P cy"
    obtain c1 y where cy: "cy = (c1, y)" by (cases cy)
    obtain v where v: "read_counter s i = Inr v" using read_counter_defined [OF assms(1,2)] i by auto
    obtain c2 where c2: "add_uint (header s ! i) v c1 = Inr c2" "unsigned_results (mResults c2)"
      using add_uint_returns p cy by blast
    have "i < length (header s)" using i assms(1) by (simp add: mali_wf_def Let_def)
    then have "collect_counter (c1, y) i = Inr (c2, y + real (unat v))"
      using v c2 p cy by (simp add: collect_counter_eq)
    then show "\<exists>s'. collect_counter cy i = Inr s' \<and> ?P s'" using c2 add_uint_eq(1) [OF c2(1)] p cy by auto
  qed (use assms in simp)
  then show ?thesis by auto
qed

lemma values_zero_iff:
  assumes "mali_wf s"
  shows "(\<Sum>i \<leftarrow> [0..<num_counters s]. real (unat (projr (read_counter s i)))) = 0
    \<longleftrightarrow> (\<forall>k. \<forall>v \<in> set (counter_values s k). v = 0)"
proof -
  have "(\<Sum>i \<leftarrow> xs. real (unat (projr (read_counter s i)))) = 0 \<longleftrightarrow> (\<forall>i \<in> set xs. projr (read_counter s i) = 0)" for xs
    by (subst sum_list_nonneg_eq_0_iff) (auto simp: unat_eq_0 [symmetric] simp del: of_nat_unat unat_eq_0)
  then show ?thesis by (auto simp: counter_values_def)
qed

lemma mali_collect_once:
  assumes "mali_wf s" and "readable (counter_reader s)" and "collector.more c = s" and "unsigned_results (mResults c)"
  shows "if \<forall>k. \<forall>v \<in> set (counter_values s k). v = 0 then Mali_collect now c w = Inl (Exited 0)
    else \<exists>c'. Mali_collect now c w = Inr (True, c', w) \<and> collector.more c' = s \<and> unsigned_results (mResults c')
      \<and> (\<forall>k. recorded (mResults c') k = recorded (mResults c) k @ map (CV_u64 \<circ> ucast) (counter_values s k))"
proof -
  obtain c' y where r: "fold_res collect_counter (c, 0) [0..<num_counters s] = Inr (c', y)" "unsigned_results (mResults c')"
    using collect_counters_return [OF assms] by blast
  have y: "y = (\<Sum>i \<leftarrow> [0..<num_counters s]. real (unat (projr (read_counter s i))))"
    and k: "recorded (mResults c') k = recorded (mResults c) k @ map (CV_u64 \<circ> ucast) (counter_values s k)" for k
    using collect_counters_recorded [OF r(1), of k] assms(3) by (simp_all add: counter_values_def comp_assoc)
  have "collector.more c' = s" using collect_counters_frame [OF r(1)] assms(3) by simp
  then show ?thesis
    using r k assms(1,3) values_zero_iff [OF assms(1)] y by (auto simp: Mali_collect_def mali_wf_def Let_def)
qed

text \<open>A run of successful collections.\<close>

lemma mali_collect_many:
  assumes "mali_wf s" and "readable (counter_reader s)" and "\<not> (\<forall>k. \<forall>v \<in> set (counter_values s k). v = 0)"
    and "collector.more c = s" and "unsigned_results (mResults c)"
  shows "\<exists>c'. collect_run (mali_vtable M) ts c w = Some (c', w) \<and> (\<forall>k. recorded (mResults c') k
    = recorded (mResults c) k @ concat (replicate (length ts) (map (CV_u64 \<circ> ucast) (counter_values s k))))"
  using assms(4,5)
proof (induction ts arbitrary: c)
  case (Cons now ts)
  obtain c1 where c1: "Mali_collect now c w = Inr (True, c1, w)" "collector.more c1 = s" "unsigned_results (mResults c1)"
    "\<forall>k. recorded (mResults c1) k = recorded (mResults c) k @ map (CV_u64 \<circ> ucast) (counter_values s k)"
    using mali_collect_once [OF assms(1,2) Cons.prems, of now w] assms(3) by auto
  have "v_collect (mali_vtable M) now c w = Inr (True, c1, w)" using c1(1) by (simp add: mali_vtable_def base_vtable_def)
  then show ?case using Cons.IH [OF c1(2,3)] c1(4) by auto
qed simp

text \<open>
  C9: what a run of the Mali collector records. After construction, \<open>init\<close> and \<open>start\<close> the
  counters are those of the event \<open>start\<close> waited for, and no later call fetches another one: if all
  of them are zero the first \<open>collect\<close> ends the program, and otherwise every one of any number of
  calls of \<open>collect\<close> succeeds and stores the same values again. No access is outside the sample
  provided the driver's buffer holds the blocks and cores of its layout.
\<close>

theorem mali_run_frozen:
  assumes "MaliCounterCollector_new J config nm g junk ans n = Inr c" and "Mali_init c w = Inr (True, c1, w1)"
    and "Mali_start M c1 w1 = Inr (True, c2, w2)" and "readable (counter_reader (collector.more c2))"
  shows "(\<exists>e. wait_next_event e (counter_reader (collector.more c1)) = Inr (True, counter_reader (collector.more c2)))
    \<and> (if \<forall>k. \<forall>v \<in> set (counter_values (collector.more c2) k). v = 0
       then Mali_collect now c2 w2 = Inl (Exited 0)
       else \<exists>c3. collect_run (mali_vtable M) ts c2 w2 = Some (c3, w2) \<and> (\<forall>k. recorded (mResults c3) k
         = concat (replicate (length ts) (map (CV_u64 \<circ> ucast) (counter_values (collector.more c2) k)))))"
proof -
  note i = mali_init_wf [OF assms(1,2)]
  note st = mali_start_wf [OF assms(3) conjunct1 [OF i]]
  have u: "unsigned_results (mResults c2)" "recorded (mResults c2) k = []" for k
    using i st by (simp_all add: unsigned_results_def recorded_def)
  show ?thesis
    using st mali_collect_once [OF _ assms(4) refl u(1), of now w2] mali_collect_many [OF _ assms(4) _ refl u(1), of M ts w2] u(2)
    by (simp split: if_splits)
qed

definition example_gpu :: gpu_answers where
  "example_gpu = \<lparr>g_open = 3, g_version = (0, 0), g_flags = (0, 0), g_props = (0, 0), g_product_id = 0x6956,
     g_major = 0, g_minor = 0, g_num_core_groups = 1, g_groups = [1]\<rparr>"

definition example_driver :: "nat \<Rightarrow> reader_answers" where
  "example_driver i = \<lparr>a_open = 4, a_check = (0, 0), a_major = 10, a_flags = (0, 0), a_setup = (0, 0), a_hwc_fd = 5,
     a_api = 0, a_api_version = 1, a_size = 0, a_buffer_size = 1024, a_hwver = 0, a_hw_ver = 5,
     a_mapped = Some (replicate 1024 1), a_interval = 0\<rparr>"

definition example_event :: event_answers where
  "example_event = \<lparr>e_count = 1, e_pollin = True, e_get = 0, e_idx = 0, e_timestamp = 7, e_put = 0\<rparr>"

definition example_mali_ops :: "unit mali_ops" where
  "example_mali_ops = \<lparr>m_open = \<lambda>w. (3, w), m_event = \<lambda>w. (example_event, w)\<rparr>"

lemma example_info:
  "get_mali_hw_info example_gpu i0 = Inr (True, \<lparr>valid = True, mp_count = of_nat (popcount (core_mask i0 OR 1)),
     gpu_id = 0x6956, r_value = 0, p_value = 0, core_mask = core_mask i0 OR 1\<rparr>)"
  by (simp add: get_mali_hw_info_def example_gpu_def mali_ioctl_def Let_def)

lemma example_identify: "identify 0x6956 = Some hardware_counters_mali_t60x"
  by (simp add: identify_def products_def product_ids)

lemma example_remap: "remap_loop 1 [] = [0]"
  unfolding remap_loop_filter by code_simp

lemma init_mali_returns:
  assumes "valid (info (collector.more c))" and "alive (counter_reader (collector.more c))"
    and "reader_wf (counter_reader (collector.more c))"
  shows "\<exists>c1. Mali_init c w = Inr (True, c1, w) \<and> counter_reader (collector.more c1) = counter_reader (collector.more c)
    \<and> length (start_values (collector.more c1)) = num_counters (collector.more c1)"
  using assms build_vectors_eq [OF reader_wf_lut [OF assms(3,2)]]
  by (simp add: Mali_init_def Let_def set_private_def resize_values_def min_def)

lemma start_mali_returns:
  assumes "mali_wf s" and "readable (counter_reader s)" and "length (start_values s) = num_counters s"
  shows "\<exists>vs. fold_res start_value s [0..<num_counters s] = Inr (s\<lparr>start_values := vs\<rparr>)"
proof -
  let ?P = "\<lambda>t. \<exists>vs. t = s\<lparr>start_values := vs\<rparr> \<and> length vs = num_counters s"
  have "\<exists>t. fold_res start_value s [0..<num_counters s] = Inr t \<and> ?P t"
  proof (rule fold_res_returns)
    fix t i assume i: "i \<in> set [0..<num_counters s]" and "?P t"
    then obtain vs where t: "t = s\<lparr>start_values := vs\<rparr>" "length vs = num_counters s" by blast
    obtain v where "read_counter s i = Inr v" using read_counter_defined [OF assms(1,2)] i by auto
    then have "read_counter t i = Inr v" by (simp add: t(1) read_counter_def Let_def split: if_splits prod.splits)
    then have "start_value t i = Inr (s\<lparr>start_values := vs[i := real (unat v)]\<rparr>)" using i t by (simp add: start_value_def)
    then show "\<exists>t'. start_value t i = Inr t' \<and> ?P t'" using t(2) by (metis length_list_update)
  qed (use assms(3) in \<open>auto intro: exI [of _ "start_values s"]\<close>)
  then show ?thesis by blast
qed

text \<open>A T60x with one core whose counters are all one.\<close>

definition example_reader :: MaliHWCReader where
  "example_reader = MaliHWCReader_new \<lparr>valid = True, mp_count = 1, gpu_id = 0x6956, r_value = 0, p_value = 0, core_mask = 1\<rparr>
     example_driver"

lemma init_attempts_first:
  assumes "\<not> alive r" and "alive (snd (init_reader (ans i) (of_nat i) r))"
  shows "init_attempts ans (i # is) r = snd (init_reader (ans i) (of_nat i) r)"
  using assms by (cases "is") simp_all

lemma example_reader_first:
  fixes i defines "i \<equiv> \<lparr>valid = True, mp_count = 1, gpu_id = 0x6956, r_value = 0, p_value = 0, core_mask = 1\<rparr>"
  defines "r \<equiv> \<lparr>hw = i, rd_fd = - 1, hwc_fd = - 1, buffer_size = 0, buffer_count = 0, hw_ver = 0,
        sample_data = None, timestamp = 0, counter_buffer = [], lut = [], alive = False, core_index_remap = []\<rparr>"
  shows "example_reader = snd (init_reader (example_driver 1) 1 r)"
proof -
  have u: "[1..<1024] = 1 # [Suc 1..<1024]" by (rule upt_conv_Cons) simp
  have "alive (snd (init_reader (example_driver 1) (of_nat 1) r))"
    by (simp add: init_reader_def example_driver_def reader_term_def mali_ioctl_def HWCNT_READER_API_def
        example_identify r_def i_def)
  then have "init_attempts example_driver (1 # [Suc 1..<1024]) r = snd (init_reader (example_driver 1) (of_nat 1) r)"
    by (intro init_attempts_first) (simp_all add: r_def)
  then show ?thesis
    unfolding example_reader_def MaliHWCReader_new_def Let_def u by (simp add: r_def i_def del: upt_rec_numeral)
qed

lemma example_reader_fields:
  "alive example_reader" "lut example_reader = hardware_counters_mali_t60x" "core_index_remap example_reader = [0]"
  "length (counter_buffer example_reader) = 256" "hw_ver example_reader = 5" "buffer_size example_reader = 1024"
  "sample_data example_reader = Some (replicate 1024 1)"
  unfolding example_reader_first
  by (simp_all add: init_reader_def example_driver_def reader_term_def mali_ioctl_def HWCNT_READER_API_def
      example_identify example_remap)

lemma example_event_reader:
  "wait_next_event example_event example_reader = Inr (True, example_reader\<lparr>counter_buffer := replicate 256 1, timestamp := 7\<rparr>)"
  using example_reader_fields by (simp add: wait_next_event_def example_event_def Let_def min_def)

lemma example_counter_at: "counter_buffer r = replicate n 1 \<Longrightarrow> counter_at r b k p = Inr v \<Longrightarrow> v = 1"
  by (auto simp: counter_at_def Let_def split: if_splits)

lemma example_nonzero:
  assumes "mali_wf s" and "readable (counter_reader s)" and "counter_buffer (counter_reader s) = replicate n 1"
    and "lut (counter_reader s) = hardware_counters_mali_t60x"
  shows "\<exists>k. 1 \<in> set (counter_values s k)"
proof -
  have "''T60x_MESSAGES_SENT'' \<in> set hardware_counters_mali_t60x_jm" by (simp add: hardware_counters_mali_t60x_jm_def)
  moreover have "take MALI_NAME_BLOCK_SIZE (get_counter_names (counter_reader s) MALI_NAME_BLOCK_JM) = hardware_counters_mali_t60x_jm"
    using assms(4) by (simp add: get_counter_names_def hardware_counters_mali_t60x_def MALI_NAME_BLOCK_SIZE_def block_lengths)
  ultimately have "all_entries (counter_reader s) \<noteq> []"
    by (fastforce simp: all_entries_def block_entries_def filter_empty_conv)
  then have n: "0 < num_counters s" using assms(1) by (simp add: mali_wf_def Let_def)
  then obtain v where v: "read_counter s 0 = Inr v" using read_counter_defined [OF assms(1,2)] by blast
  then have "v = 1" using example_counter_at [OF assms(3)] by (auto simp: read_counter_def Let_def split: if_splits prod.splits)
  with v n show ?thesis
    by (intro exI [of _ "header s ! 0"]) (auto simp: counter_values_def intro!: rev_image_eqI [of 0])
qed

definition example_mali :: "(json, mali_state) collector_scheme" where
  "example_mali = collector.extend (Collector_new tree_json (JObject []) ''malicounters'')
     \<lparr>info = hw example_reader, counter_reader = example_reader, header = [], indices = [], core_indices = [],
      start_values = [], num_counters = 0\<rparr>"

lemma example_hw: "hw example_reader = \<lparr>valid = True, mp_count = 1, gpu_id = 0x6956, r_value = 0, p_value = 0, core_mask = 1\<rparr>"
  unfolding example_reader_def using MaliHWCReader_new_wf by blast

lemma example_mali_new:
  "MaliCounterCollector_new tree_json (JObject []) ''malicounters'' example_gpu
     \<lparr>valid = False, mp_count = 0, gpu_id = 0, r_value = 0, p_value = 0, core_mask = 0\<rparr> example_driver 0 = Inr example_mali"
proof -
  have "of_nat (popcount 1) = (1 :: u32)" by code_simp
  then show ?thesis
    by (simp add: MaliCounterCollector_new_def InfoCapsule_new_def example_info example_mali_def example_hw)
      (simp add: example_reader_def)
qed

theorem mali_run_frozen_witness:
  "\<exists>c1 c2. Mali_init example_mali () = Inr (True, c1, ()) \<and> Mali_start example_mali_ops c1 () = Inr (True, c2, ())
     \<and> (\<exists>c3. collect_run (mali_vtable example_mali_ops) [10, 20] c2 () = Some (c3, ()) \<and> (\<forall>k. recorded (mResults c3) k
          = concat (replicate 2 (map (CV_u64 \<circ> ucast) (counter_values (collector.more c2) k)))))"
proof -
  have wf: "reader_wf example_reader" unfolding example_reader_def using MaliHWCReader_new_wf by blast
  have m: "info (collector.more example_mali) = hw example_reader" "counter_reader (collector.more example_mali) = example_reader"
    by (simp_all add: example_mali_def collector.defs)
  obtain c1 where c1: "Mali_init example_mali () = Inr (True, c1, ())" "counter_reader (collector.more c1) = example_reader"
    "length (start_values (collector.more c1)) = num_counters (collector.more c1)"
    using init_mali_returns [of example_mali "()"] wf example_reader_fields(1) by (auto simp: m example_hw)
  have w1: "mali_wf (collector.more c1)" using mali_init_wf [OF example_mali_new c1(1)] by blast
  have r: "readable (example_reader\<lparr>counter_buffer := b, timestamp := t\<rparr>)" if "length b = 256" for b t
    using that example_reader_fields by (simp add: readable_def Let_def MALI_NAME_BLOCK_SIZE_def)
  then have "readable example_reader"
    using example_reader_fields by (simp add: readable_def Let_def MALI_NAME_BLOCK_SIZE_def)
  then obtain vs where vs: "fold_res start_value (collector.more c1) [0..<num_counters (collector.more c1)]
      = Inr ((collector.more c1)\<lparr>start_values := vs\<rparr>)"
    using start_mali_returns [OF w1 _ c1(3)] c1(2) by auto
  let ?c2 = "set_private (\<lambda>_. (collector.more c1)\<lparr>start_values := vs,
    counter_reader := example_reader\<lparr>counter_buffer := replicate 256 1, timestamp := 7\<rparr>\<rparr>) c1"
  have "valid (info (collector.more c1))" using w1 by (simp add: mali_wf_def Let_def)
  then have c2: "Mali_start example_mali_ops c1 () = Inr (True, ?c2, ())"
    using vs example_event_reader c1(2) by (simp add: Mali_start_def Let_def example_mali_ops_def)
  have r2: "readable (counter_reader (collector.more ?c2))" using r by (simp add: set_private_def)
  obtain k where "1 \<in> set (counter_values (collector.more ?c2) k)"
    using example_nonzero [OF conjunct1 [OF mali_start_wf [OF c2 w1]] r2, of 256] example_reader_fields(2)
    by (auto simp: set_private_def)
  then have nz: "\<not> (\<forall>k. \<forall>v \<in> set (counter_values (collector.more ?c2) k). v = 0)" by (metis zero_neq_one)
  note run = conjunct2 [OF mali_run_frozen [OF example_mali_new c1(1) c2 r2, of 0 "[10, 20]"], unfolded if_not_P [OF nz]]
  have two: "length [10, 20 :: i64] = 2" by simp
  show ?thesis using c1(1) c2 run [unfolded two] by blast
qed

section \<open>Which counter a name stands for\<close>

lemma zip_entries: "zip (map fst es) (zip (map (fst \<circ> snd) es) (map (snd \<circ> snd) es)) = es"
  by (induction es) simp_all

text \<open>
  C15: what \<open>init\<close> builds. A new collector that initialises has one entry for each counter with a
  name, block by block (job manager, tiler, memory, then the shader block once per core), with the name
  of the block in front, and no other entries. The position of an entry is that of the first
  name in the block that contains the name of the counter: the search always succeeds, at or before
  the counter's own position, and it is the own position exactly if no earlier name contains it.
\<close>

theorem mali_init_layout:
  assumes "MaliCounterCollector_new J config nm g junk ans n = Inr c" and "Mali_init c w = Inr (True, c1, w1)"
  shows "let s = collector.more c1; r = counter_reader s; names = get_counter_names r in
    zip (header s) (zip (indices s) (core_indices s)) = all_entries r \<and> num_counters s = length (header s)
    \<and> (\<forall>block. \<forall>j < MALI_NAME_BLOCK_SIZE. \<exists>p \<le> j. find_counter_index_by_name r block (names block ! j) = int p
      \<and> strstr (names block ! p) (names block ! j) \<and> (\<forall>q < p. \<not> strstr (names block ! q) (names block ! j)))"
proof -
  have w: "mali_wf (collector.more c1)" using mali_init_wf [OF assms] by blast
  then have "length (lut (counter_reader (collector.more c1))) = 4 * MALI_NAME_BLOCK_SIZE"
    using reader_wf_lut by (simp add: mali_wf_def Let_def)
  from find_counter_first [OF this] w show ?thesis
    by (simp add: mali_wf_def Let_def zip_entries)
qed

theorem mali_init_layout_witness:
  "\<exists>c1. Mali_init example_mali () = Inr (True, c1, ()) \<and> zip (header (collector.more c1))
     (zip (indices (collector.more c1)) (core_indices (collector.more c1))) = all_entries example_reader"
proof -
  have "reader_wf example_reader" unfolding example_reader_def using MaliHWCReader_new_wf by blast
  moreover have "info (collector.more example_mali) = hw example_reader"
    "counter_reader (collector.more example_mali) = example_reader"
    by (simp_all add: example_mali_def collector.defs)
  ultimately obtain c1 where "Mali_init example_mali () = Inr (True, c1, ())"
    "counter_reader (collector.more c1) = example_reader"
    using init_mali_returns [of example_mali "()"] example_reader_fields(1) by (auto simp: example_hw)
  with mali_init_layout [OF example_mali_new this(1)] show ?thesis by (auto simp: Let_def)
qed

lemma mmu_names:
  "take MALI_NAME_BLOCK_SIZE (drop (MALI_NAME_BLOCK_SIZE * 3) hardware_counters_mali_t60x) = hardware_counters_mali_t60x_mmu"
  "take MALI_NAME_BLOCK_SIZE (drop (MALI_NAME_BLOCK_SIZE * 3) hardware_counters_mali_t76x) = hardware_counters_mali_t76x_mmu"
  "take MALI_NAME_BLOCK_SIZE (drop (MALI_NAME_BLOCK_SIZE * 3) hardware_counters_mali_tSIx) = hardware_counters_mali_tSIx_mmu"
  by (simp_all add: hardware_counters_mali_t60x_def hardware_counters_mali_t76x_def hardware_counters_mali_tSIx_def
      MALI_NAME_BLOCK_SIZE_def block_lengths)

lemma mmu_search:
  "map (\<lambda>nm. find_from 0 hardware_counters_mali_t60x_mmu nm) [''T60x_L2_EXT_READ'', ''T60x_L2_EXT_WRITE''] = [31, 30]"
  "map (\<lambda>i. hardware_counters_mali_t60x_mmu ! i) [48, 50] = [''T60x_L2_EXT_READ'', ''T60x_L2_EXT_WRITE'']"
  "find_from 0 hardware_counters_mali_t76x_mmu ''T76x_L2_EXT_R_BUF_FULL'' = 55"
  "map (\<lambda>i. hardware_counters_mali_t76x_mmu ! i) [55, 60] = [''T76x_L2_EXT_R_BUF_FULL'', ''T76x_L2_EXT_R_BUF_FULL'']"
  "find_from 0 hardware_counters_mali_tSIx_mmu ''TSIx_L2_EXT_SNOOP'' = 28"
  "hardware_counters_mali_tSIx_mmu ! 52 = ''TSIx_L2_EXT_SNOOP''"
  by code_simp+

lemma mmu_entry_iff:
  assumes "take MALI_NAME_BLOCK_SIZE (get_counter_names r MALI_NAME_BLOCK_MMU) = names"
  shows "(''MMU_'' @ nm, (MALI_NAME_BLOCK_MMU, p), cr) \<in> set (all_entries r)
    \<longleftrightarrow> nm \<in> set names \<and> nm \<noteq> [] \<and> p = find_from 0 names nm \<and> cr = - 1"
  using assms
  by (auto simp: all_entries_def block_entries_def shader_entries_def find_counter_index_by_name_def image_iff)

lemma block_name_nth:
  assumes "take MALI_NAME_BLOCK_SIZE (get_counter_names r block) = names" and "j < 64"
  shows "get_counter_names r block ! j = names ! j"
  using assms by (auto simp: MALI_NAME_BLOCK_SIZE_def)

text \<open>
  C16: names that stand for the counter of another name. On a T60x the samples stored under the
  external reads and writes of the level 2 cache (counters 48 and 50 of the block) are those of the
  counters of beats at 31 and 30, whose names begin alike; the same holds for the snoops of a
  THEx, TMIx or TSIx, here the last. On a T76x two counters have the same name: both of its entries
  read counter 55, and counter 60 is never read.
\<close>

theorem mali_misread:
  assumes "lut r = t"
  shows "(t = hardware_counters_mali_t60x \<longrightarrow>
      get_counter_names r MALI_NAME_BLOCK_MMU ! 48 = ''T60x_L2_EXT_READ''
      \<and> (''MMU_T60x_L2_EXT_READ'', (MALI_NAME_BLOCK_MMU, 31), - 1) \<in> set (all_entries r)
      \<and> get_counter_names r MALI_NAME_BLOCK_MMU ! 50 = ''T60x_L2_EXT_WRITE''
      \<and> (''MMU_T60x_L2_EXT_WRITE'', (MALI_NAME_BLOCK_MMU, 30), - 1) \<in> set (all_entries r))
    \<and> (t = hardware_counters_mali_tSIx \<longrightarrow>
      get_counter_names r MALI_NAME_BLOCK_MMU ! 52 = ''TSIx_L2_EXT_SNOOP''
      \<and> (''MMU_TSIx_L2_EXT_SNOOP'', (MALI_NAME_BLOCK_MMU, 28), - 1) \<in> set (all_entries r))
    \<and> (t = hardware_counters_mali_t76x \<longrightarrow>
      get_counter_names r MALI_NAME_BLOCK_MMU ! 60 = ''T76x_L2_EXT_R_BUF_FULL''
      \<and> (\<forall>p. (''MMU_T76x_L2_EXT_R_BUF_FULL'', (MALI_NAME_BLOCK_MMU, p), - 1) \<in> set (all_entries r) \<longrightarrow> p = 55))"
proof -
  have m: "take MALI_NAME_BLOCK_SIZE (get_counter_names r MALI_NAME_BLOCK_MMU)
    = take MALI_NAME_BLOCK_SIZE (drop (MALI_NAME_BLOCK_SIZE * 3) t)"
    using assms by (simp add: get_counter_names_def)
  have mem: "names ! j \<in> set names" if "length names = 64" "j < 64" for names :: "string list" and j
    using that by simp
  note iff = mmu_entry_iff [where r = r, unfolded m] and nth = block_name_nth [where block = MALI_NAME_BLOCK_MMU and r = r, unfolded m]
  show ?thesis
  proof (intro conjI impI)
    assume t: "t = hardware_counters_mali_t60x"
    note n = mmu_names(1) [folded t]
    show "get_counter_names r MALI_NAME_BLOCK_MMU ! 48 = ''T60x_L2_EXT_READ''"
      "get_counter_names r MALI_NAME_BLOCK_MMU ! 50 = ''T60x_L2_EXT_WRITE''"
      using nth [OF n] mmu_search(2) by simp_all
    show "(''MMU_T60x_L2_EXT_READ'', (MALI_NAME_BLOCK_MMU, 31), - 1) \<in> set (all_entries r)"
      "(''MMU_T60x_L2_EXT_WRITE'', (MALI_NAME_BLOCK_MMU, 30), - 1) \<in> set (all_entries r)"
      using iff [OF n, of "''T60x_L2_EXT_READ''"] iff [OF n, of "''T60x_L2_EXT_WRITE''"] mmu_search(1,2)
        mem [of hardware_counters_mali_t60x_mmu 48] mem [of hardware_counters_mali_t60x_mmu 50] block_lengths by simp_all
  next
    assume t: "t = hardware_counters_mali_tSIx"
    note n = mmu_names(3) [folded t]
    show "get_counter_names r MALI_NAME_BLOCK_MMU ! 52 = ''TSIx_L2_EXT_SNOOP''" using nth [OF n] mmu_search(6) by simp
    show "(''MMU_TSIx_L2_EXT_SNOOP'', (MALI_NAME_BLOCK_MMU, 28), - 1) \<in> set (all_entries r)"
      using iff [OF n, of "''TSIx_L2_EXT_SNOOP''"] mmu_search(5,6) mem [of hardware_counters_mali_tSIx_mmu 52] block_lengths
      by simp
  next
    assume t: "t = hardware_counters_mali_t76x"
    note n = mmu_names(2) [folded t]
    show "get_counter_names r MALI_NAME_BLOCK_MMU ! 60 = ''T76x_L2_EXT_R_BUF_FULL''" using nth [OF n] mmu_search(4) by simp
    show "\<forall>p. (''MMU_T76x_L2_EXT_R_BUF_FULL'', (MALI_NAME_BLOCK_MMU, p), - 1) \<in> set (all_entries r) \<longrightarrow> p = 55"
      using iff [OF n, of "''T76x_L2_EXT_R_BUF_FULL''"] mmu_search(3) by simp
  qed
qed

theorem mali_misread_witness:
  "(''MMU_T60x_L2_EXT_READ'', (MALI_NAME_BLOCK_MMU, 31), - 1) \<in> set (all_entries example_reader)"
  using mali_misread [OF example_reader_fields(2)] by simp

end
