(* ===== verification/Perf.thy ===== *)
theory Perf
  imports Utility Collection Sysfs
begin

text \<open>
  \<open>PerfCollector\<close> (\<open>perf.cpp\<close>, \<open>perf.hpp\<close>): the collector of CPU performance counters. For each
  thread of the program that is sampled and each counter unit there is a \<open>perf_thread\<close> with a
  group of kernel counters; a sample reads the whole group. In the per-API mode the difference of the
  counters over a scope is added up per function number. The kernel is an argument: the calls of
  \<open>perf_event_open\<close>, \<open>ioctl\<close>, \<open>read\<close>, \<open>close\<close>, the clock, the files under \<open>/proc\<close> and \<open>/sys\<close>, and
  on ARM the registers of the performance monitor. The architecture is an argument too.
\<close>

section \<open>Data\<close>

datatype hw_cnt_length = b32 | b64

datatype arch = AArch64 | ARM | X86_64

record platform =
  arch_of :: arch
  android :: bool

definition COLLECT_ALL_THREADS :: i32 where "COLLECT_ALL_THREADS = 1"

definition COLLECT_REPLAY_THREADS :: i32 where "COLLECT_REPLAY_THREADS = 2"

record snapshot =
  snap_size :: u64
  snap_values :: "u64 list"

definition snapshot_new :: snapshot where
  "snapshot_new = \<lparr>snap_size = 0, snap_values = replicate 8 0\<rparr>"

record event =
  ev_name :: string
  ev_type :: u32
  ev_config :: u64
  exc_user :: bool
  exc_kernel :: bool
  ev_len :: hw_cnt_length
  booker_ci :: bool
  cspmu :: bool
  device :: string
  inherited :: u32

record counter =
  c_name :: string
  c_fd :: int
  scope_values :: "u64 list"

text \<open>
  \<open>mValueResults\<close> is null or points to the results of the thread the context belongs to; the model
  keeps whether it is set.
\<close>

record event_context =
  last_snap_func_id :: u16
  last_snap :: snapshot
  ec_group :: int
  mCounters :: "counter list"
  scope_num_with_perf :: "i32 list"
  scope_num_calls :: "i32 list"
  mValueResults :: bool
  ec_perapi :: bool

record perf_thread =
  pt_tid :: i32
  pt_name :: string
  device_name :: string
  eventCtx :: event_context
  mResultsPerThread :: CollectorValueResults

record perf_state =
  mSet :: i32
  mInherit :: i32
  mAllThread :: bool
  perapi :: bool
  pmu_counter_bits :: byte
  mBookerEvents :: "event list"
  mEvents :: "(string, event list) std_map"
  mCSPMUEvents :: "(string, event list) std_map"
  mClocks :: "(string, (i64 \<times> i64) list) std_map"
  last_collect_scope_flags :: i32
  attempt_collect_scope_x64 :: bool
  mReplayThreads :: "perf_thread list"
  mBgThreads :: "perf_thread list"
  mBookerThread :: "perf_thread list"
  mCSPMUThreads :: "perf_thread list"

section \<open>The kernel\<close>

record perf_event_attr =
  pe_type :: u32
  pe_config :: u64
  pe_config1 :: u64
  pe_disabled :: bool
  pe_inherit :: u32
  pe_exclude_user :: bool
  pe_exclude_kernel :: bool

datatype perf_request = IOC_RESET | IOC_ENABLE | IOC_DISABLE

text \<open>
  \<open>k_read\<close> is \<open>None\<close> for an error and otherwise the 64-bit numbers that were read, at most the nine
  that fit into a snapshot. A thread's name is the first word of its \<open>comm\<close> file; \<open>k_line\<close> is the
  first line of a file.
\<close>

record 'w perf_ops =
  k_open :: "perf_event_attr \<Rightarrow> i32 \<Rightarrow> i32 \<Rightarrow> int \<Rightarrow> 'w \<Rightarrow> int \<times> 'w"
  k_ioctl :: "int \<Rightarrow> perf_request \<Rightarrow> 'w \<Rightarrow> int \<times> 'w"
  k_read :: "int \<Rightarrow> 'w \<Rightarrow> u64 list option \<times> 'w"
  k_close :: "int \<Rightarrow> 'w \<Rightarrow> 'w"
  k_clock :: "'w \<Rightarrow> (i64 \<times> i64) \<times> 'w"
  k_tasks :: "'w \<Rightarrow> string list option"
  k_word :: "string \<Rightarrow> 'w \<Rightarrow> string option"
  k_line :: "string \<Rightarrow> 'w \<Rightarrow> string option"
  k_getpid :: "'w \<Rightarrow> i32"
  k_pmcr :: "'w \<Rightarrow> u64"
  k_pmuserenr :: "'w \<Rightarrow> u64"
  k_pmccntr :: "'w \<Rightarrow> u64 \<times> 'w"
  k_pmevcntr2 :: "'w \<Rightarrow> u64 \<times> 'w"

section \<open>Configuration\<close>

definition PERF_TYPE_HARDWARE :: u32 where "PERF_TYPE_HARDWARE = 0"
definition PERF_TYPE_RAW :: u32 where "PERF_TYPE_RAW = 4"
definition PERF_COUNT_HW_CPU_CYCLES :: u64 where "PERF_COUNT_HW_CPU_CYCLES = 0"
definition PERF_COUNT_HW_INSTRUCTIONS :: u64 where "PERF_COUNT_HW_INSTRUCTIONS = 1"
definition PERF_COUNT_HW_CACHE_REFERENCES :: u64 where "PERF_COUNT_HW_CACHE_REFERENCES = 2"
definition PERF_COUNT_HW_CACHE_MISSES :: u64 where "PERF_COUNT_HW_CACHE_MISSES = 3"
definition PERF_COUNT_HW_BRANCH_MISSES :: u64 where "PERF_COUNT_HW_BRANCH_MISSES = 5"

definition plain_event :: "string \<Rightarrow> u32 \<Rightarrow> u64 \<Rightarrow> event" where
  "plain_event nm t cfg = \<lparr>ev_name = nm, ev_type = t, ev_config = cfg, exc_user = False, exc_kernel = False,
     ev_len = b32, booker_ci = False, cspmu = False, device = [], inherited = 0\<rparr>"

definition EVENTS :: "i32 \<Rightarrow> event list" where
  "EVENTS n =
     (if n = 0 then
        [plain_event ''CPUInstructionRetired'' PERF_TYPE_HARDWARE PERF_COUNT_HW_INSTRUCTIONS,
         plain_event ''CPUCacheReferences'' PERF_TYPE_HARDWARE PERF_COUNT_HW_CACHE_REFERENCES,
         plain_event ''CPUCacheMisses'' PERF_TYPE_HARDWARE PERF_COUNT_HW_CACHE_MISSES,
         plain_event ''CPUBranchMispredictions'' PERF_TYPE_HARDWARE PERF_COUNT_HW_BRANCH_MISSES]
      else if n = 1 then
        [plain_event ''CPUInstructionRetired'' PERF_TYPE_RAW 0x8,
         plain_event ''CPUL1CacheAccesses'' PERF_TYPE_RAW 0x4,
         plain_event ''CPUL2CacheAccesses'' PERF_TYPE_RAW 0x16,
         plain_event ''CPULASESpec'' PERF_TYPE_RAW 0x74,
         plain_event ''CPUVFPSpec'' PERF_TYPE_RAW 0x75,
         plain_event ''CPUCryptoSpec'' PERF_TYPE_RAW 0x77]
      else if n = 2 then
        [plain_event ''CPUL3CacheAccesses'' PERF_TYPE_RAW 0x2b,
         plain_event ''CPUBusAccessRead'' PERF_TYPE_RAW 0x60,
         plain_event ''CPUBusAccessWrite'' PERF_TYPE_RAW 0x61,
         plain_event ''CPUMemoryAccessRead'' PERF_TYPE_RAW 0x66,
         plain_event ''CPUMemoryAccessWrite'' PERF_TYPE_RAW 0x67]
      else if n = 3 then
        [plain_event ''CPUBusAccesses'' PERF_TYPE_RAW 0x19,
         plain_event ''CPUL2CacheRead'' PERF_TYPE_RAW 0x50,
         plain_event ''CPUL2CacheWrite'' PERF_TYPE_RAW 0x51,
         plain_event ''CPUMemoryAccessRead'' PERF_TYPE_RAW 0x66,
         plain_event ''CPUMemoryAccessWrite'' PERF_TYPE_RAW 0x67]
      else [])"

definition NodeTypes :: "(string \<times> i32) list" where
  "NodeTypes = [(''DVM'', 1), (''CFG'', 2), (''DTC'', 3), (''HNI'', 4), (''HNF'', 5), (''XP'', 6), (''SBSX'', 7),
     (''MPAM_S'', 8), (''MPAM_NS'', 9), (''RNI'', 0xa), (''RND'', 0xd), (''RNSAM'', 0xf), (''MTSX'', 0x10),
     (''CXRA'', 0x100), (''CXHA'', 0x101), (''CXLA'', 0x102), ('' '', 0)]"

text \<open>\<open>NodeTypes[type]\<close>: a name that is not in the map gets the value zero.\<close>

definition node_type :: "string \<Rightarrow> i32" where
  "node_type t = (case map_of NodeTypes t of None \<Rightarrow> 0 | Some n \<Rightarrow> n)"

definition makeup_booker_ci_config :: "i32 \<Rightarrow> i32 \<Rightarrow> i32 \<Rightarrow> u64 \<Rightarrow> u64" where
  "makeup_booker_ci_config nodetype eventid bynodeid nodeid =
     (push_bit 32 nodeid AND 0x0000FFFF00000000) OR ucast (push_bit 31 bynodeid AND 0x80000000)
       OR ucast (push_bit 16 eventid AND 0x00FF0000) OR ucast (nodetype AND 0x0000FFFF)"

text \<open>\<open>count\<close>, then \<open>push_back\<close> or \<open>emplace\<close>: the event is appended to the list of its device.\<close>

definition push_event :: "string \<Rightarrow> event \<Rightarrow> (string, event list) std_map \<Rightarrow> (string, event list) std_map" where
  "push_event dev e m = (case map_of m dev of None \<Rightarrow> map_set dev [e] m | Some es \<Rightarrow> map_set dev (es @ [e]) m)"

definition leader_event :: "i32 \<Rightarrow> event" where
  "leader_event inherit = (plain_event ''CPUCycleCount'' PERF_TYPE_HARDWARE PERF_COUNT_HW_CPU_CYCLES)
     \<lparr>inherited := inherit, device := ''single''\<rparr>"

text \<open>The fields of an event that every kind of event reads from its entry.\<close>

definition item_event :: "'j json_ops \<Rightarrow> i32 \<Rightarrow> 'j \<Rightarrow> event" where
  "item_event J inherit item =
     \<lparr>ev_name = j_asString J (j_get J item ''name'' (j_of_string J [])),
      ev_type = j_asInt J (j_get J item ''type'' (j_of_int J 0)),
      ev_config = 0,
      exc_user = j_asBool J (j_get J item ''excludeUser'' (j_of_bool J False)),
      exc_kernel = j_asBool J (j_get J item ''excludeKernel'' (j_of_bool J False)),
      ev_len = (if j_asInt J (j_get J item ''counterLen64bit'' (j_of_int J 0)) = 0 then b32 else b64),
      booker_ci = (j_asInt J (j_get J item ''booker-ci'' (j_of_int J 0)) \<noteq> 0),
      cspmu = (j_asInt J (j_get J item ''CSPMU'' (j_of_int J 0)) \<noteq> 0),
      device = j_asString J (j_get J item ''device'' (j_of_string J [])),
      inherited = inherit\<rparr>"

definition booker_events :: "'j json_ops \<Rightarrow> 'j \<Rightarrow> event \<Rightarrow> event list" where
  "booker_events J item e =
     (let eventid = j_asInt J (j_get J item ''config'' (j_of_int J 0));
          nodetype = node_type (j_asString J (j_get J item ''nodetype'' (j_of_string J '' ''))) in
      if j_asInt J (j_get J item ''bynodeid'' (j_of_int J 0)) \<noteq> 0
      then map (\<lambda>x. let nodeid = j_asUInt64 J x in
             e\<lparr>ev_config := makeup_booker_ci_config nodetype eventid 1 nodeid,
               ev_name := j_asString J (j_get J item ''name'' (j_of_string J [])) @ ''_node'' @ show_nat (unat nodeid)\<rparr>)
           (j_elements J (j_at J item ''nodeid''))
      else [e\<lparr>ev_config := makeup_booker_ci_config nodetype eventid 0 0\<rparr>])"

text \<open>One turn of the loop over the events; the accumulator has the leader and \<open>leaderOnce\<close>.\<close>

definition parse_event ::
  "'j json_ops \<Rightarrow> 'w perf_ops \<Rightarrow> 'w \<Rightarrow> perf_state \<times> event \<times> bool \<Rightarrow> 'j \<Rightarrow> perf_state \<times> event \<times> bool" where
  "parse_event J K w acc item =
     (case acc of (s, leader, leaderOnce) \<Rightarrow>
      if \<not> j_isMember J item ''name'' \<or> \<not> j_isMember J item ''type'' \<and> \<not> j_isMember J item ''device''
        \<or> \<not> j_isMember J item ''config'' then acc
      else let e = item_event J (mInherit s) item in
        if perapi s \<and> (ev_len e = b32 \<and> pmu_counter_bits s \<noteq> 32 \<or> ev_len e = b64 \<and> pmu_counter_bits s \<noteq> 64) then acc
        else if device e \<noteq> [] then
          (case k_line K (''/sys/devices/'' @ device e @ ''/type'') w of None \<Rightarrow> acc
           | Some line \<Rightarrow>
             let e = e\<lparr>ev_config := j_asUInt64 J (j_get J item ''config'' (j_of_int J 0)), ev_type := atoi line\<rparr> in
             if cspmu e
             then (s\<lparr>mCSPMUEvents := push_event (device e) (e\<lparr>ev_name := device e @ ''_'' @ ev_name e\<rparr>) (mCSPMUEvents s)\<rparr>,
                   leader, leaderOnce)
             else (s\<lparr>mEvents := push_event (device e) e (mEvents s)\<rparr>, leader, leaderOnce))
        else if booker_ci e then (s\<lparr>mBookerEvents := mBookerEvents s @ booker_events J item e\<rparr>, leader, leaderOnce)
        else
          (let leader = (if leaderOnce then leader\<lparr>ev_len := ev_len e\<rparr> else leader);
               evs = (if leaderOnce then map_touch (device leader) [leader] (mEvents s) else mEvents s);
               e = e\<lparr>device := device leader, ev_config := j_asUInt64 J (j_get J item ''config'' (j_of_int J 0))\<rparr> in
           (s\<lparr>mEvents := push_event (device e) e evs\<rparr>, leader, False)))"

text \<open>\<open>junk\<close> is the value of \<open>pmu_counter_bits\<close> where the constructor leaves it as it is.\<close>

definition pmu_bits_new :: "platform \<Rightarrow> 'w perf_ops \<Rightarrow> bool \<Rightarrow> byte \<Rightarrow> 'w \<Rightarrow> byte" where
  "pmu_bits_new plat K enable junk w =
     (if android plat \<or> arch_of plat = X86_64 \<or> \<not> enable then junk
      else if k_pmcr K w AND 0x80 = 0x80 then 64 else 32)"

definition PerfCollector_new ::
  "platform \<Rightarrow> 'j json_ops \<Rightarrow> 'w perf_ops \<Rightarrow> 'j \<Rightarrow> string \<Rightarrow> bool \<Rightarrow> byte \<Rightarrow> 'w \<Rightarrow> ('j, perf_state) collector_scheme" where
  "PerfCollector_new plat J K config nm enablePerapiPerf junk w =
     (let base = Collector_new J config nm; cfg = mConfig base;
          enable = (if android plat then False else enablePerapiPerf);
          set_no = j_asInt J (j_get J cfg ''set'' (j_of_int J (- 1)));
          inherit = j_asInt J (j_get J cfg ''inherit'' (j_of_int J 1));
          leader = leader_event inherit;
          s = \<lparr>mSet = set_no, mInherit = inherit, mAllThread = True, perapi = enable,
               pmu_counter_bits = pmu_bits_new plat K enablePerapiPerf junk w, mBookerEvents = [], mEvents = [],
               mCSPMUEvents = [], mClocks = [], last_collect_scope_flags = 0, attempt_collect_scope_x64 = False,
               mReplayThreads = [], mBgThreads = [], mBookerThread = [], mCSPMUThreads = []\<rparr>;
          s = (if 0 \<le> sint set_no \<and> sint set_no \<le> 3
               then s\<lparr>mEvents := foldl (\<lambda>m e. push_event (device leader) (e\<lparr>device := device leader, inherited := inherit\<rparr>) m)
                       (map_touch (device leader) [leader] []) (EVENTS set_no)\<rparr>
               else if j_isMember J cfg ''event''
               then fst (foldl (parse_event J K w) (s, leader, True) (j_elements J (j_at J cfg ''event'')))
               else s)
      in collector.extend base (s\<lparr>mAllThread := j_asBool J (j_get J cfg ''allthread'' (j_of_bool J (\<not> enable)))\<rparr>))"

section \<open>A group of counters\<close>

definition add_event :: "'w perf_ops \<Rightarrow> event \<Rightarrow> i32 \<Rightarrow> i32 \<Rightarrow> int \<Rightarrow> 'w \<Rightarrow> int \<times> 'w" where
  "add_event K e tid cpu grp w =
     (case k_open K \<lparr>pe_type = ev_type e, pe_config = ev_config e, pe_config1 = (if ev_len e = b32 then 0 else 1),
          pe_disabled = True, pe_inherit = inherited e, pe_exclude_user = exc_user e, pe_exclude_kernel = exc_kernel e\<rparr>
        tid cpu grp w of (h, w') \<Rightarrow> (if h < 0 then - 1 else h, w'))"

definition counter_new :: "string \<Rightarrow> int \<Rightarrow> counter" where
  "counter_new nm h = \<lparr>c_name = nm, c_fd = h, scope_values = replicate 512 0\<rparr>"

definition event_context_new :: event_context where
  "event_context_new = \<lparr>last_snap_func_id = - 1, last_snap = snapshot_new, ec_group = - 1, mCounters = [],
     scope_num_with_perf = [], scope_num_calls = [], mValueResults = False, ec_perapi = False\<rparr>"

fun add_members :: "'w perf_ops \<Rightarrow> i32 \<Rightarrow> i32 \<Rightarrow> event list \<Rightarrow> event_context \<Rightarrow> 'w \<Rightarrow> event_context \<times> 'w" where
  "add_members K tid cpu [] ctx w = (ctx, w)"
| "add_members K tid cpu (e # es) ctx w =
     (case add_event K e tid cpu (ec_group ctx) w of (h, w') \<Rightarrow>
        add_members K tid cpu es (ctx\<lparr>mCounters := mCounters ctx @ [counter_new (ev_name e) h]\<rparr>) w')"

definition ctx_init ::
  "'w perf_ops \<Rightarrow> event list \<Rightarrow> i32 \<Rightarrow> i32 \<Rightarrow> event_context \<Rightarrow> 'w \<Rightarrow> (bool \<times> event_context \<times> 'w) result" where
  "ctx_init K events tid cpu ctx w = (case events of [] \<Rightarrow> Inl OutOfBounds
     | e # es \<Rightarrow>
       (case add_event K e tid cpu (- 1) w of (h, w1) \<Rightarrow>
        case add_members K tid cpu es (ctx\<lparr>ec_group := h, mCounters := mCounters ctx @ [counter_new (ev_name e) h]\<rparr>) w1 of
          (ctx', w2) \<Rightarrow>
        case k_ioctl K h IOC_RESET w2 of (_, w3) \<Rightarrow>
        case k_ioctl K h IOC_DISABLE w3 of (_, w4) \<Rightarrow>
          Inr (list_all (\<lambda>c. c_fd c \<noteq> - 1) (mCounters ctx'), ctx', w4)))"

definition ctx_deinit :: "'w perf_ops \<Rightarrow> event_context \<Rightarrow> 'w \<Rightarrow> event_context \<times> 'w" where
  "ctx_deinit K ctx w =
     (ctx\<lparr>mCounters := []\<rparr>, foldl (\<lambda>w c. if c_fd c \<noteq> - 1 then k_close K (c_fd c) w else w) w (mCounters ctx))"

text \<open>The bits E, C and R of the register: 1, 4 and 8.\<close>

definition PMCR_bits :: u64 where
  "PMCR_bits = 1 OR 4 OR 8"

definition ctx_start :: "platform \<Rightarrow> 'w perf_ops \<Rightarrow> event_context \<Rightarrow> 'w \<Rightarrow> (bool \<times> 'w) result" where
  "ctx_start plat K ctx w =
     (case k_ioctl K (ec_group ctx) IOC_RESET w of (r, w1) \<Rightarrow>
      if r = - 1 then Inr (False, w1)
      else case k_ioctl K (ec_group ctx) IOC_ENABLE w1 of (r, w2) \<Rightarrow>
        if r = - 1 then Inr (False, w2)
        else if \<not> android plat \<and> ec_perapi ctx
          \<and> (if arch_of plat = X86_64 then 0 else k_pmuserenr K w2) AND PMCR_bits \<noteq> PMCR_bits
        then Inl (Exited 1)
        else Inr (True, w2))"

text \<open>\<open>(*mValueResults)[name].push_back(v)\<close> for each value of a vector.\<close>

definition push_all ::
  "('v \<Rightarrow> CollectorValueList \<Rightarrow> CollectorValueList result) \<Rightarrow> string \<Rightarrow> 'v list \<Rightarrow> CollectorValueResults
     \<Rightarrow> CollectorValueResults result" where
  "push_all push nm vs r = fold_res (\<lambda>r v. map_modify nm empty_list (push v) r) r vs"

definition stop_counter ::
  "bool \<Rightarrow> CollectorValueResults \<Rightarrow> counter \<Rightarrow> CollectorValueResults result" where
  "stop_counter has_results r c =
     (if scope_values c \<noteq> [] \<and> has_results then push_all push_back_ulong (c_name c @ '':ScopeSum'') (scope_values c) r else Inr r)"

definition stop_numbers ::
  "bool \<Rightarrow> string \<Rightarrow> i32 list \<Rightarrow> CollectorValueResults \<Rightarrow> CollectorValueResults result" where
  "stop_numbers has_results nm ns r =
     (if ns \<noteq> [] \<and> \<not> has_results then Inl NullPointer else push_all push_back_int nm ns r)"

definition ctx_stop ::
  "'w perf_ops \<Rightarrow> event_context \<Rightarrow> CollectorValueResults \<Rightarrow> 'w \<Rightarrow> (bool \<times> CollectorValueResults \<times> 'w) result" where
  "ctx_stop K ctx r w =
     (case k_ioctl K (ec_group ctx) IOC_DISABLE w of (res, w1) \<Rightarrow>
      if res = - 1 then Inr (False, r, w1)
      else bind_res (fold_res (stop_counter (mValueResults ctx)) r (mCounters ctx)) (\<lambda>r.
        bind_res (stop_numbers (mValueResults ctx) ''CCthread:ScopeNumCalls'' (scope_num_calls ctx) r) (\<lambda>r.
        bind_res (stop_numbers (mValueResults ctx) ''CCthread:ScopeNumWithPerf'' (scope_num_with_perf ctx) r) (\<lambda>r.
          Inr (True, r, w1)))))"

text \<open>What \<open>read\<close> leaves in a new snapshot.\<close>

definition snap_of :: "u64 list option \<Rightarrow> snapshot" where
  "snap_of ws = (case ws of None \<Rightarrow> snapshot_new | Some [] \<Rightarrow> snapshot_new
     | Some (n # vs) \<Rightarrow> \<lparr>snap_size = n, snap_values = take 8 (vs @ replicate 8 0)\<rparr>)"

definition ctx_collect :: "'w perf_ops \<Rightarrow> event_context \<Rightarrow> 'w \<Rightarrow> snapshot \<times> 'w" where
  "ctx_collect K ctx w =
     (case k_read K (ec_group ctx) w of (ws, w1) \<Rightarrow>
      case k_ioctl K (ec_group ctx) IOC_RESET w1 of (_, w2) \<Rightarrow> (snap_of ws, w2))"

definition scope_snapshot :: "platform \<Rightarrow> 'w perf_ops \<Rightarrow> byte \<Rightarrow> event_context \<Rightarrow> 'w \<Rightarrow> snapshot \<times> 'w" where
  "scope_snapshot plat K pmu_bits ctx w =
     (if arch_of plat = AArch64
      then (case (if pmu_bits = 32 then k_pmccntr K w else k_pmevcntr2 K w) of (v, w') \<Rightarrow>
        (snapshot_new\<lparr>snap_values := v # replicate 7 0\<rparr>, w'))
      else if arch_of plat = ARM \<and> \<not> android plat
      then (case k_pmccntr K w of (v, w') \<Rightarrow> (snapshot_new\<lparr>snap_values := v # replicate 7 0\<rparr>, w'))
      else (case k_read K (ec_group ctx) w of (ws, w') \<Rightarrow> (snap_of ws, w')))"

definition ctx_collect_scope ::
  "platform \<Rightarrow> 'w perf_ops \<Rightarrow> u16 \<Rightarrow> bool \<Rightarrow> byte \<Rightarrow> event_context \<Rightarrow> 'w \<Rightarrow> (snapshot \<times> event_context \<times> 'w) result" where
  "ctx_collect_scope plat K func_id stopping pmu_bits ctx w =
     (if stopping \<and> last_snap_func_id ctx \<noteq> func_id then Inl (Exited 1)
      else case scope_snapshot plat K pmu_bits ctx w of (snap, w') \<Rightarrow>
        Inr (snap, if stopping then ctx\<lparr>last_snap_func_id := - 1\<rparr>
                   else ctx\<lparr>last_snap_func_id := func_id, last_snap := snap\<rparr>, w'))"

section \<open>Storing samples\<close>

definition value_at :: "snapshot \<Rightarrow> nat \<Rightarrow> u64 result" where
  "value_at snap i = (if i < length (snap_values snap) then Inr (snap_values snap ! i) else Inl OutOfBounds)"

definition update_data :: "counter list \<Rightarrow> snapshot \<Rightarrow> CollectorValueResults \<Rightarrow> CollectorValueResults result" where
  "update_data cs snap r =
     fold_res (\<lambda>r i. bind_res (value_at snap i) (\<lambda>v. map_modify (c_name (cs ! i)) empty_list (push_back_ulong v) r))
       r [0..<length cs]"

text \<open>
  A vector that is indexed by the function number grows on demand, up to 65534 entries; the
  numbers 65534 and 65535 are outside of it.
\<close>

definition grow :: "u16 \<Rightarrow> 'a \<Rightarrow> 'a list \<Rightarrow> 'a list" where
  "grow func_id d xs = (if length xs \<le> unat func_id then resize (min (unat func_id * 2 + 1) 65534) d xs else xs)"

definition bump :: "u16 \<Rightarrow> ('a :: {zero, plus}) \<Rightarrow> 'a list \<Rightarrow> 'a list result" where
  "bump func_id d xs = (let ys = grow func_id 0 xs; i = unat func_id in
     if i < length ys then Inr (ys[i := ys ! i + d]) else Inl OutOfBounds)"

definition scope_counter ::
  "u16 \<Rightarrow> snapshot \<Rightarrow> snapshot \<Rightarrow> counter list \<times> u64 \<Rightarrow> nat \<Rightarrow> (counter list \<times> u64) result" where
  "scope_counter func_id snap_start snap_end acc i =
     (case acc of (cs, diff_acc) \<Rightarrow>
      bind_res (value_at snap_end i) (\<lambda>e. bind_res (value_at snap_start i) (\<lambda>b.
      bind_res (bump func_id (e - b) (scope_values (cs ! i))) (\<lambda>vs.
        Inr (cs[i := (cs ! i)\<lparr>scope_values := vs\<rparr>], diff_acc + (e - b))))))"

definition update_data_scope :: "u16 \<Rightarrow> snapshot \<Rightarrow> snapshot \<Rightarrow> event_context \<Rightarrow> event_context result" where
  "update_data_scope func_id snap_start snap_end ctx =
     bind_res (fold_res (scope_counter func_id snap_start snap_end) (mCounters ctx, 0) [0..<length (mCounters ctx)])
       (\<lambda>(cs, diff_acc).
         let ctx = ctx\<lparr>mValueResults := True, mCounters := cs\<rparr> in
         if 0 < diff_acc
         then bind_res (bump func_id 1 (scope_num_calls ctx)) (\<lambda>n.
           bind_res (bump func_id 1 (scope_num_with_perf ctx)) (\<lambda>m.
             Inr (ctx\<lparr>scope_num_calls := n, scope_num_with_perf := m\<rparr>)))
         else Inr ctx)"

section \<open>Threads\<close>

definition perf_thread_new :: "i32 \<Rightarrow> string \<Rightarrow> string \<Rightarrow> perf_thread" where
  "perf_thread_new tid nm dev = \<lparr>pt_tid = tid, pt_name = nm, device_name = dev, eventCtx = event_context_new,
     mResultsPerThread = []\<rparr>"

definition thread_clear :: "perf_thread \<Rightarrow> perf_thread" where
  "thread_clear t = t\<lparr>mResultsPerThread := map (\<lambda>(k, l). (k, vl_clear l)) (mResultsPerThread t)\<rparr>"

definition thread_collect :: "'w perf_ops \<Rightarrow> perf_thread \<Rightarrow> 'w \<Rightarrow> (perf_thread \<times> 'w) result" where
  "thread_collect K t w =
     (case ctx_collect K (eventCtx t) w of (snap, w') \<Rightarrow>
      bind_res (update_data (mCounters (eventCtx t)) snap (mResultsPerThread t)) (\<lambda>r.
        Inr (t\<lparr>mResultsPerThread := r\<rparr>, w')))"

definition thread_summarize :: "perf_thread \<Rightarrow> perf_thread result" where
  "thread_summarize t = bind_res (map_values_res vl_summarize (mResultsPerThread t)) (\<lambda>r. Inr (t\<lparr>mResultsPerThread := r\<rparr>))"

definition thread_stop :: "'w perf_ops \<Rightarrow> perf_thread \<Rightarrow> 'w \<Rightarrow> (perf_thread \<times> 'w) result" where
  "thread_stop K t w = bind_res (ctx_stop K (eventCtx t) (mResultsPerThread t) w)
     (\<lambda>(_, r, w'). Inr (t\<lparr>mResultsPerThread := r\<rparr>, w'))"

definition thread_init ::
  "'w perf_ops \<Rightarrow> event list \<Rightarrow> i32 \<Rightarrow> i32 \<Rightarrow> perf_thread \<Rightarrow> 'w \<Rightarrow> (perf_thread \<times> 'w) result" where
  "thread_init K events tid cpu t w =
     bind_res (ctx_init K events tid cpu (eventCtx t) w) (\<lambda>(_, ctx, w'). Inr (t\<lparr>eventCtx := ctx\<rparr>, w'))"

text \<open>The arrays of one thread, added to those that are there; \<open>SUM\<close> has the totals.\<close>

definition sum_array :: "'j json_ops \<Rightarrow> 'j list \<Rightarrow> CollectorValue list \<Rightarrow> ('j \<times> u64) result" where
  "sum_array J old vs =
     fold_res (\<lambda>(arr, tot) (i, v). bind_res (cv_u64 v) (\<lambda>n.
         let x = (if i < length old then n + j_asUInt64 J (old ! i) else n) in
         Inr (j_append J arr (j_of_uint J x), tot + x)))
       (j_array J, 0) (enumerate 0 vs)"

definition sum_step :: "'j json_ops \<Rightarrow> 'j \<Rightarrow> string \<times> CollectorValueList \<Rightarrow> 'j result" where
  "sum_step J v kl = (case kl of (k, l) \<Rightarrow>
     bind_res (sum_array J (if j_isMember J v k then j_elements J (j_at J v k) else []) (vl_data l)) (\<lambda>(arr, tot).
       let v1 = j_set J v k arr in
       Inr (j_set J v1 ''SUM'' (j_set J (j_at J v1 ''SUM'') k (j_of_uint J tot)))))"

definition thread_postprocess :: "'j json_ops \<Rightarrow> perf_thread \<Rightarrow> 'j \<Rightarrow> 'j result" where
  "thread_postprocess J t v = fold_res (sum_step J) v (mResultsPerThread t)"

text \<open>A loop over a vector of threads.\<close>

fun each_thread ::
  "(perf_thread \<Rightarrow> 'w \<Rightarrow> (perf_thread \<times> 'w) result) \<Rightarrow> perf_thread list \<Rightarrow> 'w \<Rightarrow> (perf_thread list \<times> 'w) result" where
  "each_thread f [] w = Inr ([], w)"
| "each_thread f (t # ts) w = bind_res (f t w) (\<lambda>(t', w1).
     bind_res (each_thread f ts w1) (\<lambda>(ts', w2). Inr (t' # ts', w2)))"

section \<open>The collector\<close>

definition getThreadName :: "'w perf_ops \<Rightarrow> i32 \<Rightarrow> 'w \<Rightarrow> string" where
  "getThreadName K tid w =
     (case k_word K (if tid = 0 then ''/proc/self/comm''
                     else ''/proc/self/task/'' @ show_int (sint tid) @ ''/comm'') w of
        None \<Rightarrow> [] | Some nm \<Rightarrow> nm)"

definition replay_name :: "string \<Rightarrow> bool" where
  "replay_name nm \<longleftrightarrow> take 8 nm = ''patrace-''"

definition background_name :: "string \<Rightarrow> bool" where
  "background_name nm \<longleftrightarrow> take 5 nm = ''mali-'' \<or> take 6 nm = ''ANGLE-''"

definition add_replay :: "string \<Rightarrow> perf_thread list \<Rightarrow> perf_state \<Rightarrow> perf_state" where
  "add_replay nm new s = (if replay_name nm then s\<lparr>mReplayThreads := mReplayThreads s @ new\<rparr> else s)"

definition add_background :: "string \<Rightarrow> perf_thread list \<Rightarrow> perf_state \<Rightarrow> perf_state" where
  "add_background nm new s =
     (if mAllThread s \<and> background_name nm then s\<lparr>mBgThreads := mBgThreads s @ new\<rparr> else s)"

text \<open>One entry of the task directory.\<close>

definition create_for_task :: "'w perf_ops \<Rightarrow> 'w \<Rightarrow> perf_state \<Rightarrow> string \<Rightarrow> perf_state result" where
  "create_for_task K w s entry =
     (if entry = [] \<or> \<not> c_isdigit (hd entry) then Inr s
      else bind_res (stol entry) (\<lambda>n.
        let tid = ucast n; nm = getThreadName K tid w;
            new = map (\<lambda>(dev, _). perf_thread_new tid nm dev) (mEvents s) in
        Inr (add_background nm new (add_replay nm new s))))"

lemma add_thread_perapi [simp]:
  "perapi (add_replay nm new s) = perapi s" "perapi (add_background nm new s) = perapi s"
  by (simp_all add: add_replay_def add_background_def)

definition create_perf_thread :: "'w perf_ops \<Rightarrow> 'w \<Rightarrow> perf_state \<Rightarrow> perf_state result" where
  "create_perf_thread K w s =
     (let current = getThreadName K 0 w in
      if mCSPMUEvents s \<noteq> []
      then Inr (s\<lparr>mCSPMUThreads := mCSPMUThreads s @ map (\<lambda>(dev, _). perf_thread_new (k_getpid K w) current dev) (mCSPMUEvents s)\<rparr>)
      else case k_tasks K w of None \<Rightarrow> Inr s
        | Some entries \<Rightarrow> bind_res (fold_res (create_for_task K w) s entries) (\<lambda>s.
            Inr (if mBookerEvents s \<noteq> []
                 then s\<lparr>mBookerThread := mBookerThread s @ [perf_thread_new (k_getpid K w) current []]\<rparr> else s)))"

definition events_of :: "(string, event list) std_map \<Rightarrow> string \<Rightarrow> event list" where
  "events_of m dev = (case map_of m dev of None \<Rightarrow> [] | Some es \<Rightarrow> es)"

definition Perf_init :: "'w perf_ops \<Rightarrow> ('j, perf_state, 'w) vmethod" where
  "Perf_init K c w =
     bind_res (create_perf_thread K w (collector.more c)) (\<lambda>s.
     bind_res (each_thread (\<lambda>t. let t = (if perapi s then t\<lparr>eventCtx := (eventCtx t)\<lparr>ec_perapi := True\<rparr>\<rparr> else t) in
         thread_init K (events_of (mEvents s) (device_name t)) (pt_tid t) (- 1) t) (mReplayThreads s) w) (\<lambda>(rs, w).
     bind_res (each_thread (\<lambda>t. thread_init K (events_of (mEvents s) (device_name t)) (pt_tid t) (- 1) t) (mBgThreads s) w) (\<lambda>(bs, w).
     bind_res (each_thread (\<lambda>t. thread_init K (events_of (mCSPMUEvents s) (device_name t)) (- 1) 0 t) (mCSPMUThreads s) w) (\<lambda>(cs, w).
     bind_res (each_thread (\<lambda>t. thread_init K (mBookerEvents s) (- 1) 0 t) (mBookerThread s) w) (\<lambda>(ks, w).
       Inr (True, set_private (\<lambda>_. s\<lparr>mReplayThreads := rs, mBgThreads := bs, mCSPMUThreads := cs, mBookerThread := ks\<rparr>) c, w))))))"

definition Perf_clear :: "('j, perf_state) collector_scheme \<Rightarrow> ('j, perf_state) collector_scheme" where
  "Perf_clear c = (if mCollecting c then c else Collector_clear c)"

definition deinit_threads :: "'w perf_ops \<Rightarrow> perf_thread list \<Rightarrow> 'w \<Rightarrow> 'w" where
  "deinit_threads K ts w = foldl (\<lambda>w t. snd (ctx_deinit K (eventCtx t) w)) w ts"

definition Perf_deinit :: "'w perf_ops \<Rightarrow> ('j, perf_state, 'w) vmethod" where
  "Perf_deinit K c w =
     (let s = collector.more c;
          w = deinit_threads K (mReplayThreads s @ mBgThreads s @ mBookerThread s @ mCSPMUThreads s) w;
          s = s\<lparr>mBookerEvents := [], mEvents := [], mCSPMUEvents := [], mReplayThreads := [], mBgThreads := [],
                mBookerThread := [], mCSPMUThreads := [], mClocks := []\<rparr> in
      Inr (True, Perf_clear (set_private (\<lambda>_. s) c), w))"

fun start_threads :: "platform \<Rightarrow> 'w perf_ops \<Rightarrow> perf_thread list \<Rightarrow> 'w \<Rightarrow> (bool \<times> 'w) result" where
  "start_threads plat K [] w = Inr (True, w)"
| "start_threads plat K (t # ts) w = bind_res (ctx_start plat K (eventCtx t) w) (\<lambda>(ok, w').
     if ok then start_threads plat K ts w' else Inr (False, w'))"

fun start_cspmu ::
  "platform \<Rightarrow> 'w perf_ops \<Rightarrow> perf_thread list \<Rightarrow> (string, (i64 \<times> i64) list) std_map \<Rightarrow> 'w
     \<Rightarrow> (bool \<times> (string, (i64 \<times> i64) list) std_map \<times> 'w) result" where
  "start_cspmu plat K [] clocks w = Inr (True, clocks, w)"
| "start_cspmu plat K (t # ts) clocks w = bind_res (ctx_start plat K (eventCtx t) w) (\<lambda>(ok, w').
     if ok then start_cspmu plat K ts (map_touch (device_name t) [] clocks) w' else Inr (False, clocks, w'))"

definition Perf_start :: "platform \<Rightarrow> 'w perf_ops \<Rightarrow> ('j, perf_state, 'w) vmethod" where
  "Perf_start plat K c w =
     (if mCollecting c then Inr (True, c, w)
      else let s = collector.more c in
        bind_res (start_threads plat K (mReplayThreads s @ mBgThreads s @ mBookerThread s) w) (\<lambda>(ok, w1).
          if \<not> ok then Inr (False, c, w1)
          else bind_res (start_cspmu plat K (mCSPMUThreads s) (mClocks s) w1) (\<lambda>(ok, clocks, w2).
            let c' = set_private (\<lambda>s. s\<lparr>mClocks := clocks\<rparr>) c in
            if ok then Inr (True, c'\<lparr>mCollecting := True\<rparr>, w2) else Inr (False, c', w2))))"

definition Perf_stop :: "'w perf_ops \<Rightarrow> ('j, perf_state, 'w) vmethod" where
  "Perf_stop K c w =
     (if \<not> mCollecting c then Inr (True, c, w)
      else let s = collector.more c in
        bind_res (each_thread (thread_stop K) (mReplayThreads s) w) (\<lambda>(rs, w).
        bind_res (each_thread (thread_stop K) (mBgThreads s) w) (\<lambda>(bs, w).
        bind_res (each_thread (thread_stop K) (mBookerThread s) w) (\<lambda>(ks, w).
        bind_res (each_thread (thread_stop K) (mCSPMUThreads s) w) (\<lambda>(cs, w).
          Inr (True, (set_private (\<lambda>_. s\<lparr>mReplayThreads := rs, mBgThreads := bs, mBookerThread := ks, mCSPMUThreads := cs\<rparr>) c)
            \<lparr>mCollecting := False\<rparr>, w))))))"

fun collect_cspmu ::
  "'w perf_ops \<Rightarrow> perf_thread list \<Rightarrow> (string, (i64 \<times> i64) list) std_map \<Rightarrow> 'w
     \<Rightarrow> (perf_thread list \<times> (string, (i64 \<times> i64) list) std_map \<times> 'w) result" where
  "collect_cspmu K [] clocks w = Inr ([], clocks, w)"
| "collect_cspmu K (t # ts) clocks w = bind_res (thread_collect K t w) (\<lambda>(t', w1).
     case k_clock K w1 of (now, w2) \<Rightarrow>
       let old = (case map_of clocks (device_name t) of None \<Rightarrow> [] | Some l \<Rightarrow> l) in
       bind_res (collect_cspmu K ts (map_set (device_name t) (old @ [now]) clocks) w2) (\<lambda>(ts', clocks', w3).
         Inr (t' # ts', clocks', w3)))"

definition Perf_collect :: "'w perf_ops \<Rightarrow> i64 \<Rightarrow> ('j, perf_state, 'w) vmethod" where
  "Perf_collect K now c w =
     (if \<not> mCollecting c then Inr (False, c, w)
      else let s = collector.more c in
        bind_res (each_thread (thread_collect K) (mReplayThreads s) w) (\<lambda>(rs, w).
        bind_res (each_thread (thread_collect K) (mBgThreads s) w) (\<lambda>(bs, w).
        bind_res (each_thread (thread_collect K) (mBookerThread s) w) (\<lambda>(ks, w).
        bind_res (collect_cspmu K (mCSPMUThreads s) (mClocks s) w) (\<lambda>(cs, clocks, w).
          Inr (True, set_private (\<lambda>_. s\<lparr>mReplayThreads := rs, mBgThreads := bs, mBookerThread := ks,
            mCSPMUThreads := cs, mClocks := clocks\<rparr>) c, w))))))"

text \<open>The per-API functions: the flags that select the replay threads, then the threads with the number given.\<close>

definition replay_selected :: "i32 \<Rightarrow> bool" where
  "replay_selected flags \<longleftrightarrow> flags AND COLLECT_REPLAY_THREADS \<noteq> 0 \<or> flags AND COLLECT_ALL_THREADS \<noteq> 0"

definition scope_start_thread ::
  "platform \<Rightarrow> 'w perf_ops \<Rightarrow> byte \<Rightarrow> u16 \<Rightarrow> i32 \<Rightarrow> perf_thread \<Rightarrow> 'w \<Rightarrow> (perf_thread \<times> 'w) result" where
  "scope_start_thread plat K bits func_id tid t w =
     (if pt_tid t = tid
      then bind_res (ctx_collect_scope plat K func_id False bits (eventCtx t) w)
        (\<lambda>(_, ctx, w'). Inr (t\<lparr>eventCtx := ctx\<rparr>, w'))
      else Inr (t, w))"

definition Perf_collect_scope_start :: "platform \<Rightarrow> 'w perf_ops \<Rightarrow> u16 \<Rightarrow> i32 \<Rightarrow> i32 \<Rightarrow> ('j, perf_state, 'w) vmethod" where
  "Perf_collect_scope_start plat K func_id flags tid c w =
     (let s = (collector.more c)\<lparr>attempt_collect_scope_x64 := arch_of plat = X86_64 \<or> attempt_collect_scope_x64 (collector.more c)\<rparr>;
          c = set_private (\<lambda>_. s) c in
      if \<not> mCollecting c then Inr (False, c, w)
      else bind_res (if replay_selected flags
                     then each_thread (scope_start_thread plat K (pmu_counter_bits s) func_id tid) (mReplayThreads s) w
                     else Inr (mReplayThreads s, w)) (\<lambda>(rs, w').
        Inr (True, set_private (\<lambda>_. s\<lparr>mReplayThreads := rs, last_collect_scope_flags := flags\<rparr>) c, w')))"

definition scope_stop_thread ::
  "platform \<Rightarrow> 'w perf_ops \<Rightarrow> byte \<Rightarrow> u16 \<Rightarrow> i32 \<Rightarrow> perf_thread \<Rightarrow> 'w \<Rightarrow> (perf_thread \<times> 'w) result" where
  "scope_stop_thread plat K bits func_id tid t w =
     (if pt_tid t = tid
      then let snap_start = last_snap (eventCtx t) in
        bind_res (ctx_collect_scope plat K func_id True bits (eventCtx t) w) (\<lambda>(snap_stop, ctx, w').
        bind_res (update_data_scope func_id snap_start snap_stop ctx) (\<lambda>ctx. Inr (t\<lparr>eventCtx := ctx\<rparr>, w')))
      else Inr (t, w))"

definition Perf_collect_scope_stop :: "platform \<Rightarrow> 'w perf_ops \<Rightarrow> u16 \<Rightarrow> i32 \<Rightarrow> i32 \<Rightarrow> ('j, perf_state, 'w) vmethod" where
  "Perf_collect_scope_stop plat K func_id flags tid c w =
     (let s = collector.more c in
      if \<not> mCollecting c then Inr (False, c, w)
      else if last_collect_scope_flags s \<noteq> flags then Inr (False, c, w)
      else bind_res (if replay_selected flags
                     then each_thread (scope_stop_thread plat K (pmu_counter_bits s) func_id tid) (mReplayThreads s) w
                     else Inr (mReplayThreads s, w)) (\<lambda>(rs, w').
        Inr (True, set_private (\<lambda>_. s\<lparr>mReplayThreads := rs\<rparr>) c, w')))"

definition append_data :: "'j json_ops \<Rightarrow> 'j \<Rightarrow> 'j \<Rightarrow> 'j" where
  "append_data J x v = j_set J v ''thread_data'' (j_append J (j_at J v ''thread_data'') x)"

definition named_value :: "'j json_ops \<Rightarrow> string \<Rightarrow> 'j" where
  "named_value J nm = j_set J (j_null J) ''CCthread'' (j_of_string J nm)"

definition device_value :: "'j json_ops \<Rightarrow> bool \<Rightarrow> perf_thread \<Rightarrow> 'j" where
  "device_value J always t =
     (let v = named_value J (pt_name t) in
      if always \<or> device_name t \<noteq> ''single'' then j_set J v ''device'' (j_of_string J (device_name t)) else v)"

text \<open>One thread: its own value is appended to the result, and its samples are added to one that sums up several.\<close>

definition post_replay :: "'j json_ops \<Rightarrow> 'j \<times> 'j \<Rightarrow> perf_thread \<Rightarrow> ('j \<times> 'j) result" where
  "post_replay J acc t = (case acc of (res, replay) \<Rightarrow>
     bind_res (thread_postprocess J t (device_value J False t)) (\<lambda>v.
     bind_res (thread_postprocess J t replay) (\<lambda>replay. Inr (append_data J v res, replay))))"

definition clock_value :: "'j json_ops \<Rightarrow> string \<Rightarrow> (i64 \<times> i64) list \<Rightarrow> 'j" where
  "clock_value J dev clocks = foldl (\<lambda>v (sec, nsec).
     let v = j_set J v (dev @ ''_sec'') (j_append J (j_at J v (dev @ ''_sec'')) (j_of_int J sec)) in
     j_set J v (dev @ ''_nsec'') (j_append J (j_at J v (dev @ ''_nsec'')) (j_of_int J nsec))) (j_null J) clocks"

definition post_cspmu ::
  "'j json_ops \<Rightarrow> (string, (i64 \<times> i64) list) std_map \<Rightarrow> 'j \<times> 'j \<Rightarrow> perf_thread \<Rightarrow> ('j \<times> 'j) result" where
  "post_cspmu J clocks acc t = (case acc of (res, replay) \<Rightarrow>
     bind_res (thread_postprocess J t (device_value J True t)) (\<lambda>v.
     bind_res (thread_postprocess J t replay) (\<lambda>replay.
       let ticks = (case map_of clocks (device_name t) of None \<Rightarrow> [] | Some l \<Rightarrow> l) in
       Inr (append_data J (clock_value J (device_name t) ticks) (append_data J v res), replay))))"

definition post_booker :: "'j json_ops \<Rightarrow> 'j \<times> 'j \<Rightarrow> perf_thread \<Rightarrow> ('j \<times> 'j) result" where
  "post_booker J acc t = (case acc of (res, replay) \<Rightarrow>
     bind_res (thread_postprocess J t (named_value J (pt_name t))) (\<lambda>v.
     bind_res (thread_postprocess J t replay) (\<lambda>replay. Inr (append_data J v res, replay))))"

definition post_background :: "'j json_ops \<Rightarrow> 'j \<times> 'j \<times> 'j \<Rightarrow> perf_thread \<Rightarrow> ('j \<times> 'j \<times> 'j) result" where
  "post_background J acc t = (case acc of (res, bg, tot) \<Rightarrow>
     bind_res (thread_postprocess J t (device_value J False t)) (\<lambda>v.
     bind_res (thread_postprocess J t bg) (\<lambda>bg.
     bind_res (thread_postprocess J t tot) (\<lambda>tot. Inr (append_data J v res, bg, tot)))))"

definition Perf_postprocess ::
  "'j json_ops \<Rightarrow> i64 list \<Rightarrow> ('j, perf_state) collector_scheme \<Rightarrow> (bool \<times> ('j, perf_state) collector_scheme) result" where
  "Perf_postprocess J timing c =
     (let s = collector.more c;
          res = (if mIsSummarized c then j_set J (mCustomResult c) ''summarized'' (j_of_bool J True) else mCustomResult c);
          res = j_set J res ''thread_data'' (j_array J) in
      bind_res (fold_res (post_replay J) (res, named_value J ''replayMainThreads'') (mReplayThreads s)) (\<lambda>acc.
      bind_res (fold_res (post_cspmu J (mClocks s)) acc (mCSPMUThreads s)) (\<lambda>acc.
      bind_res (fold_res (post_booker J) acc (mBookerThread s)) (\<lambda>(res, replay).
        let res = append_data J replay res in
        bind_res (if mAllThread s
                  then bind_res (fold_res (post_background J)
                      (res, named_value J ''backgroundThreads'', j_set J replay ''CCthread'' (j_of_string J ''allThreads''))
                      (mBgThreads s)) (\<lambda>(res, bg, tot). Inr (append_data J tot (append_data J bg res)))
                  else Inr res) (\<lambda>res. Inr (True, c\<lparr>mCustomResult := res\<rparr>))))))"

fun map_threads :: "(perf_thread \<Rightarrow> perf_thread result) \<Rightarrow> perf_thread list \<Rightarrow> perf_thread list result" where
  "map_threads f [] = Inr []"
| "map_threads f (t # ts) = bind_res (f t) (\<lambda>t'. bind_res (map_threads f ts) (\<lambda>ts'. Inr (t' # ts')))"

definition Perf_summarize :: "('j, perf_state) collector_scheme \<Rightarrow> ('j, perf_state) collector_scheme result" where
  "Perf_summarize c =
     (let s = collector.more c in
      bind_res (map_threads thread_summarize (mReplayThreads s)) (\<lambda>rs.
      bind_res (map_threads thread_summarize (mBgThreads s)) (\<lambda>bs.
      bind_res (map_threads thread_summarize (mBookerThread s)) (\<lambda>ks.
      bind_res (map_threads thread_summarize (mCSPMUThreads s)) (\<lambda>cs.
        Inr ((set_private (\<lambda>_. s\<lparr>mReplayThreads := rs, mBgThreads := bs, mBookerThread := ks, mCSPMUThreads := cs\<rparr>) c)
          \<lparr>mIsSummarized := True\<rparr>))))))"

definition perf_vtable :: "platform \<Rightarrow> 'j json_ops \<Rightarrow> 'w perf_ops \<Rightarrow> ('j, perf_state, 'w) vtable" where
  "perf_vtable plat J K =
     \<lparr>v_init = Perf_init K, v_deinit = Perf_deinit K, v_available = pure_method (\<lambda>c. (True, c)),
      v_start = Perf_start plat K, v_stop = Perf_stop K, v_collect = Perf_collect K,
      v_collect_scope_start = Perf_collect_scope_start plat K, v_collect_scope_stop = Perf_collect_scope_stop plat K,
      v_postprocess = (\<lambda>timing. result_method (Perf_postprocess J timing)),
      v_summarize = void_method Perf_summarize, v_clear = void_method (\<lambda>c. Inr (Perf_clear c))\<rparr>"

section \<open>The contract\<close>

lemma perf_init_same: "Perf_init K c w = Inr (b, c', w') \<Longrightarrow> same_results c c'"
  by (auto simp: Perf_init_def Let_def case_prod_beta split: if_splits)

lemma perf_start_same: "Perf_start plat K c w = Inr (b, c', w') \<Longrightarrow> same_results c c'"
  by (auto simp: Perf_start_def Let_def case_prod_beta split: if_splits)

lemma perf_stop_same: "Perf_stop K c w = Inr (b, c', w') \<Longrightarrow> same_results c c'"
  by (auto simp: Perf_stop_def Let_def case_prod_beta split: if_splits)

lemma perf_collect_same: "Perf_collect K now c w = Inr (b, c', w') \<Longrightarrow> same_results c c'"
  by (auto simp: Perf_collect_def Let_def case_prod_beta split: if_splits)

lemma perf_scope_start_same: "Perf_collect_scope_start plat K f g t c w = Inr (b, c', w') \<Longrightarrow> same_results c c'"
  by (auto simp: Perf_collect_scope_start_def Let_def case_prod_beta split: if_splits)

lemma perf_scope_stop_same: "Perf_collect_scope_stop plat K f g t c w = Inr (b, c', w') \<Longrightarrow> same_results c c'"
  by (auto simp: Perf_collect_scope_stop_def Let_def case_prod_beta split: if_splits)

lemma perf_postprocess_same: "Perf_postprocess J ts c = Inr (b, c') \<Longrightarrow> same_results c c'"
  by (auto simp: Perf_postprocess_def Let_def case_prod_beta split: if_splits)

lemma perf_summarize_same: "Perf_summarize c = Inr c' \<Longrightarrow> same_results c c'"
  by (auto simp: Perf_summarize_def Let_def case_prod_beta split: if_splits)

lemmas perf_same = perf_init_same perf_start_same perf_stop_same perf_collect_same perf_scope_start_same
  perf_scope_stop_same perf_postprocess_same perf_summarize_same

lemma perf_clear_frame:
  "managed (Perf_clear c) = managed c" "results_wf (mResults c) \<Longrightarrow> results_wf (mResults (Perf_clear c))"
  using Collector_clear_wf [of c] by (simp_all add: Perf_clear_def Collector_clear_def managed_def)

lemma perf_deinit_contract: "keeps_contract (Perf_deinit K)"
proof -
  have "Perf_deinit K c w = Inr (b, c', w') \<Longrightarrow> \<exists>s. c' = Perf_clear (set_private (\<lambda>_. s) c)" for c w b c' w'
    by (auto simp: Perf_deinit_def Let_def)
  moreover have "managed (set_private f c) = managed c" "mResults (set_private f c) = mResults c" for f and c :: "('a, perf_state) collector_scheme"
    by (simp_all add: set_private_def managed_def)
  ultimately show ?thesis unfolding keeps_contract_def by (metis perf_clear_frame)
qed

interpretation perf: collector_class "perf_vtable plat J K"
proof (unfold collector_class_iff, intro ballI)
  fix f assume "f \<in> methods (perf_vtable plat J K)"
  then consider "f = Perf_init K" | "f = Perf_deinit K" | "f = pure_method (\<lambda>c. (True, c))" | "f = Perf_start plat K"
    | "f = Perf_stop K" | now where "f = Perf_collect K now" | a g t where "f = Perf_collect_scope_start plat K a g t"
    | a g t where "f = Perf_collect_scope_stop plat K a g t" | ts where "f = result_method (Perf_postprocess J ts)"
    | "f = void_method Perf_summarize" | "f = void_method (\<lambda>c. Inr (Perf_clear c))"
    unfolding methods_def perf_vtable_def by auto
  then show "keeps_contract f"
  proof cases
    case 11
    then show ?thesis using contract_void [of "\<lambda>c. Inr (Perf_clear c)"] perf_clear_frame by auto
  qed (auto intro!: keeps_same perf_deinit_contract dest: perf_same simp: pure_method_def result_method_def void_method_def)
qed

end
