(* ===== verification/Perf_Runs.thy ===== *)
theory Perf_Runs
  imports Perf
begin

text \<open>
  What the performance counter collector does: the configuration word of an interconnect event, what
  a run records and how a second run adds to it, the accounting of scopes in the per-API mode,
  and the sums over threads in the result.
\<close>

section \<open>Configuration words\<close>

text \<open>
  The configuration of an interconnect event has its four fields at their documented places:
  the node number in bits 32 to 47, the flag that it counts in bit 31, the event in bits 16 to 23
  and the node type in bits 0 to 15; each is cut to its width and no field disturbs another.
\<close>

theorem booker_config_fields:
  "drop_bit 32 (makeup_booker_ci_config nodetype eventid bynodeid nodeid) = take_bit 16 nodeid
     \<and> bit (makeup_booker_ci_config nodetype eventid bynodeid nodeid) 31 = odd bynodeid
     \<and> take_bit 15 (drop_bit 16 (makeup_booker_ci_config nodetype eventid bynodeid nodeid)) = ucast (take_bit 8 eventid)
     \<and> take_bit 16 (makeup_booker_ci_config nodetype eventid bynodeid nodeid) = ucast (take_bit 16 nodetype)"
proof -
  have masks: "(0x0000FFFF00000000 :: u64) = push_bit 32 (mask 16)" "(0x80000000 :: u32) = push_bit 31 (mask 1)"
    "(0x00FF0000 :: u32) = push_bit 16 (mask 8)" "(0x0000FFFF :: u32) = mask 16"
    by (simp_all add: mask_numeral)
  show ?thesis
    unfolding makeup_booker_ci_config_def masks
    by (intro conjI; (rule bit_eqI)?) (auto simp: bit_simps bit_0)
qed

section \<open>What a run records\<close>

definition counted :: "counter list \<Rightarrow> string \<Rightarrow> nat" where
  "counted cs k = length (filter (\<lambda>c. c_name c = k) cs)"

lemma counted_indices: "length (filter (\<lambda>i. c_name (cs ! i) = k) [0..<length cs]) = counted cs k"
proof -
  have "filter (\<lambda>c. c_name c = k) (map (\<lambda>i. cs ! i) [0..<length cs])
    = map (\<lambda>i. cs ! i) (filter (\<lambda>i. c_name (cs ! i) = k) [0..<length cs])"
    by (simp add: filter_map comp_def)
  then show ?thesis by (simp add: counted_def map_nth)
qed

lemma map_modify_samples:
  assumes "map_modify nm empty_list push r = Inr r'" and "pushes_one push"
  shows "samples r' k = samples r k + (if k = nm then 1 else 0)"
  using assms
  by (auto simp: map_modify_eq_Inr samples_def map_of_map_set pushes_one_def split: option.splits)
    (auto simp: vl_size_def empty_list_def)

lemma update_data_samples:
  assumes "update_data cs snap r = Inr r'"
  shows "samples r' k = samples r k + counted cs k"
proof -
  have "samples r2 k = samples r1 k + length (filter (\<lambda>i. c_name (cs ! i) = k) is)"
    if "fold_res (\<lambda>r i. bind_res (value_at snap i) (\<lambda>v. map_modify (c_name (cs ! i)) empty_list (push_back_ulong v) r)) r1 is = Inr r2"
    for r1 r2 "is"
    using that
  proof (induction "is" arbitrary: r1)
    case (Cons i "is")
    then obtain v r where v: "map_modify (c_name (cs ! i)) empty_list (push_back_ulong v) r1 = Inr r"
      and r: "fold_res (\<lambda>r i. bind_res (value_at snap i) (\<lambda>v. map_modify (c_name (cs ! i)) empty_list (push_back_ulong v) r)) r is = Inr r2"
      by auto
    show ?case using Cons.IH [OF r] map_modify_samples [OF v, of k] by auto
  qed simp
  from this [OF assms [unfolded update_data_def]] show ?thesis by (simp add: counted_indices)
qed

text \<open>A thread after a number of samples: every counter has got as many.\<close>

definition sampled :: "nat \<Rightarrow> perf_thread \<Rightarrow> perf_thread \<Rightarrow> bool" where
  "sampled n t t' \<longleftrightarrow> eventCtx t' = eventCtx t \<and> device_name t' = device_name t
     \<and> (\<forall>k. samples (mResultsPerThread t') k = samples (mResultsPerThread t) k + n * counted (mCounters (eventCtx t)) k)"

lemma sampled_0 [simp]: "sampled 0 t t"
  by (simp add: sampled_def)

lemma sampled_add: "sampled m t u \<Longrightarrow> sampled n u v \<Longrightarrow> sampled (m + n) t v"
  by (simp add: sampled_def distrib_right)

lemma thread_collect_sampled: "thread_collect K t w = Inr (t', w') \<Longrightarrow> sampled 1 t t'"
  by (auto simp: thread_collect_def sampled_def update_data_samples split: prod.splits)

lemma each_thread_all2:
  assumes "each_thread f ts w = Inr (ts', w')" and "\<And>t w t' w'. f t w = Inr (t', w') \<Longrightarrow> P t t'"
  shows "list_all2 P ts ts'"
  using assms(1)
proof (induction ts arbitrary: w ts' w')
  case (Cons t ts)
  then show ?case using assms(2) by fastforce
qed simp

lemma each_collect_sampled: "each_thread (thread_collect K) ts w = Inr (ts', w') \<Longrightarrow> list_all2 (sampled 1) ts ts'"
  by (erule each_thread_all2) (rule thread_collect_sampled)

lemma collect_cspmu_all2:
  "collect_cspmu K ts clocks w = Inr (ts', clocks', w') \<Longrightarrow> list_all2 (sampled 1) ts ts'"
proof (induction ts arbitrary: clocks w ts' clocks' w')
  case (Cons t ts)
  then obtain t' w1 now w2 ts'' clocks1 w3 where t: "thread_collect K t w = Inr (t', w1)"
    and r: "collect_cspmu K ts clocks1 w2 = Inr (ts'', clocks', w3)" and ts': "ts' = t' # ts''"
    by (auto simp: Let_def case_prod_beta)
  show ?case using thread_collect_sampled [OF t] Cons.IH [OF r] by (simp add: ts')
qed simp

definition all_threads :: "perf_state \<Rightarrow> perf_thread list" where
  "all_threads s = mReplayThreads s @ mBgThreads s @ mBookerThread s @ mCSPMUThreads s"

lemma perf_collect_sampled:
  assumes "Perf_collect K now c w = Inr (True, c', w')"
  shows "list_all2 (sampled 1) (all_threads (collector.more c)) (all_threads (collector.more c'))"
proof -
  let ?s = "collector.more c"
  obtain rs w1 bs w2 ks w3 cs clocks where t: "each_thread (thread_collect K) (mReplayThreads ?s) w = Inr (rs, w1)"
    "each_thread (thread_collect K) (mBgThreads ?s) w1 = Inr (bs, w2)"
    "each_thread (thread_collect K) (mBookerThread ?s) w2 = Inr (ks, w3)"
    "collect_cspmu K (mCSPMUThreads ?s) (mClocks ?s) w3 = Inr (cs, clocks, w')"
    and c': "c' = set_private (\<lambda>_. ?s\<lparr>mReplayThreads := rs, mBgThreads := bs, mBookerThread := ks,
      mCSPMUThreads := cs, mClocks := clocks\<rparr>) c"
    using assms by (auto simp: Perf_collect_def Let_def split: if_splits)
  show ?thesis
    unfolding c' set_private_def all_threads_def
    using t(1-3) [THEN each_collect_sampled] collect_cspmu_all2 [OF t(4)]
    by (simp add: list_all2_appendI)
qed

lemma list_all2_sampled_add:
  "list_all2 (sampled m) ts us \<Longrightarrow> list_all2 (sampled n) us vs \<Longrightarrow> list_all2 (sampled (m + n)) ts vs"
  by (rule list_all2_trans) (rule sampled_add)

lemma perf_run_sampled:
  "collect_run (perf_vtable plat J K) ts c w = Some (c', w') \<Longrightarrow>
     list_all2 (sampled (length ts)) (all_threads (collector.more c)) (all_threads (collector.more c'))"
proof (induction ts arbitrary: c w)
  case Nil
  then show ?case by (simp add: list_all2_same)
next
  case (Cons now ts)
  then obtain c1 w1 where 1: "Perf_collect K now c w = Inr (True, c1, w1)"
    and r: "collect_run (perf_vtable plat J K) ts c1 w1 = Some (c', w')"
    by (auto simp: perf_vtable_def split: sum.splits prod.splits bool.splits)
  from list_all2_sampled_add [OF perf_collect_sampled [OF 1] Cons.IH [OF r]] show ?case by simp
qed

text \<open>
  C12: what a run of the performance counter collector records. The manager clears and starts the
  collector and then samples any number of times: every thread has then got that many samples of
  each of its counters (as often as the name occurs in the group), on top of those it had before.
  In particular the samples of an earlier run are still there: clearing the collector does not
  reach the results of the threads.
\<close>

theorem perf_run_adds:
  assumes "\<not> mCollecting c" and "Perf_start plat K (Perf_clear c) w = Inr (True, c1, w1)"
    and "collect_run (perf_vtable plat J K) ts c1 w1 = Some (c2, w2)"
  shows "list_all2 (\<lambda>t t'. eventCtx t' = eventCtx t \<and> (\<forall>k. samples (mResultsPerThread t') k
      = samples (mResultsPerThread t) k + length ts * counted (mCounters (eventCtx t)) k))
    (all_threads (collector.more c)) (all_threads (collector.more c2))"
proof -
  have "collector.more (Perf_clear c) = collector.more c" by (simp add: Perf_clear_def Collector_clear_def)
  then have "all_threads (collector.more c1) = all_threads (collector.more c)"
    using assms(2) by (auto simp: Perf_start_def Let_def set_private_def all_threads_def split: if_splits)
  with perf_run_sampled [OF assms(3)] show ?thesis by (auto elim: list_all2_mono simp: sampled_def)
qed

section \<open>Scopes\<close>

definition total_at :: "('a :: zero) list \<Rightarrow> nat \<Rightarrow> 'a" where
  "total_at xs i = (if i < length xs then xs ! i else 0)"

lemma total_at_grow: "unat f < 65534 \<Longrightarrow> total_at (grow f 0 xs) i = total_at xs i"
  by (auto simp: total_at_def grow_def resize_def nth_append min_def)

lemma grow_long: "unat f < 65534 \<Longrightarrow> unat f < length (grow f 0 xs)"
  by (auto simp: grow_def)

lemma bump_returns:
  fixes d :: "'a :: comm_monoid_add"
  assumes "unat f < 65534"
  shows "\<exists>ys. bump f d xs = Inr ys \<and> (\<forall>i. total_at ys i = total_at xs i + (if i = unat f then d else 0))"
proof -
  let ?g = "grow f 0 xs"
  have "total_at (?g[unat f := ?g ! unat f + d]) i = total_at ?g i + (if i = unat f then d else 0)" for i
    using grow_long [OF assms, of xs] by (simp add: total_at_def nth_list_update)
  then show ?thesis using grow_long [OF assms, of xs] assms by (simp add: bump_def Let_def total_at_grow)
qed

lemma bump_out: "65534 \<le> unat f \<Longrightarrow> length xs \<le> 65534 \<Longrightarrow> bump f d xs = Inl OutOfBounds"
  by (auto simp: bump_def grow_def Let_def min_def)

lemma value_at_8 [simp]: "length (snap_values s) = 8 \<Longrightarrow> i < 8 \<Longrightarrow> value_at s i = Inr (snap_values s ! i)"
  by (simp add: value_at_def)

lemma snap_of_length [simp]: "length (snap_values (snap_of ws)) = 8"
  by (auto simp: snap_of_def snapshot_new_def split: option.splits list.splits)

lemma scope_snapshot_length: "scope_snapshot plat K bits ctx w = (s, w') \<Longrightarrow> length (snap_values s) = 8"
  by (auto simp: scope_snapshot_def split: if_splits prod.splits)

lemma scope_snapshot_cong: "ec_group ctx' = ec_group ctx \<Longrightarrow> scope_snapshot plat K bits ctx' w = scope_snapshot plat K bits ctx w"
  by (simp add: scope_snapshot_def)

definition diff_at :: "snapshot \<Rightarrow> snapshot \<Rightarrow> nat \<Rightarrow> u64" where
  "diff_at b e i = snap_values e ! i - snap_values b ! i"

lemma scope_counters:
  assumes "unat f < 65534" and "length (snap_values b) = 8" and "length (snap_values e) = 8" and "length cs \<le> 8"
    and "n \<le> length cs"
  shows "\<exists>cs'. fold_res (scope_counter f b e) (cs, 0) [0..<n] = Inr (cs', \<Sum>i \<leftarrow> [0..<n]. diff_at b e i)
    \<and> length cs' = length cs \<and> (\<forall>i < length cs. \<forall>j. total_at (scope_values (cs' ! i)) j
      = total_at (scope_values (cs ! i)) j + (if i < n \<and> j = unat f then diff_at b e i else 0))"
  using assms(5)
proof (induction n)
  case (Suc n)
  then obtain cs' where cs': "fold_res (scope_counter f b e) (cs, 0) [0..<n] = Inr (cs', \<Sum>i \<leftarrow> [0..<n]. diff_at b e i)"
    "length cs' = length cs" "\<forall>i < length cs. \<forall>j. total_at (scope_values (cs' ! i)) j
      = total_at (scope_values (cs ! i)) j + (if i < n \<and> j = unat f then diff_at b e i else 0)"
    by auto
  obtain vs where vs: "bump f (diff_at b e n) (scope_values (cs' ! n)) = Inr vs"
    "\<forall>j. total_at vs j = total_at (scope_values (cs' ! n)) j + (if j = unat f then diff_at b e n else 0)"
    using bump_returns [OF assms(1)] by blast
  have n: "n < 8" "n < length cs" using Suc.prems assms(4) by simp_all
  then have "fold_res (scope_counter f b e) (cs, 0) [0..<Suc n]
    = Inr (cs'[n := (cs' ! n)\<lparr>scope_values := vs\<rparr>], \<Sum>i \<leftarrow> [0..<Suc n]. diff_at b e i)"
    using cs'(1) vs(1) assms(2,3) by (simp add: fold_res_append scope_counter_def diff_at_def)
  moreover have "total_at (scope_values (cs'[n := (cs' ! n)\<lparr>scope_values := vs\<rparr>] ! i)) j
      = total_at (scope_values (cs ! i)) j + (if i < Suc n \<and> j = unat f then diff_at b e i else 0)"
    if "i < length cs" for i j
    using that cs'(2,3) vs(2) n by (cases "i = n") (auto simp: nth_list_update less_Suc_eq)
  ultimately show ?case using cs'(2)
    by (intro exI [of _ "cs'[n := (cs' ! n)\<lparr>scope_values := vs\<rparr>]"]) (simp del: upt_Suc)
qed simp

text \<open>What one scope adds: to the counter at an index, and to the numbers of calls.\<close>

definition scope_adds :: "u16 \<Rightarrow> snapshot \<Rightarrow> snapshot \<Rightarrow> event_context \<Rightarrow> event_context \<Rightarrow> bool" where
  "scope_adds f b e ctx ctx' \<longleftrightarrow> ec_group ctx' = ec_group ctx \<and> length (mCounters ctx') = length (mCounters ctx)
     \<and> (\<forall>i < length (mCounters ctx). \<forall>j. total_at (scope_values (mCounters ctx' ! i)) j
       = total_at (scope_values (mCounters ctx ! i)) j + (if unat f = j then diff_at b e i else 0))
     \<and> (\<forall>j. total_at (scope_num_calls ctx') j = total_at (scope_num_calls ctx) j
       + (if unat f = j \<and> (\<Sum>i \<leftarrow> [0..<length (mCounters ctx)]. diff_at b e i) \<noteq> 0 then 1 else 0))"

lemma update_scope_adds:
  assumes "unat f < 65534" and "length (snap_values b) = 8" and "length (snap_values e) = 8"
    and "length (mCounters ctx) \<le> 8"
  shows "\<exists>ctx'. update_data_scope f b e ctx = Inr ctx' \<and> scope_adds f b e ctx ctx'"
proof -
  let ?d = "\<Sum>i \<leftarrow> [0..<length (mCounters ctx)]. diff_at b e i"
  obtain cs where cs: "fold_res (scope_counter f b e) (mCounters ctx, 0) [0..<length (mCounters ctx)] = Inr (cs, ?d)"
    "length cs = length (mCounters ctx)" "\<forall>i < length (mCounters ctx). \<forall>j. total_at (scope_values (cs ! i)) j
      = total_at (scope_values (mCounters ctx ! i)) j + (if i < length (mCounters ctx) \<and> j = unat f then diff_at b e i else 0)"
    using scope_counters [OF assms le_refl] by blast
  obtain n m where "bump f 1 (scope_num_calls ctx) = Inr n" "bump f 1 (scope_num_with_perf ctx) = Inr m"
    "\<forall>i. total_at n i = total_at (scope_num_calls ctx) i + (if i = unat f then 1 else 0)"
    using bump_returns [OF assms(1)] by metis
  with cs show ?thesis
    by (cases "?d = 0") (auto simp: update_data_scope_def scope_adds_def Let_def word_neq_0_conv)
qed

text \<open>
  A sequence of scopes on one thread: the number of the function and what the program does to the
  world inside the scope. The log has the snapshots at both ends of each scope.
\<close>

fun scope_run ::
  "platform \<Rightarrow> 'w perf_ops \<Rightarrow> byte \<Rightarrow> i32 \<Rightarrow> (u16 \<times> ('w \<Rightarrow> 'w)) list \<Rightarrow> perf_thread \<Rightarrow> 'w \<Rightarrow> (perf_thread \<times> 'w) result" where
  "scope_run plat K bits tid [] t w = Inr (t, w)"
| "scope_run plat K bits tid ((f, body) # ss) t w =
     bind_res (scope_start_thread plat K bits f tid t w) (\<lambda>(t1, w1).
     bind_res (scope_stop_thread plat K bits f tid t1 (body w1)) (\<lambda>(t2, w2). scope_run plat K bits tid ss t2 w2))"

fun scope_log ::
  "platform \<Rightarrow> 'w perf_ops \<Rightarrow> byte \<Rightarrow> event_context \<Rightarrow> (u16 \<times> ('w \<Rightarrow> 'w)) list \<Rightarrow> 'w \<Rightarrow> (u16 \<times> snapshot \<times> snapshot) list \<times> 'w" where
  "scope_log plat K bits ctx [] w = ([], w)"
| "scope_log plat K bits ctx ((f, body) # ss) w =
     (let (b, w1) = scope_snapshot plat K bits ctx w; (e, w2) = scope_snapshot plat K bits ctx (body w1);
          (l, w3) = scope_log plat K bits ctx ss w2 in ((f, b, e) # l, w3))"

lemma scope_log_cong: "ec_group ctx' = ec_group ctx \<Longrightarrow> scope_log plat K bits ctx' ss w = scope_log plat K bits ctx ss w"
  by (induction ss arbitrary: w) (auto simp: scope_snapshot_cong [of ctx' ctx] Let_def split: prod.splits)

lemma scope_once:
  assumes "pt_tid t = tid" and "length (mCounters (eventCtx t)) \<le> 8" and "unat f < 65534"
    and "scope_snapshot plat K bits (eventCtx t) w = (b, w1)" and "scope_snapshot plat K bits (eventCtx t) (body w1) = (e, w2)"
  shows "\<exists>t'. scope_run plat K bits tid ((f, body) # ss) t w = scope_run plat K bits tid ss t' w2
    \<and> pt_tid t' = tid \<and> scope_adds f b e (eventCtx t) (eventCtx t')"
proof -
  let ?ctx = "(eventCtx t)\<lparr>last_snap_func_id := f, last_snap := b\<rparr>"
  have 1: "scope_start_thread plat K bits f tid t w = Inr (t\<lparr>eventCtx := ?ctx\<rparr>, w1)"
    using assms(1,4) by (simp add: scope_start_thread_def ctx_collect_scope_def)
  have e: "scope_snapshot plat K bits ?ctx (body w1) = (e, w2)" using assms(5) by (simp add: scope_snapshot_cong [of ?ctx "eventCtx t"])
  obtain ctx' where u: "update_data_scope f b e (?ctx\<lparr>last_snap_func_id := - 1\<rparr>) = Inr ctx'"
    "scope_adds f b e (?ctx\<lparr>last_snap_func_id := - 1\<rparr>) ctx'"
    using update_scope_adds [OF assms(3), of b e "?ctx\<lparr>last_snap_func_id := - 1\<rparr>"] scope_snapshot_length [OF assms(4)]
      scope_snapshot_length [OF assms(5)] assms(2) by auto
  have 2: "scope_stop_thread plat K bits f tid (t\<lparr>eventCtx := ?ctx\<rparr>) (body w1) = Inr (t\<lparr>eventCtx := ctx'\<rparr>, w2)"
    using assms(1) e u(1) by (simp add: scope_stop_thread_def ctx_collect_scope_def)
  show ?thesis
    by (intro exI [of _ "t\<lparr>eventCtx := ctx'\<rparr>"]) (use 1 2 u(2) assms(1) in \<open>simp add: scope_adds_def\<close>)
qed


text \<open>
  The two highest function numbers. The vectors of a thread are never made longer than 65534
  entries, so the end of a scope of function 65534 or 65535 writes outside of the vector of the
  first counter.
\<close>

theorem scope_out_of_range:
  assumes "pt_tid t = tid" and "mCounters (eventCtx t) = c # cs" and "length (scope_values c) \<le> 65534" and "65534 \<le> unat f"
  shows "scope_run plat K bits tid [(f, body)] t w = Inl OutOfBounds"
proof -
  obtain b w1 where b: "scope_snapshot plat K bits (eventCtx t) w = (b, w1)" by fastforce
  let ?ctx = "(eventCtx t)\<lparr>last_snap_func_id := f, last_snap := b\<rparr>"
  obtain e w2 where e: "scope_snapshot plat K bits ?ctx (body w1) = (e, w2)" by fastforce
  have l: "length (snap_values b) = 8" "length (snap_values e) = 8" using scope_snapshot_length [OF b] scope_snapshot_length [OF e] by simp_all
  have "scope_counter f b e (c # cs, 0) 0 = Inl OutOfBounds"
    using l by (simp add: scope_counter_def bump_out [OF assms(4,3)])
  then have "update_data_scope f b e (?ctx\<lparr>last_snap_func_id := - 1\<rparr>) = Inl OutOfBounds"
    using assms(2) by (simp add: update_data_scope_def upt_conv_Cons del: upt_Suc)
  then show ?thesis
    using assms(1) b e by (simp add: scope_start_thread_def scope_stop_thread_def ctx_collect_scope_def)
qed

section \<open>The per-API mode on other machines\<close>

lemma each_thread_perapi:
  assumes "each_thread (\<lambda>t. let t = (if p then t\<lparr>eventCtx := (eventCtx t)\<lparr>ec_perapi := True\<rparr>\<rparr> else t) in
      thread_init K (E t) (T t) cpu t) ts w = Inr (ts', w')" and p
  shows "length ts' = length ts \<and> (\<forall>t \<in> set ts'. ec_perapi (eventCtx t))"
proof -
  have m: "ec_perapi (fst (add_members K tid cpu es ctx w)) = ec_perapi ctx" for tid es ctx w
    by (induction es arbitrary: ctx w) (simp_all add: case_prod_beta)
  have "ctx_init K es tid cpu ctx w = Inr (ok, ctx', w1) \<Longrightarrow> ec_perapi ctx' = ec_perapi ctx" for es tid ctx w ok ctx' w1
    using m by (auto simp: ctx_init_def case_prod_beta split: list.splits)
  with assms(2) have "list_all2 (\<lambda>t t'. ec_perapi (eventCtx t')) ts ts'"
    by (intro each_thread_all2 [OF assms(1)]) (fastforce simp: thread_init_def Let_def)
  then show ?thesis by (auto simp: list_all2_conv_all_nth in_set_conv_nth)
qed

text \<open>
  The per-API mode on a machine that is not an ARM. The register that \<open>start\<close> checks is read on
  ARM only, and the variable is zero elsewhere: as soon as there is a thread to sample, starting
  the collector after \<open>init\<close> ends the program.
\<close>

theorem perapi_other_exits:
  assumes "\<not> android plat" and "arch_of plat = X86_64" and "perapi (collector.more c)" and "\<not> mCollecting c"
    and "Perf_init K c w = Inr (True, c1, w1)" and "mReplayThreads (collector.more c1) \<noteq> []"
    and "\<forall>h r w. fst (k_ioctl K h r w) \<noteq> - 1"
  shows "Perf_start plat K c1 w1 = Inl (Exited 1)"
proof -
  obtain s rs w2 where s: "create_perf_thread K w (collector.more c) = Inr s"
    and r: "each_thread (\<lambda>t. let t = (if perapi s then t\<lparr>eventCtx := (eventCtx t)\<lparr>ec_perapi := True\<rparr>\<rparr> else t) in
         thread_init K (events_of (mEvents s) (device_name t)) (pt_tid t) (- 1) t) (mReplayThreads s) w = Inr (rs, w2)"
    and c1: "mReplayThreads (collector.more c1) = rs" "mCollecting c1 = mCollecting c"
    using assms(5) by (auto simp: Perf_init_def set_private_def)
  have task: "create_for_task K w s e = Inr s' \<Longrightarrow> perapi s' = perapi s" for s e s'
    by (auto simp: create_for_task_def Let_def split: if_splits)
  have "fold_res (create_for_task K w) s es = Inr s' \<Longrightarrow> perapi s' = perapi s" for s es s'
    by (induction es arbitrary: s) (auto dest: task)
  then have "perapi s" using s assms(3) by (auto simp: create_perf_thread_def Let_def split: if_splits option.splits)
  then obtain t ts where t: "rs = t # ts" "ec_perapi (eventCtx t)"
    using each_thread_perapi [OF r] assms(6) c1(1) by (cases rs) auto
  have "ctx_start plat K (eventCtx t) w1 = Inl (Exited 1)"
    using assms(1,2,7) t(2) by (auto simp: ctx_start_def PMCR_bits_def case_prod_beta)
  then show ?thesis using c1 t(1) assms(4) by (simp add: Perf_start_def Let_def)
qed

section \<open>Sums over threads\<close>

definition cv_num :: "CollectorValue \<Rightarrow> u64" where
  "cv_num v = (case v of CV_u64 n \<Rightarrow> n | CV_i64 n \<Rightarrow> n | CV_fp64 _ \<Rightarrow> 0)"

definition integral :: "CollectorValue \<Rightarrow> bool" where
  "integral v = (case v of CV_fp64 _ \<Rightarrow> False | _ \<Rightarrow> True)"

lemma cv_u64_integral: "integral v \<Longrightarrow> cv_u64 v = Inr (cv_num v)"
  by (cases v) (simp_all add: integral_def cv_num_def)

definition add_column :: "u64 list \<Rightarrow> u64 list \<Rightarrow> u64 list" where
  "add_column old new = map (\<lambda>(i, n). n + (if i < length old then old ! i else 0)) (enumerate 0 new)"

definition numbers :: "CollectorValueList \<Rightarrow> u64 list" where
  "numbers l = map cv_num (vl_data l)"

text \<open>The results of a thread that can be summed up: integers, and no counter with the name of the sums.\<close>

definition summable :: "perf_thread \<Rightarrow> bool" where
  "summable t \<longleftrightarrow> distinct (map fst (mResultsPerThread t)) \<and> ''SUM'' \<notin> fst ` set (mResultsPerThread t)
     \<and> (\<forall>(k, l) \<in> set (mResultsPerThread t). list_all integral (vl_data l))"

lemma add_column_sums:
  assumes "length new = n" and "old = map S [0..<n] \<or> old = [] \<and> S = (\<lambda>_. 0)"
  shows "add_column old new = map (\<lambda>i. S i + new ! i) [0..<n]"
  using assms by (intro nth_equalityI) (auto simp: add_column_def nth_enumerate_eq add.commute)

definition column :: "'j json_ops \<Rightarrow> 'j \<Rightarrow> string \<Rightarrow> u64 list" where
  "column J v k = (if j_isMember J v k then map (j_asUInt64 J) (j_elements J (j_at J v k)) else [])"

context json_api
begin

lemma sum_array_fold:
  assumes "list_all integral (map snd ivs)" and "listlike arr"
  shows "\<exists>arr'. fold_res (\<lambda>(arr, tot) (i, v). bind_res (cv_u64 v) (\<lambda>n.
         let x = (if i < length old then n + j_asUInt64 J (old ! i) else n) in
         Inr (j_append J arr (j_of_uint J x), tot + x))) (arr, tot) ivs
      = Inr (arr', tot + sum_list (map (\<lambda>(i, v). cv_num v + (if i < length old then j_asUInt64 J (old ! i) else 0)) ivs))
    \<and> listlike arr' \<and> j_elements J arr' = j_elements J arr
      @ map (\<lambda>(i, v). j_of_uint J (cv_num v + (if i < length old then j_asUInt64 J (old ! i) else 0))) ivs"
  using assms
proof (induction ivs arbitrary: arr tot)
  case (Cons iv ivs)
  obtain i v where iv: "iv = (i, v)" by (cases iv)
  let ?x = "cv_num v + (if i < length old then j_asUInt64 J (old ! i) else 0)"
  have "listlike (j_append J arr (j_of_uint J ?x))" using Cons.prems listlike_append by simp
  from Cons.IH [OF _ this, of "tot + ?x"] Cons.prems show ?case
    by (simp add: iv cv_u64_integral elements_append add.assoc Let_def split: if_splits)
qed simp

lemma sum_array_eq:
  assumes "list_all integral vs"
  shows "\<exists>arr. sum_array J old vs = Inr (arr, sum_list (add_column (map (j_asUInt64 J) old) (map cv_num vs)))
    \<and> map (j_asUInt64 J) (j_elements J arr) = add_column (map (j_asUInt64 J) old) (map cv_num vs)"
proof -
  have e: "enumerate 0 (map cv_num vs) = map (\<lambda>(i, v). (i, cv_num v)) (enumerate 0 vs)"
    by (simp add: enumerate_eq_zip zip_map2)
  have c: "add_column (map (j_asUInt64 J) old) (map cv_num vs)
    = map (\<lambda>(i, v). cv_num v + (if i < length old then j_asUInt64 J (old ! i) else 0)) (enumerate 0 vs)"
    unfolding add_column_def e by (auto simp: comp_def)
  have "list_all integral (map snd (enumerate 0 vs))" using assms by simp
  from sum_array_fold [OF this listlike_array, of old 0] show ?thesis
    unfolding sum_array_def c by (auto simp: elements_array asUInt64_of_uint comp_def case_prod_beta)
qed

text \<open>One counter of a thread, and all of them.\<close>

lemma sum_counter:
  assumes "dictlike v" and "dictlike (j_at J v ''SUM'')" and "list_all integral (vl_data l)" and "k \<noteq> ''SUM''"
  shows "\<exists>v'. sum_step J v (k, l) = Inr v' \<and> dictlike v' \<and> dictlike (j_at J v' ''SUM'')
    \<and> column J v' k = add_column (column J v k) (numbers l)
    \<and> j_at J (j_at J v' ''SUM'') k = j_of_uint J (sum_list (column J v' k))
    \<and> (\<forall>k'. k' \<noteq> k \<longrightarrow> k' \<noteq> ''SUM'' \<longrightarrow> column J v' k' = column J v k'
      \<and> j_at J (j_at J v' ''SUM'') k' = j_at J (j_at J v ''SUM'') k')"
proof -
  let ?old = "if j_isMember J v k then j_elements J (j_at J v k) else []"
  have old: "map (j_asUInt64 J) ?old = column J v k" by (simp add: column_def)
  obtain arr where arr: "sum_array J ?old (vl_data l) = Inr (arr, sum_list (add_column (column J v k) (numbers l)))"
    "map (j_asUInt64 J) (j_elements J arr) = add_column (column J v k) (numbers l)"
    using sum_array_eq [OF assms(3), of ?old] unfolding old numbers_def by blast
  let ?v1 = "j_set J v k arr"
  have v1: "dictlike ?v1" "j_at J ?v1 ''SUM'' = j_at J v ''SUM''"
    using dictlike_set at_set assms(1,4) by simp_all
  then show ?thesis
    using arr assms(2,4) dictlike_set by (simp add: sum_step_def Let_def at_set assms(1) isMember_set column_def)
qed

lemma sum_counters:
  assumes "dictlike v" and "dictlike (j_at J v ''SUM'')" and "distinct (map fst kls)" and "''SUM'' \<notin> fst ` set kls"
    and "\<forall>(k, l) \<in> set kls. list_all integral (vl_data l)"
  shows "\<exists>v'. fold_res (sum_step J) v kls = Inr v' \<and> dictlike v' \<and> dictlike (j_at J v' ''SUM'')
    \<and> (\<forall>k. k \<noteq> ''SUM'' \<longrightarrow> (case map_of kls k of
         None \<Rightarrow> column J v' k = column J v k \<and> j_at J (j_at J v' ''SUM'') k = j_at J (j_at J v ''SUM'') k
       | Some l \<Rightarrow> column J v' k = add_column (column J v k) (numbers l)
           \<and> j_at J (j_at J v' ''SUM'') k = j_of_uint J (sum_list (column J v' k))))"
  using assms
proof (induction kls arbitrary: v)
  case (Cons kl kls)
  obtain k l where kl: "kl = (k, l)" by (cases kl)
  have "list_all integral (vl_data l)" "k \<noteq> ''SUM''" using Cons.prems(4,5) by (auto simp: kl)
  from sum_counter [OF Cons.prems(1,2) this] obtain v1 where v1: "sum_step J v (k, l) = Inr v1" "dictlike v1"
    "dictlike (j_at J v1 ''SUM'')" "column J v1 k = add_column (column J v k) (numbers l)"
    "j_at J (j_at J v1 ''SUM'') k = j_of_uint J (sum_list (column J v1 k))"
    "\<And>k'. k' \<noteq> k \<Longrightarrow> k' \<noteq> ''SUM'' \<Longrightarrow> column J v1 k' = column J v k'
      \<and> j_at J (j_at J v1 ''SUM'') k' = j_at J (j_at J v ''SUM'') k'"
    by blast
  have "distinct (map fst kls)" "''SUM'' \<notin> fst ` set kls" "\<forall>(k, l) \<in> set kls. list_all integral (vl_data l)"
    using Cons.prems by auto
  from Cons.IH [OF v1(2,3) this] obtain v' where v': "fold_res (sum_step J) v1 kls = Inr v'" "dictlike v'"
    "dictlike (j_at J v' ''SUM'')" "\<And>k. k \<noteq> ''SUM'' \<Longrightarrow> (case map_of kls k of
         None \<Rightarrow> column J v' k = column J v1 k \<and> j_at J (j_at J v' ''SUM'') k = j_at J (j_at J v1 ''SUM'') k
       | Some l \<Rightarrow> column J v' k = add_column (column J v1 k) (numbers l)
           \<and> j_at J (j_at J v' ''SUM'') k = j_of_uint J (sum_list (column J v' k)))"
    by blast
  have new: "map_of kls k = None" using Cons.prems(3) by (auto simp: kl map_of_eq_None_iff)
  have "case map_of (kl # kls) k' of
         None \<Rightarrow> column J v' k' = column J v k' \<and> j_at J (j_at J v' ''SUM'') k' = j_at J (j_at J v ''SUM'') k'
       | Some l \<Rightarrow> column J v' k' = add_column (column J v k') (numbers l)
           \<and> j_at J (j_at J v' ''SUM'') k' = j_of_uint J (sum_list (column J v' k'))" if "k' \<noteq> ''SUM''" for k'
    using v'(4) [OF that] v1(4,5) v1(6) [OF _ that] new by (cases "k' = k") (auto simp: kl split: option.splits)
  with v1(1) v'(1-3) show ?case by (auto simp: kl)
qed simp

lemma thread_sums:
  assumes "dictlike v" and "dictlike (j_at J v ''SUM'')" and "summable t"
  shows "\<exists>v'. thread_postprocess J t v = Inr v' \<and> dictlike v' \<and> dictlike (j_at J v' ''SUM'')
    \<and> (\<forall>k. k \<noteq> ''SUM'' \<longrightarrow> (case map_of (mResultsPerThread t) k of
         None \<Rightarrow> column J v' k = column J v k \<and> j_at J (j_at J v' ''SUM'') k = j_at J (j_at J v ''SUM'') k
       | Some l \<Rightarrow> column J v' k = add_column (column J v k) (numbers l)
           \<and> j_at J (j_at J v' ''SUM'') k = j_of_uint J (sum_list (column J v' k))))"
  using sum_counters [OF assms(1,2), of "mResultsPerThread t"] assms(3)
  unfolding thread_postprocess_def summable_def by blast

lemma named_value_sums:
  "dictlike (named_value J nm)" "dictlike (j_at J (named_value J nm) ''SUM'')" "k \<noteq> ''CCthread'' \<Longrightarrow> column J (named_value J nm) k = []"
  by (simp_all add: named_value_def dictlike_null dictlike_set at_set at_not_member isMember_null column_def isMember_set)

lemma device_value_sums: "dictlike (device_value J b t)" "dictlike (j_at J (device_value J b t) ''SUM'')"
  using named_value_sums [of "pt_name t"] by (simp_all add: device_value_def Let_def dictlike_set at_set)

lemma append_data_eq:
  assumes "dictlike res" and "listlike (j_at J res ''thread_data'')"
  shows "dictlike (append_data J x res)" "listlike (j_at J (append_data J x res) ''thread_data'')"
    "j_elements J (j_at J (append_data J x res) ''thread_data'') = j_elements J (j_at J res ''thread_data'') @ [x]"
  using assms by (simp_all add: append_data_def dictlike_set at_set listlike_append elements_append)

text \<open>The column of a counter after the threads so far: their sum, frame by frame.\<close>

definition summed :: "'j \<Rightarrow> string \<Rightarrow> nat \<Rightarrow> (nat \<Rightarrow> u64) \<Rightarrow> bool" where
  "summed v k n S \<longleftrightarrow> dictlike v \<and> dictlike (j_at J v ''SUM'')
     \<and> (column J v k = map S [0..<n] \<and> j_at J (j_at J v ''SUM'') k = j_of_uint J (sum_list (column J v k))
        \<or> column J v k = [] \<and> S = (\<lambda>_. 0))"

lemma thread_summed:
  assumes "summed v k n S" and "summable t" and "map_of (mResultsPerThread t) k = Some l" and "length (vl_data l) = n" and "k \<noteq> ''SUM''"
  shows "\<exists>v'. thread_postprocess J t v = Inr v' \<and> summed v' k n (\<lambda>i. S i + numbers l ! i)
    \<and> column J v' k = map (\<lambda>i. S i + numbers l ! i) [0..<n]"
proof -
  obtain v' where v': "thread_postprocess J t v = Inr v'" "dictlike v'" "dictlike (j_at J v' ''SUM'')"
    "column J v' k = add_column (column J v k) (numbers l)" "j_at J (j_at J v' ''SUM'') k = j_of_uint J (sum_list (column J v' k))"
    using thread_sums [of v t] assms(1-3,5) by (fastforce simp: summed_def)
  have "column J v' k = map (\<lambda>i. S i + numbers l ! i) [0..<n]"
    unfolding v'(4) using assms(1,4) by (intro add_column_sums) (auto simp: summed_def numbers_def)
  with v' show ?thesis by (auto simp: summed_def)
qed

lemma replay_summed:
  assumes "\<forall>t \<in> set ts. summable t \<and> (\<exists>l. map_of (mResultsPerThread t) k = Some l \<and> length (vl_data l) = n)" and "k \<noteq> ''SUM''"
    and "dictlike res" and "listlike (j_at J res ''thread_data'')" and "summed replay k n S"
  shows "\<exists>res' replay' xs. fold_res (post_replay J) (res, replay) ts = Inr (res', replay')
    \<and> dictlike res' \<and> listlike (j_at J res' ''thread_data'')
    \<and> j_elements J (j_at J res' ''thread_data'') = j_elements J (j_at J res ''thread_data'') @ xs \<and> length xs = length ts
    \<and> summed replay' k n (\<lambda>i. S i + (\<Sum>t \<leftarrow> ts. numbers (the (map_of (mResultsPerThread t) k)) ! i))
    \<and> (ts \<noteq> [] \<longrightarrow> column J replay' k = map (\<lambda>i. S i + (\<Sum>t \<leftarrow> ts. numbers (the (map_of (mResultsPerThread t) k)) ! i)) [0..<n])"
  using assms
proof (induction ts arbitrary: res replay S)
  case (Cons t ts)
  obtain l where l: "summable t" "map_of (mResultsPerThread t) k = Some l" "length (vl_data l) = n" using Cons.prems(1) by auto
  obtain own where own: "thread_postprocess J t (device_value J False t) = Inr own"
    using thread_sums [OF device_value_sums l(1)] by blast
  obtain r1 where r1: "thread_postprocess J t replay = Inr r1" "summed r1 k n (\<lambda>i. S i + numbers l ! i)"
    "column J r1 k = map (\<lambda>i. S i + numbers l ! i) [0..<n]"
    using thread_summed [OF Cons.prems(5) l Cons.prems(2)] by blast
  note app = append_data_eq [OF Cons.prems(3,4), of own]
  have "\<forall>t \<in> set ts. summable t \<and> (\<exists>l. map_of (mResultsPerThread t) k = Some l \<and> length (vl_data l) = n)" using Cons.prems(1) by simp
  from Cons.IH [OF this Cons.prems(2) app(1,2) r1(2)] obtain res' replay' xs where
    r: "fold_res (post_replay J) (append_data J own res, r1) ts = Inr (res', replay')" "dictlike res'" "listlike (j_at J res' ''thread_data'')"
    "j_elements J (j_at J res' ''thread_data'') = j_elements J (j_at J (append_data J own res) ''thread_data'') @ xs" "length xs = length ts"
    "summed replay' k n (\<lambda>i. S i + numbers l ! i + (\<Sum>t \<leftarrow> ts. numbers (the (map_of (mResultsPerThread t) k)) ! i))"
    "ts \<noteq> [] \<longrightarrow> column J replay' k = map (\<lambda>i. S i + numbers l ! i + (\<Sum>t \<leftarrow> ts. numbers (the (map_of (mResultsPerThread t) k)) ! i)) [0..<n]"
    by blast
  have step: "fold_res (post_replay J) (res, replay) (t # ts) = Inr (res', replay')"
    using own r1(1) r(1) by (simp add: post_replay_def)
  have "column J replay' k = map (\<lambda>i. S i + (\<Sum>t \<leftarrow> t # ts. numbers (the (map_of (mResultsPerThread t) k)) ! i)) [0..<n]"
    using r(1,7) r1(3) l(2) by (cases "ts = []") (simp_all add: add.assoc)
  with step r(2-6) app(3) l(2) show ?case by (intro exI [of _ res'] exI [of _ replay'] exI [of _ "own # xs"]) (simp add: add.assoc)
qed auto

lemma background_returns:
  assumes "\<forall>t \<in> set ts. summable t" and "dictlike res" and "listlike (j_at J res ''thread_data'')"
    and "dictlike bg" and "dictlike (j_at J bg ''SUM'')" and "dictlike tot" and "dictlike (j_at J tot ''SUM'')"
  shows "\<exists>res' bg' tot' xs. fold_res (post_background J) (res, bg, tot) ts = Inr (res', bg', tot')
    \<and> dictlike res' \<and> listlike (j_at J res' ''thread_data'')
    \<and> j_elements J (j_at J res' ''thread_data'') = j_elements J (j_at J res ''thread_data'') @ xs"
  using assms
proof (induction ts arbitrary: res bg tot)
  case (Cons t ts)
  have t: "summable t" using Cons.prems(1) by simp
  obtain own where own: "thread_postprocess J t (device_value J False t) = Inr own"
    using thread_sums [OF device_value_sums t] by blast
  obtain b1 where b1: "thread_postprocess J t bg = Inr b1" "dictlike b1" "dictlike (j_at J b1 ''SUM'')"
    using thread_sums [OF Cons.prems(4,5) t] by blast
  obtain t1 where t1: "thread_postprocess J t tot = Inr t1" "dictlike t1" "dictlike (j_at J t1 ''SUM'')"
    using thread_sums [OF Cons.prems(6,7) t] by blast
  note app = append_data_eq [OF Cons.prems(2,3), of own]
  have "\<forall>t \<in> set ts. summable t" using Cons.prems(1) by simp
  from Cons.IH [OF this app(1,2) b1(2,3) t1(2,3)] own b1(1) t1(1) app(3) show ?case
    by (auto simp: post_background_def)
qed auto

lemma replay_result:
  assumes "\<forall>u \<in> set (t # ts). summable u"
    and "\<forall>u \<in> set (t # ts). \<exists>l. map_of (mResultsPerThread u) k = Some l \<and> length (vl_data l) = n"
    and "0 < n" and "k \<noteq> ''SUM''" and "k \<noteq> ''CCthread''" and "dictlike res" and "j_at J res ''thread_data'' = j_array J"
  shows "\<exists>res1 v pre. fold_res (post_replay J) (res, named_value J ''replayMainThreads'') (t # ts) = Inr (res1, v)
    \<and> dictlike res1 \<and> listlike (j_at J res1 ''thread_data'') \<and> j_elements J (j_at J res1 ''thread_data'') = pre
    \<and> length pre = length (t # ts) \<and> dictlike v \<and> dictlike (j_at J v ''SUM'')
    \<and> map (j_asUInt64 J) (j_elements J (j_at J v k))
        = map (\<lambda>i. \<Sum>u \<leftarrow> t # ts. cv_num (vl_data (the (map_of (mResultsPerThread u) k)) ! i)) [0..<n]
    \<and> j_at J (j_at J v ''SUM'') k = j_of_uint J (sum_list (map (j_asUInt64 J) (j_elements J (j_at J v k))))"
proof -
  have ll: "listlike (j_at J res ''thread_data'')" using assms(7) listlike_array by simp
  have su: "summed (named_value J ''replayMainThreads'') k n (\<lambda>_. 0)" using named_value_sums assms(5) by (simp add: summed_def)
  have al: "\<forall>u \<in> set (t # ts). summable u \<and> (\<exists>l. map_of (mResultsPerThread u) k = Some l \<and> length (vl_data l) = n)"
    using assms(1,2) by simp
  from replay_summed [OF al assms(4,6) ll su] obtain res1 v pre where
    f: "fold_res (post_replay J) (res, named_value J ''replayMainThreads'') (t # ts) = Inr (res1, v)"
    and r1: "dictlike res1" "listlike (j_at J res1 ''thread_data'')" "length pre = length (t # ts)"
      "j_elements J (j_at J res1 ''thread_data'') = pre"
    and sv: "summed v k n (\<lambda>i. 0 + (\<Sum>u \<leftarrow> t # ts. numbers (the (map_of (mResultsPerThread u) k)) ! i))"
    and cv: "column J v k = map (\<lambda>i. 0 + (\<Sum>u \<leftarrow> t # ts. numbers (the (map_of (mResultsPerThread u) k)) ! i)) [0..<n]"
    using elements_array assms(7) by force
  have mem: "column J v k = map (j_asUInt64 J) (j_elements J (j_at J v k))"
    using cv assms(3) by (auto simp: column_def split: if_splits)
  have vs: "dictlike v" "dictlike (j_at J v ''SUM'')" "j_at J (j_at J v ''SUM'') k = j_of_uint J (sum_list (column J v k))"
    using sv cv assms(3) by (auto simp: summed_def)
  have nth: "numbers (the (map_of (mResultsPerThread u) k)) ! i = cv_num (vl_data (the (map_of (mResultsPerThread u) k)) ! i)"
    if "u \<in> set (t # ts)" "i < n" for u i
    using assms(2) that by (auto simp: numbers_def)
  have "map (j_asUInt64 J) (j_elements J (j_at J v k))
      = map (\<lambda>i. \<Sum>u \<leftarrow> t # ts. cv_num (vl_data (the (map_of (mResultsPerThread u) k)) ! i)) [0..<n]"
    unfolding mem [symmetric] cv using nth
    by (intro map_cong refl) (simp del: list.map, intro arg_cong [of _ _ sum_list] map_cong, auto)
  with f r1 vs mem show ?thesis by metis
qed

lemma background_result:
  assumes "dictlike res" and "listlike (j_at J res ''thread_data'')" and "dictlike v" and "dictlike (j_at J v ''SUM'')"
    and "\<forall>u \<in> set bts. summable u"
  shows "\<exists>res' post. (if sum_all then bind_res (fold_res (post_background J)
          (append_data J v res, named_value J ''backgroundThreads'', j_set J v ''CCthread'' (j_of_string J ''allThreads'')) bts)
          (\<lambda>(res, bg, tot). Inr (append_data J tot (append_data J bg res)))
      else Inr (append_data J v res)) = Inr res'
    \<and> j_elements J (j_at J res' ''thread_data'') = j_elements J (j_at J res ''thread_data'') @ v # post"
proof (cases sum_all)
  case True
  note r2 = append_data_eq [OF assms(1,2), of v]
  have al: "dictlike (j_set J v ''CCthread'' x)" "dictlike (j_at J (j_set J v ''CCthread'' x) ''SUM'')" for x
    using dictlike_set at_set assms(3,4) by simp_all
  obtain res' bg' tot' xs where b: "fold_res (post_background J)
      (append_data J v res, named_value J ''backgroundThreads'', j_set J v ''CCthread'' (j_of_string J ''allThreads'')) bts
        = Inr (res', bg', tot')" "dictlike res'" "listlike (j_at J res' ''thread_data'')"
    "j_elements J (j_at J res' ''thread_data'') = j_elements J (j_at J (append_data J v res) ''thread_data'') @ xs"
    using background_returns [OF assms(5) r2(1,2) named_value_sums(1,2) al] by blast
  note a1 = append_data_eq [OF b(2,3), of bg'] note a2 = append_data_eq [OF a1(1,2), of tot']
  show ?thesis
    by (intro exI [of _ "append_data J tot' (append_data J bg' res')"] exI [of _ "xs @ [bg', tot']"]) (use True b a1 a2 r2(3) in simp)
next
  case False
  then show ?thesis using append_data_eq(3) [OF assms(1,2)]
    by (intro exI [of _ "append_data J v res"] exI [of _ "[]"]) simp
qed

end

text \<open>
  C11: the sums over threads. For any correct JSON library, when there are replay threads and no
  other kinds of threads but background threads, and the replay threads have the same number of
  integer samples of a counter and at least one, post-processing returns; after one value for each replay thread the
  result has a value whose array for the counter is the sum of the threads' samples, frame by
  frame (modulo \<open>2 ^ 64\<close>), and whose entry under \<open>SUM\<close> is the sum of that array.
\<close>

theorem perf_replay_sums:
  assumes "json_api J dictlike listlike" and "dictlike (mCustomResult c)"
    and "mReplayThreads (collector.more c) = t # ts" and "mCSPMUThreads (collector.more c) = []"
    and "mBookerThread (collector.more c) = []" and "\<forall>u \<in> set (t # ts @ mBgThreads (collector.more c)). summable u"
    and "\<forall>u \<in> set (t # ts). \<exists>l. map_of (mResultsPerThread u) k = Some l \<and> length (vl_data l) = n"
    and "0 < n" and "k \<noteq> ''SUM''" and "k \<noteq> ''CCthread''"
  shows "\<exists>c' pre v post. Perf_postprocess J timing c = Inr (True, c')
    \<and> j_elements J (j_at J (mCustomResult c') ''thread_data'') = pre @ v # post \<and> length pre = length (t # ts)
    \<and> map (j_asUInt64 J) (j_elements J (j_at J v k))
        = map (\<lambda>i. \<Sum>u \<leftarrow> t # ts. cv_num (vl_data (the (map_of (mResultsPerThread u) k)) ! i)) [0..<n]
    \<and> j_at J (j_at J v ''SUM'') k = j_of_uint J (sum_list (map (j_asUInt64 J) (j_elements J (j_at J v k))))"
proof -
  let ?s = "collector.more c"
  let ?base = "if mIsSummarized c then j_set J (mCustomResult c) ''summarized'' (j_of_bool J True) else mCustomResult c"
  let ?res = "j_set J ?base ''thread_data'' (j_array J)"
  have r0: "dictlike ?base" using assms(2) json_api.dictlike_set [OF assms(1)] by simp
  have res: "dictlike ?res" "j_at J ?res ''thread_data'' = j_array J"
    using json_api.dictlike_set [OF assms(1), OF r0] json_api.at_set [OF assms(1), OF r0] by simp_all
  have al: "\<forall>u \<in> set (t # ts). summable u" "\<forall>u \<in> set (mBgThreads ?s). summable u" using assms(6) by simp_all
  obtain res1 v pre where v: "fold_res (post_replay J) (?res, named_value J ''replayMainThreads'') (t # ts) = Inr (res1, v)"
    "dictlike res1" "listlike (j_at J res1 ''thread_data'')" "j_elements J (j_at J res1 ''thread_data'') = pre"
    "length pre = length (t # ts)" "dictlike v" "dictlike (j_at J v ''SUM'')"
    "map (j_asUInt64 J) (j_elements J (j_at J v k))
        = map (\<lambda>i. \<Sum>u \<leftarrow> t # ts. cv_num (vl_data (the (map_of (mResultsPerThread u) k)) ! i)) [0..<n]"
    "j_at J (j_at J v ''SUM'') k = j_of_uint J (sum_list (map (j_asUInt64 J) (j_elements J (j_at J v k))))"
    using json_api.replay_result [OF assms(1), OF al(1) assms(7-10) res] by blast
  obtain res3 post where final: "(if mAllThread ?s then bind_res (fold_res (post_background J)
          (append_data J v res1, named_value J ''backgroundThreads'', j_set J v ''CCthread'' (j_of_string J ''allThreads''))
          (mBgThreads ?s)) (\<lambda>(res, bg, tot). Inr (append_data J tot (append_data J bg res)))
      else Inr (append_data J v res1)) = Inr res3"
    "j_elements J (j_at J res3 ''thread_data'') = j_elements J (j_at J res1 ''thread_data'') @ v # post"
    using json_api.background_result [OF assms(1), OF v(2,3,6,7) al(2)] by blast
  have "Perf_postprocess J timing c = Inr (True, c\<lparr>mCustomResult := res3\<rparr>)"
    unfolding Perf_postprocess_def Let_def assms(3-5) v(1) fold_res.simps(1) bind_res_simps prod.case final(1) ..
  then show ?thesis using final(2) v(4,5,8,9)
    by (intro exI [of _ "c\<lparr>mCustomResult := res3\<rparr>"] exI [of _ pre] exI [of _ v] exI [of _ post]) simp
qed

section \<open>Groups of more than eight counters\<close>

definition takes_unsigned :: "CollectorValueResults \<Rightarrow> string \<Rightarrow> bool" where
  "takes_unsigned r k = (case map_of r k of None \<Rightarrow> True | Some l \<Rightarrow> vl_type l \<in> {TYPE_UNASSIGNED, TYPE_U64})"

lemma push_unsigned:
  assumes "takes_unsigned r k"
  shows "\<exists>r'. map_modify k empty_list (push_back_ulong v) r = Inr r' \<and> (\<forall>k'. takes_unsigned r k' \<longrightarrow> takes_unsigned r' k')"
  using assms
  by (cases "map_of r k")
    (auto simp: takes_unsigned_def map_modify_def push_back_ulong_def push_back_typed_def empty_list_def map_of_map_set)

lemma update_data_prefix:
  assumes "\<forall>c \<in> set cs. takes_unsigned r (c_name c)" and "length (snap_values snap) = 8" and "n \<le> length cs"
  shows "\<exists>r'. fold_res (\<lambda>r i. bind_res (value_at snap i) (\<lambda>v. map_modify (c_name (cs ! i)) empty_list (push_back_ulong v) r)) r [0..<n]
    = (if n \<le> 8 then Inr r' else Inl OutOfBounds) \<and> (\<forall>c \<in> set cs. takes_unsigned r' (c_name c))"
  using assms(3)
proof (induction n)
  case (Suc n)
  then obtain r1 where r1: "fold_res (\<lambda>r i. bind_res (value_at snap i) (\<lambda>v. map_modify (c_name (cs ! i)) empty_list (push_back_ulong v) r)) r [0..<n]
    = (if n \<le> 8 then Inr r1 else Inl OutOfBounds)" "\<forall>c \<in> set cs. takes_unsigned r1 (c_name c)" by auto
  obtain r2 where r2: "map_modify (c_name (cs ! n)) empty_list (push_back_ulong (snap_values snap ! n)) r1 = Inr r2"
    "\<forall>k'. takes_unsigned r1 k' \<longrightarrow> takes_unsigned r2 k'"
    using push_unsigned [of r1 "c_name (cs ! n)"] r1(2) Suc.prems by (metis Suc_le_lessD nth_mem)
  show ?case using r1 r2 assms(2) by (intro exI [of _ r2]) (simp add: fold_res_append value_at_def)
qed (use assms(1) in auto)

text \<open>
  The limit of a group. A snapshot has room for eight values: a sample of a thread returns
  exactly if its group has at most eight counters, and otherwise reads outside of the snapshot. The
  configuration does not limit the number of events.
\<close>

theorem perf_group_limit:
  assumes "\<forall>c \<in> set (mCounters (eventCtx t)). takes_unsigned (mResultsPerThread t) (c_name c)"
  shows "if length (mCounters (eventCtx t)) \<le> 8 then \<exists>t' w'. thread_collect K t w = Inr (t', w')
    else thread_collect K t w = Inl OutOfBounds"
proof -
  obtain ws w1 where a: "k_read K (ec_group (eventCtx t)) w = (ws, w1)" by fastforce
  obtain x w2 where b: "k_ioctl K (ec_group (eventCtx t)) IOC_RESET w1 = (x, w2)" by fastforce
  have c: "ctx_collect K (eventCtx t) w = (snap_of ws, w2)" by (simp add: ctx_collect_def a b)
  show ?thesis
    using update_data_prefix [OF assms snap_of_length le_refl, of ws]
    by (auto simp: thread_collect_def update_data_def c split: if_splits)
qed

section \<open>Examples\<close>

definition example_kernel :: "unit perf_ops" where
  "example_kernel = \<lparr>k_open = \<lambda>_ _ _ _ w. (5, w), k_ioctl = \<lambda>_ _ w. (0, w), k_read = \<lambda>_ w. (Some [1, 7], w),
     k_close = \<lambda>_ w. w, k_clock = \<lambda>w. ((0, 0), w), k_tasks = \<lambda>_. Some [''.'', ''12''], k_word = \<lambda>_ _. Some ''patrace-1'',
     k_line = \<lambda>_ _. None, k_getpid = \<lambda>_. 1, k_pmcr = \<lambda>_. 0, k_pmuserenr = \<lambda>_. 15, k_pmccntr = \<lambda>w. (3, w),
     k_pmevcntr2 = \<lambda>w. (4, w)\<rparr>"

definition example_state :: perf_state where
  "example_state = \<lparr>mSet = 0, mInherit = 1, mAllThread = False, perapi = True, pmu_counter_bits = 32, mBookerEvents = [],
     mEvents = [(''single'', [plain_event ''A'' 0 0])], mCSPMUEvents = [], mClocks = [], last_collect_scope_flags = 0,
     attempt_collect_scope_x64 = False, mReplayThreads = [], mBgThreads = [], mBookerThread = [], mCSPMUThreads = []\<rparr>"

definition example_perf :: "perf_thread list \<Rightarrow> (json, perf_state) collector_scheme" where
  "example_perf ts = collector.extend (Collector_new tree_json (JObject []) ''perf'') (example_state\<lparr>mReplayThreads := ts\<rparr>)"

definition example_thread :: perf_thread where
  "example_thread = (perf_thread_new 12 ''patrace-1'' ''single'')
     \<lparr>eventCtx := event_context_new\<lparr>ec_group := 5, mCounters := [counter_new ''A'' 5]\<rparr>\<rparr>"

lemma example_perf_fields [simp]:
  "collector.more (example_perf ts) = example_state\<lparr>mReplayThreads := ts\<rparr>" "mCollecting (example_perf ts) = False"
  "mIsSummarized (example_perf ts) = False" "mCustomResult (example_perf ts) = JNull"
  by (simp_all add: example_perf_def collector.defs Collector_new_def)

lemma example_thread_fields [simp]:
  "pt_tid example_thread = 12" "ec_group (eventCtx example_thread) = 5" "mCounters (eventCtx example_thread) = [counter_new ''A'' 5]"
  "mResultsPerThread example_thread = []" "ec_perapi (eventCtx example_thread) = False" "device_name example_thread = ''single''"
  by (simp_all add: example_thread_def perf_thread_new_def event_context_new_def)

lemma example_perf_start:
  "\<exists>c1. Perf_start \<lparr>arch_of = AArch64, android = False\<rparr> example_kernel (Perf_clear (example_perf [example_thread])) () = Inr (True, c1, ())
     \<and> mCollecting c1 \<and> collector.more c1 = example_state\<lparr>mReplayThreads := [example_thread]\<rparr>"
  by (simp add: Perf_start_def Perf_clear_def Collector_clear_def ctx_start_def example_kernel_def example_state_def
      set_private_def Let_def)

lemma example_collect:
  assumes "mCollecting c" and "collector.more c = example_state\<lparr>mReplayThreads := [t]\<rparr>"
    and "eventCtx t = eventCtx example_thread" and "takes_unsigned (mResultsPerThread t) ''A''"
  shows "\<exists>c' t'. Perf_collect example_kernel now c () = Inr (True, c', ()) \<and> mCollecting c'
    \<and> collector.more c' = example_state\<lparr>mReplayThreads := [t']\<rparr> \<and> eventCtx t' = eventCtx example_thread
    \<and> takes_unsigned (mResultsPerThread t') ''A''"
proof -
  obtain r where "map_modify ''A'' empty_list (push_back_ulong 7) (mResultsPerThread t) = Inr r" "takes_unsigned r ''A''"
    using push_unsigned [OF assms(4)] assms(4) by blast
  then show ?thesis using assms(1-3)
    by (simp add: Perf_collect_def thread_collect_def ctx_collect_def update_data_def value_at_def snap_of_def
        example_kernel_def example_state_def counter_new_def set_private_def Let_def)
qed

theorem perf_run_adds_witness:
  "\<exists>c2. samples (mResultsPerThread (hd (mReplayThreads (collector.more c2)))) ''A'' = 2
     \<and> (\<exists>c1. collect_run (perf_vtable \<lparr>arch_of = AArch64, android = False\<rparr> tree_json example_kernel) [10, 20] c1 () = Some (c2, ()))"
proof -
  let ?p = "\<lparr>arch_of = AArch64, android = False\<rparr>" and ?c = "example_perf [example_thread]"
  obtain c1 where c1: "Perf_start ?p example_kernel (Perf_clear ?c) () = Inr (True, c1, ())" "mCollecting c1"
    "collector.more c1 = example_state\<lparr>mReplayThreads := [example_thread]\<rparr>" using example_perf_start by blast
  have "takes_unsigned (mResultsPerThread example_thread) ''A''" by (simp add: takes_unsigned_def)
  from example_collect [OF c1(2,3) refl this]
  obtain c2 t2 where c2: "Perf_collect example_kernel 10 c1 () = Inr (True, c2, ())" "mCollecting c2"
    "collector.more c2 = example_state\<lparr>mReplayThreads := [t2]\<rparr>" "eventCtx t2 = eventCtx example_thread"
    "takes_unsigned (mResultsPerThread t2) ''A''"
    by blast
  obtain c3 t3 where c3: "Perf_collect example_kernel 20 c2 () = Inr (True, c3, ())"
    "collector.more c3 = example_state\<lparr>mReplayThreads := [t3]\<rparr>"
    using example_collect [OF c2(2-5)] by blast
  have run: "collect_run (perf_vtable ?p tree_json example_kernel) [10, 20] c1 () = Some (c3, ())"
    using c2(1) c3(1) by (simp add: perf_vtable_def)
  have "\<not> mCollecting ?c" by simp
  from perf_run_adds [OF this c1(1) run] c3(2) have "samples (mResultsPerThread t3) ''A'' = 2"
    by (auto simp: all_threads_def example_state_def counted_def counter_new_def samples_def)
  then show ?thesis using run c3(2) by (intro exI [of _ c3]) (auto simp: example_state_def)
qed


theorem scope_out_of_range_witness:
  "scope_run \<lparr>arch_of = X86_64, android = False\<rparr> example_kernel 32 12 [(65535, id)] example_thread () = Inl OutOfBounds"
  by (rule scope_out_of_range [of _ _ "counter_new ''A'' 5" "[]"]) (simp_all add: counter_new_def)

theorem perf_group_limit_witness: "\<exists>t'. thread_collect example_kernel example_thread () = Inr (t', ())"
  using perf_group_limit [of example_thread example_kernel "()"] by (auto simp: takes_unsigned_def)

lemma example_stol: "stol ''12'' = Inr 12"
  by code_simp

lemma example_init:
  "\<exists>c1. Perf_init example_kernel (example_perf []) () = Inr (True, c1, ()) \<and> mReplayThreads (collector.more c1) \<noteq> []"
  by (simp add: Perf_init_def create_perf_thread_def create_for_task_def example_stol example_kernel_def example_state_def
      getThreadName_def add_replay_def add_background_def replay_name_def background_name_def c_isdigit_def thread_init_def
      ctx_init_def add_event_def events_of_def perf_thread_new_def set_private_def Let_def)

theorem perapi_other_exits_witness:
  "\<exists>c1. Perf_init example_kernel (example_perf []) () = Inr (True, c1, ())
     \<and> Perf_start \<lparr>arch_of = X86_64, android = False\<rparr> example_kernel c1 () = Inl (Exited 1)"
proof -
  obtain c1 where c1: "Perf_init example_kernel (example_perf []) () = Inr (True, c1, ())"
    "mReplayThreads (collector.more c1) \<noteq> []" using example_init by blast
  have "\<forall>h r w. fst (k_ioctl example_kernel h r w) \<noteq> - 1" by (simp add: example_kernel_def)
  from perapi_other_exits [of "\<lparr>arch_of = X86_64, android = False\<rparr>", OF _ _ _ _ c1 this] c1(1) show ?thesis
    by (auto simp: example_state_def)
qed

definition example_results :: "u64 list \<Rightarrow> perf_thread" where
  "example_results ns = example_thread\<lparr>mResultsPerThread := [(''A'', \<lparr>vl_type = TYPE_U64, vl_list = map CV_u64 ns, vl_summaries = []\<rparr>)]\<rparr>"

theorem perf_replay_sums_witness:
  "\<exists>c' pre v post. Perf_postprocess tree_json [] (example_perf [example_results [1, 2], example_results [3, 4]]) = Inr (True, c')
     \<and> tree_elements (tree_at (mCustomResult c') ''thread_data'') = pre @ v # post
     \<and> map tree_asUInt64 (tree_elements (tree_at v ''A'')) = [4, 6] \<and> tree_at (tree_at v ''SUM'') ''A'' = JUInt 10"
proof -
  let ?c = "example_perf [example_results [1, 2], example_results [3, 4]]"
  have s: "summable (example_results [a, b])" for a b
    by (simp add: summable_def example_results_def integral_def vl_data_def)
  have "\<exists>c' pre v post. Perf_postprocess tree_json [] ?c = Inr (True, c')
    \<and> j_elements tree_json (j_at tree_json (mCustomResult c') ''thread_data'') = pre @ v # post
    \<and> length pre = length [example_results [1, 2], example_results [3, 4]]
    \<and> map (j_asUInt64 tree_json) (j_elements tree_json (j_at tree_json v ''A''))
      = map (\<lambda>i. \<Sum>u \<leftarrow> [example_results [1, 2], example_results [3, 4]]. cv_num (vl_data (the (map_of (mResultsPerThread u) ''A'')) ! i)) [0..<2]
    \<and> j_at tree_json (j_at tree_json v ''SUM'') ''A''
      = j_of_uint tree_json (sum_list (map (j_asUInt64 tree_json) (j_elements tree_json (j_at tree_json v ''A''))))"
    by (rule perf_replay_sums [OF tree.json_api_axioms])
      (simp_all add: s example_state_def, simp_all add: example_results_def vl_data_def)
  then obtain c' pre v post where h: "Perf_postprocess tree_json [] ?c = Inr (True, c')"
    "tree_elements (tree_at (mCustomResult c') ''thread_data'') = pre @ v # post"
    "map tree_asUInt64 (tree_elements (tree_at v ''A''))
      = map (\<lambda>i. \<Sum>u \<leftarrow> [example_results [1, 2], example_results [3, 4]]. cv_num (vl_data (the (map_of (mResultsPerThread u) ''A'')) ! i)) [0..<2]"
    "tree_at (tree_at v ''SUM'') ''A'' = JUInt (sum_list (map tree_asUInt64 (tree_elements (tree_at v ''A''))))"
    unfolding tree_json_sel by blast
  have "map tree_asUInt64 (tree_elements (tree_at v ''A'')) = [4, 6]"
    unfolding h(3) by (simp add: example_results_def vl_data_def cv_num_def upt_rec)
  then show ?thesis using h by (intro exI [of _ c'] exI [of _ pre] exI [of _ v] exI [of _ post]) simp
qed

end
