(* ===== verification/Ferret_Stat.thy ===== *)
theory Ferret_Stat
  imports Utility
begin

text \<open>
  \<open>parse_stat\<close> of \<open>ferret.cpp\<close>: the fields of a \<open>/proc/<pid>/task/<tid>/stat\<close> file that the ferret
  collector records. The function works in place on the buffer the file was read into: it splits the
  line by writing NUL over the blanks between fields, an underscore over the blanks inside the name of
  the process, and remembers where the wanted fields start. The model keeps the buffer as a list of
  characters and the pointers as positions in it.
\<close>

section \<open>The table of fields\<close>

definition pid_stat_spec :: "(string \<times> int) list" where
  "pid_stat_spec = [(''pid'', 0), (''comm'', 1), (''ppid'', 3), (''utime'', 13), (''stime'', 14), (''cutime'', 15),
     (''cstime'', 16), (''num_threads'', 19), (''starttime'', 21), (''processor'', 38)]"

abbreviation NL :: char where "NL \<equiv> CHR 0x0A"
abbreviation SP :: char where "SP \<equiv> CHR 0x20"

definition FIELD_COMM :: int where "FIELD_COMM = 1"

text \<open>
  \<open>pid_stat_spec[match_count].field_nr\<close>. The loop reads the entry after the last one too; \<open>after\<close> is
  what the memory behind the table holds there, \<open>None\<close> a read that faults.
\<close>

definition spec_field :: "int option \<Rightarrow> nat \<Rightarrow> int result" where
  "spec_field after m =
     (if m < length pid_stat_spec then Inr (snd (pid_stat_spec ! m))
      else case after of None \<Rightarrow> Inl OutOfBounds | Some n \<Rightarrow> Inr n)"

section \<open>The loop\<close>

record scan =
  starts :: "nat list"
  field_count :: int
  match_count :: nat
  in_field :: bool
  curr_field :: int

definition scan_new :: scan where
  "scan_new = \<lparr>starts = [], field_count = 0, match_count = 0, in_field = False, curr_field = 0\<rparr>"

text \<open>The first character of a field, at position \<open>i\<close> of the buffer.\<close>

definition open_field :: "int option \<Rightarrow> nat \<Rightarrow> scan \<Rightarrow> scan result" where
  "open_field after i st =
     (let st = st\<lparr>in_field := True, curr_field := (if field_count st = 1 then field_count st else curr_field st)\<rparr> in
      bind_res (spec_field after (match_count st)) (\<lambda>nr.
        let st = (if field_count st = nr then st\<lparr>starts := starts st @ [i], match_count := match_count st + 1\<rparr> else st) in
        Inr (st\<lparr>field_count := field_count st + 1\<rparr>)))"

text \<open>One turn: the character that replaces \<open>c\<close> in the buffer, and the new state.\<close>

definition scan_char :: "int option \<Rightarrow> nat \<Rightarrow> char \<Rightarrow> scan \<Rightarrow> (char \<times> scan) result" where
  "scan_char after i c st =
     (if c = SP then
        (if curr_field st = FIELD_COMM then Inr (CHR ''_'', st) else Inr (NUL, st\<lparr>in_field := False\<rparr>))
      else
        let st = (if in_field st \<and> curr_field st = FIELD_COMM \<and> c = CHR '')'' then st\<lparr>curr_field := field_count st\<rparr> else st) in
        if in_field st then Inr (c, st) else bind_res (open_field after i st) (\<lambda>st. Inr (c, st)))"

fun scan_loop :: "int option \<Rightarrow> nat \<Rightarrow> string \<Rightarrow> scan \<Rightarrow> (string \<times> scan) result" where
  "scan_loop after i [] st = Inl OutOfBounds"
| "scan_loop after i (c # cs) st =
     (if match_count st \<le> length pid_stat_spec \<and> c \<noteq> NUL \<and> c \<noteq> NL
      then bind_res (scan_char after i c st) (\<lambda>(c', st').
        bind_res (scan_loop after (Suc i) cs st') (\<lambda>(cs', st''). Inr (c' # cs', st'')))
      else Inr (c # cs, st))"

definition parse_stat :: "int option \<Rightarrow> string \<Rightarrow> string \<Rightarrow> string result" where
  "parse_stat after buf row =
     bind_res (scan_loop after 0 buf scan_new) (\<lambda>(buf', st).
       Inr (foldl (\<lambda>row p. row @ '' '' @ c_string (drop p buf')) row (starts st)))"

section \<open>Lines of a stat file\<close>

definition plain :: "string \<Rightarrow> bool" where
  "plain t \<longleftrightarrow> t \<noteq> [] \<and> SP \<notin> set t \<and> NUL \<notin> set t \<and> NL \<notin> set t"

definition comm_ok :: "string \<Rightarrow> bool" where
  "comm_ok nm \<longleftrightarrow> CHR '')'' \<notin> set nm \<and> NUL \<notin> set nm \<and> NL \<notin> set nm"

definition underscore :: "string \<Rightarrow> string" where
  "underscore = map (\<lambda>c. if c = SP then CHR ''_'' else c)"

text \<open>The line of a process: its number, its name in parentheses, and the other fields.\<close>

definition stat_line :: "string \<Rightarrow> string \<Rightarrow> string list \<Rightarrow> string" where
  "stat_line pid nm fs = joined SP (pid # (''('' @ nm @ '')'') # fs)"

definition stat_fields :: "string \<Rightarrow> string \<Rightarrow> string list \<Rightarrow> string list" where
  "stat_fields pid nm fs = pid # (''('' @ underscore nm @ '')'') # fs"

definition spec_numbers :: "nat list" where
  "spec_numbers = [0, 1, 3, 13, 14, 15, 16, 19, 21, 38]"

lemma spec_numbers_spec: "map (int \<circ> id) spec_numbers = map snd pid_stat_spec"
  by (simp add: spec_numbers_def pid_stat_spec_def)

lemma length_spec [simp]: "length pid_stat_spec = 10" "length spec_numbers = 10"
  by (simp_all add: pid_stat_spec_def spec_numbers_def)

lemma spec_field_less: "m < 10 \<Longrightarrow> spec_field after m = Inr (int (spec_numbers ! m))"
proof -
  assume m: "m < 10"
  have "snd (pid_stat_spec ! m) = map snd pid_stat_spec ! m" using m by simp
  also have "\<dots> = int (spec_numbers ! m)" using m by (simp flip: spec_numbers_spec)
  finally show ?thesis using m by (simp add: spec_field_def)
qed

lemma spec_field_after: "spec_field after 10 = (case after of None \<Rightarrow> Inl OutOfBounds | Some n \<Rightarrow> Inr n)"
  by (simp add: spec_field_def)

text \<open>How many of the wanted fields come before field \<open>n\<close>: the entry to compare field \<open>n\<close> with.\<close>

definition wanted_before :: "nat \<Rightarrow> nat" where
  "wanted_before n = length (filter (\<lambda>k. k < n) spec_numbers)"

lemma sorted_next:
  fixes xs :: "nat list"
  assumes "sorted_wrt (<) xs"
  shows "(length (filter (\<lambda>x. x < n) xs) < length xs \<and> xs ! length (filter (\<lambda>x. x < n) xs) = n) \<longleftrightarrow> n \<in> set xs"
  using assms
proof (induction xs)
  case (Cons x xs)
  show ?case
  proof (cases "x < n")
    case True
    then show ?thesis using Cons by auto
  next
    case False
    then have "filter (\<lambda>x. x < n) xs = []" using Cons.prems by (auto simp: filter_empty_conv)
    then show ?thesis using False Cons.prems by auto
  qed
qed simp

lemma sorted_spec: "sorted_wrt (<) spec_numbers"
  by (simp add: spec_numbers_def)

lemma wanted_iff: "(wanted_before n < 10 \<and> spec_numbers ! wanted_before n = n) \<longleftrightarrow> n \<in> set spec_numbers"
  using sorted_next [OF sorted_spec, of n] by (simp add: wanted_before_def)

lemma wanted_Suc: "wanted_before (Suc n) = wanted_before n + (if n \<in> set spec_numbers then 1 else 0)"
  by (simp add: wanted_before_def spec_numbers_def) 

lemma wanted_le: "wanted_before n \<le> 10"
  unfolding wanted_before_def using length_filter_le [of "\<lambda>k. k < n" spec_numbers] by simp

section \<open>Scanning a line\<close>

text \<open>The state in front of field \<open>n\<close>, or inside the field before it.\<close>

definition scan_at :: "nat list \<Rightarrow> nat \<Rightarrow> bool \<Rightarrow> int \<Rightarrow> scan" where
  "scan_at ps n inside cf =
     \<lparr>starts = ps, field_count = int n, match_count = wanted_before n, in_field = inside, curr_field = cf\<rparr>"

lemma scan_at_sel [simp]:
  "starts (scan_at ps n b cf) = ps" "field_count (scan_at ps n b cf) = int n"
  "match_count (scan_at ps n b cf) = wanted_before n" "in_field (scan_at ps n b cf) = b"
  "curr_field (scan_at ps n b cf) = cf" "scan_at ps n b cf\<lparr>in_field := b'\<rparr> = scan_at ps n b' cf"
  "scan_at ps n b cf\<lparr>curr_field := cf'\<rparr> = scan_at ps n b cf'"
  by (simp_all add: scan_at_def)

text \<open>The comparison of field \<open>n\<close> is harmless: it uses the table, or memory with another number.\<close>

definition compares :: "int option \<Rightarrow> nat \<Rightarrow> bool" where
  "compares after n \<longleftrightarrow> wanted_before n < 10 \<or> (\<exists>v. after = Some v \<and> v \<noteq> int n)"

lemma open_field_at:
  assumes "compares after n"
  shows "open_field after i (scan_at ps n b cf)
     = Inr (scan_at (if n \<in> set spec_numbers then ps @ [i] else ps) (Suc n) True (if n = 1 then 1 else cf))"
proof (cases "wanted_before n < 10")
  case True
  then have "int n = int (spec_numbers ! wanted_before n) \<longleftrightarrow> n \<in> set spec_numbers"
    using wanted_iff [of n] by auto
  with True show ?thesis
    by (simp add: open_field_def spec_field_less scan_at_def wanted_Suc Let_def)
next
  case False
  then have "wanted_before n = 10" using wanted_le [of n] by simp
  moreover from this have "n \<notin> set spec_numbers" using wanted_iff [of n] by simp
  moreover obtain v where "after = Some v" "int n \<noteq> v" using assms calculation by (auto simp: compares_def)
  ultimately show ?thesis
    by (simp add: open_field_def spec_field_after scan_at_def wanted_Suc Let_def)
qed

definition put_front :: "string \<Rightarrow> (string \<times> scan) result \<Rightarrow> (string \<times> scan) result" where
  "put_front t r = bind_res r (\<lambda>(cs, st). Inr (t @ cs, st))"

lemma put_front_simps [simp]:
  "put_front t (Inr (cs, st)) = Inr (t @ cs, st)" "put_front t (Inl e) = Inl e"
  by (simp_all add: put_front_def)

lemma put_front_compose [simp]: "put_front [] r = r" "put_front s (put_front t r) = put_front (s @ t) r"
  by (cases r; auto)+

lemma scan_loop_Cons:
  assumes "c \<noteq> NUL" "c \<noteq> NL" "match_count st \<le> 10" "scan_char after i c st = Inr (c', st')"
  shows "scan_loop after i (c # cs) st = put_front [c'] (scan_loop after (Suc i) cs st')"
  using assms by (simp add: put_front_def)

declare scan_loop.simps(2) [simp del]

text \<open>The rest of a field, of the name, and the blank behind a field.\<close>

lemma scan_rest:
  assumes "SP \<notin> set t" "NUL \<notin> set t" "NL \<notin> set t" "cf \<noteq> 1"
  shows "scan_loop after i (t @ r) (scan_at ps n True cf) = put_front t (scan_loop after (i + length t) r (scan_at ps n True cf))"
  using assms
proof (induction t arbitrary: i)
  case (Cons c t)
  have "scan_loop after i (c # t @ r) (scan_at ps n True cf) = put_front [c] (scan_loop after (Suc i) (t @ r) (scan_at ps n True cf))"
    using Cons.prems by (intro scan_loop_Cons) (auto simp: scan_char_def FIELD_COMM_def wanted_le)
  then show ?case using Cons by simp
qed simp

lemma scan_name:
  assumes "comm_ok t"
  shows "scan_loop after i (t @ r) (scan_at ps n True 1) = put_front (underscore t) (scan_loop after (i + length t) r (scan_at ps n True 1))"
  using assms
proof (induction t arbitrary: i)
  case (Cons c t)
  have "scan_loop after i (c # t @ r) (scan_at ps n True 1)
      = put_front [if c = SP then CHR ''_'' else c] (scan_loop after (Suc i) (t @ r) (scan_at ps n True 1))"
    using Cons.prems by (intro scan_loop_Cons) (auto simp: scan_char_def FIELD_COMM_def comm_ok_def wanted_le)
  then show ?case using Cons by (simp add: underscore_def comm_ok_def)
qed (simp add: underscore_def)

lemma scan_blank:
  "cf \<noteq> 1 \<Longrightarrow> scan_loop after i (SP # r) (scan_at ps n b cf) = put_front [NUL] (scan_loop after (Suc i) r (scan_at ps n False cf))"
  by (intro scan_loop_Cons) (auto simp: scan_char_def FIELD_COMM_def NUL_def wanted_le)

lemma scan_first:
  assumes "compares after n" "c \<noteq> SP" "c \<noteq> NUL" "c \<noteq> NL"
  shows "scan_loop after i (c # r) (scan_at ps n False cf) = put_front [c] (scan_loop after (Suc i) r
     (scan_at (if n \<in> set spec_numbers then ps @ [i] else ps) (Suc n) True (if n = 1 then 1 else cf)))"
  using assms by (intro scan_loop_Cons) (auto simp: scan_char_def open_field_at wanted_le)

lemma scan_field:
  assumes "plain t" "compares after n" "n \<noteq> 1" "cf \<noteq> 1"
  shows "scan_loop after i (t @ r) (scan_at ps n False cf) = put_front t (scan_loop after (i + length t) r
     (scan_at (if n \<in> set spec_numbers then ps @ [i] else ps) (Suc n) True cf))"
proof -
  obtain c t' where t: "t = c # t'" using assms(1) by (cases t) (auto simp: plain_def)
  then have "c \<noteq> SP" "c \<noteq> NUL" "c \<noteq> NL" "SP \<notin> set t'" "NUL \<notin> set t'" "NL \<notin> set t'"
    using assms(1) by (auto simp: plain_def)
  then show ?thesis
    using assms(3,4) scan_first [OF assms(2), of c i "t' @ r" ps cf] by (simp add: t scan_rest split del: if_split)
qed

lemma scan_comm:
  assumes "comm_ok nm"
  shows "scan_loop after i (''('' @ nm @ '')'' @ r) (scan_at ps 1 False cf) = put_front (''('' @ underscore nm @ '')'')
     (scan_loop after (i + length nm + 2) r (scan_at (ps @ [i]) 2 True 2))"
proof -
  have c: "compares after 1" by (simp add: compares_def wanted_before_def spec_numbers_def)
  have "scan_loop after (Suc i + length nm) ('')'' @ r) (scan_at (ps @ [i]) 2 True 1)
      = put_front '')'' (scan_loop after (Suc (Suc i + length nm)) r (scan_at (ps @ [i]) 2 True 2))"
    unfolding append_Cons append_Nil
    by (intro scan_loop_Cons) (auto simp: scan_char_def FIELD_COMM_def NUL_def wanted_le)
  moreover have "1 \<in> set spec_numbers" by (simp add: spec_numbers_def)
  ultimately show ?thesis
    using scan_name [OF assms, of after "Suc i" "'')'' @ r" "ps @ [i]" 2]
      scan_first [OF c, of "CHR ''(''" i "nm @ '')'' @ r" ps cf]
    by (simp add: NUL_def numeral_2_eq_2)
qed

text \<open>Where the wanted ones among the fields start, when field \<open>n\<close> is at position \<open>i\<close>, and what they are.\<close>

fun found :: "nat \<Rightarrow> nat \<Rightarrow> string list \<Rightarrow> nat list" where
  "found i n [] = []"
| "found i n (f # fs) = (if n \<in> set spec_numbers then [i] else []) @ found (i + length f + 1) (Suc n) fs"

fun wanted :: "nat \<Rightarrow> string list \<Rightarrow> string list" where
  "wanted n [] = []"
| "wanted n (f # fs) = (if n \<in> set spec_numbers then [f] else []) @ wanted (Suc n) fs"

lemma joined_Cons: "fs \<noteq> [] \<Longrightarrow> joined d (f # fs) = f @ [d] @ joined d fs"
  by (cases fs) auto

lemma scan_fields:
  assumes "fs \<noteq> []" "\<forall>f \<in> set fs. plain f" "\<forall>k. n \<le> k \<and> k < n + length fs \<longrightarrow> compares after k" "2 \<le> n"
  shows "scan_loop after i (joined SP fs @ q) (scan_at ps n False 2)
     = put_front (joined NUL fs) (scan_loop after (i + length (joined NUL fs)) q (scan_at (ps @ found i n fs) (n + length fs) True 2))"
  using assms
proof (induction fs arbitrary: i n ps)
  case (Cons f fs)
  let ?ps = "if n \<in> set spec_numbers then ps @ [i] else ps"
  have f: "scan_loop after i (f @ q') (scan_at ps n False 2) = put_front f (scan_loop after (i + length f) q' (scan_at ?ps (Suc n) True 2))" for q'
    using Cons.prems by (intro scan_field) auto
  show ?case
  proof (cases "fs = []")
    case True
    then show ?thesis using f [of q] by simp
  next
    case False
    have "scan_loop after (Suc (i + length f)) (joined SP fs @ q) (scan_at ?ps (Suc n) False 2)
        = put_front (joined NUL fs) (scan_loop after (Suc (i + length f) + length (joined NUL fs)) q
            (scan_at (?ps @ found (Suc (i + length f)) (Suc n) fs) (Suc n + length fs) True 2))"
      using Cons.prems False by (intro Cons.IH) auto
    then show ?thesis
      using f [of "SP # joined SP fs @ q"] False by (simp add: joined_Cons scan_blank add.assoc)
  qed
qed simp

lemma scan_line:
  assumes "plain pid" "comm_ok nm" "fs \<noteq> []" "\<forall>f \<in> set fs. plain f" "\<forall>k < length fs + 2. compares after k"
  shows "scan_loop after 0 (stat_line pid nm fs @ q) scan_new
     = put_front (joined NUL (stat_fields pid nm fs)) (scan_loop after (length (joined NUL (stat_fields pid nm fs))) q
            (scan_at (found 0 0 (stat_fields pid nm fs)) (length fs + 2) True 2))"
proof -
  let ?cs = "''('' @ nm @ '')'' @ SP # joined SP fs @ q"
  have new: "scan_new = scan_at [] 0 False 0" by (simp add: scan_new_def scan_at_def wanted_before_def)
  have spec: "0 \<in> set spec_numbers" "Suc 0 \<in> set spec_numbers" by (simp_all add: spec_numbers_def)
  have 0: "scan_loop after 0 (pid @ SP # ?cs) (scan_at [] 0 False 0)
      = put_front pid (scan_loop after (length pid) (SP # ?cs) (scan_at [0] 1 True 0))"
    using assms(1,5) spec scan_field [of pid after 0 0 0 "SP # ?cs" "[]"] by simp
  have 2: "scan_loop after j (joined SP fs @ q) (scan_at ps 2 False 2)
      = put_front (joined NUL fs) (scan_loop after (j + length (joined NUL fs)) q (scan_at (ps @ found j 2 fs) (2 + length fs) True 2))" for j ps
    using assms(3-5) by (intro scan_fields) auto
  have cs: "stat_line pid nm fs @ q = pid @ SP # ?cs"
    using assms(3) by (simp add: stat_line_def joined_Cons)
  show ?thesis
    unfolding cs new 0 using assms(2,3) spec
    by (simp add: scan_blank scan_comm [simplified] 2 [unfolded numeral_2_eq_2] stat_fields_def joined_Cons
        underscore_def add.assoc numeral_2_eq_2)
qed

lemma c_string_field: "NUL \<notin> set f \<Longrightarrow> c_string (f @ NUL # r) = f"
  by (induction f) (auto simp: c_string_def)

lemma found_strings:
  assumes "\<forall>f \<in> set fs. NUL \<notin> set f" "fs \<noteq> []" "n + length fs - 1 \<notin> set spec_numbers"
  shows "map (\<lambda>p. c_string (drop p (pre @ joined NUL fs @ r))) (found (length pre) n fs) = wanted n fs"
  using assms
proof (induction fs arbitrary: pre n)
  case (Cons f fs)
  show ?case
  proof (cases "fs = []")
    case False
    have "map (\<lambda>p. c_string (drop p ((pre @ f @ [NUL]) @ joined NUL fs @ r))) (found (length (pre @ f @ [NUL])) (Suc n) fs) = wanted (Suc n) fs"
      using Cons.prems False by (intro Cons.IH) auto
    moreover have "c_string (f @ NUL # joined NUL fs @ r) = f" using Cons.prems(1) by (intro c_string_field) simp
    ultimately show ?thesis using False by (simp add: joined_Cons)
  qed (use Cons.prems in simp)
qed simp

lemma wanted_upt: "wanted n fs = map (\<lambda>k. fs ! (k - n)) (filter (\<lambda>k. k \<in> set spec_numbers) [n..<n + length fs])"
proof (induction fs arbitrary: n)
  case (Cons f fs)
  have "[n..<n + length (f # fs)] = n # [Suc n..<Suc n + length fs]" by (simp add: upt_rec)
  moreover have "map (\<lambda>k. fs ! (k - Suc n)) (filter P [Suc n..<Suc n + length fs])
      = map (\<lambda>k. (f # fs) ! (k - n)) (filter P [Suc n..<Suc n + length fs])" for P
    by (auto simp: nth_Cons')
  ultimately show ?case using Cons.IH by simp
qed simp

lemma filter_spec: "filter (\<lambda>k. k \<in> set spec_numbers) [0..<39] = spec_numbers"
  by (simp add: spec_numbers_def upt_rec)

lemma wanted_all:
  assumes "39 \<le> length fs"
  shows "wanted 0 fs = map ((!) fs) spec_numbers"
proof -
  have "[0..<length fs] = [0..<39] @ [39..<length fs]" using assms upt_add_eq_append [of 0 39 "length fs - 39"] by simp
  moreover have "filter (\<lambda>k. k \<in> set spec_numbers) [39..<length fs] = []"
    by (auto simp: filter_empty_conv spec_numbers_def)
  ultimately show ?thesis by (simp add: wanted_upt filter_spec)
qed

lemma compares_small: "k \<le> 38 \<Longrightarrow> compares after k"
proof -
  assume "k \<le> 38"
  then have "38 \<in> set spec_numbers" "\<not> 38 < k" by (simp_all add: spec_numbers_def)
  then have "wanted_before k < length spec_numbers" unfolding wanted_before_def by (rule length_filter_less)
  then show ?thesis by (simp add: compares_def)
qed

lemma foldl_rows_map:
  "map g ps = ys \<Longrightarrow> foldl (\<lambda>row p. row @ '' '' @ g p) row ps = row @ concat (map (\<lambda>y. '' '' @ y) ys)"
  by (induction ps arbitrary: row ys) auto

section \<open>Properties\<close>

lemma stat_fields_facts:
  assumes "plain pid" "comm_ok nm" "\<forall>f \<in> set fs. plain f"
  shows "\<forall>f \<in> set (stat_fields pid nm fs). NUL \<notin> set f" "length (stat_fields pid nm fs) = length fs + 2"
  using assms by (auto simp: stat_fields_def plain_def comm_ok_def underscore_def NUL_def split: if_splits)

lemma last_not_wanted: "38 \<le> n \<Longrightarrow> n + 1 \<notin> set spec_numbers"
  by (auto simp: spec_numbers_def)

text \<open>The ten fields of a line that is long enough.\<close>

lemma parse_stat_line:
  assumes "plain pid" "comm_ok nm" "\<forall>f \<in> set fs. plain f" "38 \<le> length fs"
    and "after = Some v" "\<not> (39 \<le> v \<and> v < int (length fs) + 2)"
  shows "parse_stat after (stat_line pid nm fs @ [NL, NUL]) row
     = Inr (row @ concat (map (\<lambda>k. '' '' @ stat_fields pid nm fs ! k) [0, 1, 3, 13, 14, 15, 16, 19, 21, 38]))"
proof -
  let ?all = "stat_fields pid nm fs"
  have "compares after k" if "k < length fs + 2" for k
  proof (cases "k \<le> 38")
    case False
    then have "v \<noteq> int k" using assms(6) that by auto
    then show ?thesis using assms(5) by (simp add: compares_def)
  qed (simp add: compares_small)
  moreover have "fs \<noteq> []" using assms(4) by auto
  ultimately have scan: "scan_loop after 0 (stat_line pid nm fs @ [NL, NUL]) scan_new
      = Inr (joined NUL ?all @ [NL, NUL], scan_at (found 0 0 ?all) (length fs + 2) True 2)"
    using assms(1-3) scan_line [of pid nm fs after "[NL, NUL]"] by (simp add: scan_loop.simps(2))
  have "map (\<lambda>p. c_string (drop p (joined NUL ?all @ [NL, NUL]))) (found 0 0 ?all) = wanted 0 ?all"
    using found_strings [of ?all 0 "[]" "[NL, NUL]"] stat_fields_facts [OF assms(1-3)] last_not_wanted [OF assms(4)]
    by (force simp: stat_fields_def)
  also have "wanted 0 ?all = map ((!) ?all) spec_numbers"
    using assms(4) stat_fields_facts(2) [OF assms(1-3)] by (intro wanted_all) simp
  finally have "map (\<lambda>p. c_string (drop p (joined NUL ?all @ [NL, NUL]))) (found 0 0 ?all) = map ((!) ?all) spec_numbers" .
  note strings = foldl_rows_map [OF this]
  show ?thesis
    unfolding parse_stat_def scan bind_res_simps prod.case scan_at_sel strings by (simp add: spec_numbers_def)
qed

text \<open>
  C14: \<open>parse_stat\<close> extracts the fields of its table and no others. From a line with at least forty
  fields it appends, in this order and each after a blank, the process number, the name with its
  parentheses and with underscores for blanks, and the fields 3, 13, 14, 15, 16, 19, 21 and 38, whatever
  the name contains but a closing parenthesis. This holds provided the memory behind the table can be
  read and does not hold the number of a later field.
\<close>

theorem parse_stat_fields:
  assumes "plain pid" "comm_ok nm" "\<forall>f \<in> set fs. plain f" "38 \<le> length fs"
    and "after = Some v" "\<not> (39 \<le> v \<and> v < int (length fs) + 2)"
  shows "parse_stat after (stat_line pid nm fs @ [NL, NUL]) row
     = Inr (row @ concat (map (\<lambda>k. '' '' @ stat_fields pid nm fs ! k) [0, 1, 3, 13, 14, 15, 16, 19, 21, 38]))"
  by (rule parse_stat_line [OF assms])

theorem parse_stat_fields_witness:
  "parse_stat (Some 0) (stat_line ''7'' ''a b'' (replicate 50 ''5'') @ [NL, NUL]) ''S'' = Inr ''S 7 (a_b) 5 5 5 5 5 5 5 5''"
  using parse_stat_fields [of "''7''" "''a b''" "replicate 50 ''5''" "Some 0" 0 "''S''"]
  by (simp add: plain_def comm_ok_def NUL_def stat_fields_def underscore_def nth_Cons')

text \<open>
  C38: the loop compares one entry too many. On a line with more than thirty-nine fields it reads the
  entry behind the table, which is a fault unless that memory can be read; on a shorter line it never does.
  The stat files of Linux have fifty-two fields.
\<close>

theorem parse_stat_overrun:
  assumes "plain pid" "comm_ok nm" "\<forall>f \<in> set fs. plain f" "fs \<noteq> []"
  shows "parse_stat None (stat_line pid nm fs @ [NL, NUL]) row = Inl OutOfBounds \<longleftrightarrow> 38 \<le> length fs"
proof (cases "38 \<le> length fs")
  case True
  define pre where "pre = take 37 fs"
  obtain c t rest where fs: "fs = pre @ (c # t) # rest" and c: "c \<noteq> SP" "c \<noteq> NUL" "c \<noteq> NL"
  proof -
    have f: "plain (fs ! 37)" "fs = pre @ fs ! 37 # drop 38 fs"
      using True assms(3) id_take_nth_drop [of 37 fs] by (simp_all add: pre_def)
    then obtain c t where "fs ! 37 = c # t" by (cases "fs ! 37") (auto simp: plain_def)
    with f that [of c t "drop 38 fs"] show ?thesis by (auto simp: plain_def)
  qed
  have pre: "length pre = 37" "pre \<noteq> []" "\<forall>f \<in> set pre. plain f" using True assms(3) by (auto simp: pre_def dest: in_set_takeD)
  obtain q where q: "stat_line pid nm fs @ [NL, NUL] = stat_line pid nm pre @ SP # c # q"
  proof -
    have "joined SP (xs @ (c # t) # rest) = joined SP xs @ SP # c # tl (joined SP ((c # t) # rest))" if "xs \<noteq> []" for xs
      using that by (induction xs rule: induct_list012) (cases rest; simp add: joined_Cons)+
    from this [of "pid # (''('' @ nm @ '')'') # pre"] show ?thesis using that by (simp add: stat_line_def fs)
  qed
  have "wanted_before 39 = 10" by (simp add: wanted_before_def spec_numbers_def)
  then have "scan_loop None i (c # q) (scan_at ps 39 False 2) = Inl OutOfBounds" for i ps
    using c by (simp add: scan_loop.simps(2) scan_char_def open_field_def spec_field_after)
  moreover have "scan_loop None 0 (stat_line pid nm pre @ SP # c # q) scan_new
      = put_front (joined NUL (stat_fields pid nm pre)) (scan_loop None (length (joined NUL (stat_fields pid nm pre))) (SP # c # q)
            (scan_at (found 0 0 (stat_fields pid nm pre)) 39 True 2))"
    using scan_line [OF assms(1,2) pre(2,3), of None] pre(1) by (simp add: compares_small)
  ultimately have "scan_loop None 0 (stat_line pid nm pre @ SP # c # q) scan_new = Inl OutOfBounds" by (simp add: scan_blank)
  with True show ?thesis by (simp add: parse_stat_def q)
next
  case False
  then have "\<forall>k < length fs + 2. compares None k" by (simp add: compares_small)
  from scan_line [OF assms(1,2,4,3) this, of "[NL, NUL]"] False show ?thesis
    by (simp add: parse_stat_def scan_loop.simps(2))
qed

theorem parse_stat_overrun_witness:
  "parse_stat None (stat_line ''7'' ''sh'' (replicate 50 ''5'') @ [NL, NUL]) [] = Inl OutOfBounds"
  using parse_stat_overrun [of "''7''" "''sh''" "replicate 50 ''5''" "[]"] by (simp add: plain_def comm_ok_def NUL_def)

end
