(* ===== verification/Ferret_Process.thy ===== *)
theory Ferret_Process
  imports Utility
begin

text \<open>
  The post-processing half of \<open>ferret.cpp\<close>: the class \<open>FerretProcess\<close>, which accumulates the load of
  one thread, and \<open>postprocess_ferret_data\<close>, which reads the file a run has written row by row and sums
  it up. The JSON library is an argument, and so is the content of the file.
\<close>

section \<open>Functions on doubles\<close>

definition dln :: "double \<Rightarrow> double" where
  "dln d = (case d of DFin x \<Rightarrow> (if 0 < x then DFin (ln x) else if x = 0 then DNegInf else DNaN)
     | DPosInf \<Rightarrow> DPosInf | _ \<Rightarrow> DNaN)"

definition dexp :: "double \<Rightarrow> double" where
  "dexp d = (case d of DFin x \<Rightarrow> DFin (exp x) | DPosInf \<Rightarrow> DPosInf | DNegInf \<Rightarrow> DFin 0 | DNaN \<Rightarrow> DNaN)"

definition dsub :: "double \<Rightarrow> double \<Rightarrow> double" where
  "dsub a b = dadd a (dmul (DFin (- 1)) b)"

fun dgreater :: "double \<Rightarrow> double \<Rightarrow> bool" where
  "dgreater (DFin a) (DFin b) = (b < a)"
| "dgreater DPosInf b = (b \<noteq> DPosInf \<and> b \<noteq> DNaN)"
| "dgreater a DNegInf = (a \<noteq> DNegInf \<and> a \<noteq> DNaN)"
| "dgreater _ _ = False"

lemma dsub_fin [simp]: "dsub (DFin a) (DFin b) = DFin (a - b)"
  by (simp add: dsub_def)

section \<open>FerretProcess\<close>

record 'j ferret_process =
  fp_label :: string
  fp_first :: double
  fp_last :: double
  jiffyPeriod :: double
  jiffies :: i32
  totJiffiesAllCpus :: i32
  mcyc :: 'j
  totJiffies :: 'j
  freqLogSums :: 'j
  numFreqLogSums :: 'j

definition int_string :: "i32 \<Rightarrow> string" where
  "int_string n = show_int (sint n)"

definition set_each :: "'j json_ops \<Rightarrow> 'j \<Rightarrow> i32 list \<Rightarrow> 'j" where
  "set_each J x cpus = foldl (\<lambda>v i. j_set J v (int_string i) x) (j_null J) cpus"

definition FerretProcess_new :: "'j json_ops \<Rightarrow> i32 \<Rightarrow> i32 list \<Rightarrow> 'j ferret_process" where
  "FerretProcess_new J schedTickHz cpus =
     \<lparr>fp_label = [], fp_first = DFin 0, fp_last = DFin 0,
      jiffyPeriod = ddiv (DFin 1) (double_of_int (sint schedTickHz)), jiffies = 0, totJiffiesAllCpus = 0,
      mcyc = set_each J (j_of_int J 0) cpus, totJiffies = set_each J (j_of_int J 0) cpus,
      freqLogSums = set_each J (j_of_double J (DFin 0)) cpus, numFreqLogSums = set_each J (j_of_int J 0) cpus\<rparr>"

definition process_add ::
  "'j json_ops \<Rightarrow> string \<Rightarrow> double \<Rightarrow> i32 \<Rightarrow> double \<Rightarrow> i32 \<Rightarrow> 'j ferret_process \<Rightarrow> 'j ferret_process" where
  "process_add J nlabel ts njiffies freq cpuNr p =
     (let k = int_string cpuNr;
          p = p\<lparr>fp_label := nlabel\<rparr>;
          p = (if fp_first p = DFin 0 then p\<lparr>fp_first := ts, jiffies := njiffies\<rparr> else p);
          p = p\<lparr>fp_last := ts\<rparr>;
          diffJiffy = njiffies - jiffies p;
          p = p\<lparr>jiffies := njiffies, totJiffiesAllCpus := totJiffiesAllCpus p + diffJiffy,
                totJiffies := j_set J (totJiffies p) k (j_of_int J (scast (j_asInt J (j_at J (totJiffies p) k) + diffJiffy)))\<rparr> in
      if freq \<noteq> DFin 0
      then p\<lparr>mcyc := j_set J (mcyc p) k (j_of_double J (dadd (j_asDouble J (j_at J (mcyc p) k))
               (dmul (dmul (double_of_int (sint diffJiffy)) (jiffyPeriod p)) freq))),
             freqLogSums := j_set J (freqLogSums p) k (j_of_double J (dadd (j_asDouble J (j_at J (freqLogSums p) k)) (dln freq))),
             numFreqLogSums := j_set J (numFreqLogSums p) k (j_of_int J (scast (j_asInt J (j_at J (numFreqLogSums p) k) + 1)))\<rparr>
      else p)"

definition duration :: "'j ferret_process \<Rightarrow> double" where
  "duration p = dsub (fp_last p) (fp_first p)"

definition active_jiffies :: "'j ferret_process \<Rightarrow> i32" where
  "active_jiffies p = totJiffiesAllCpus p"

text \<open>The members of \<open>summary\<close>; \<open>cpu_active\<close> and \<open>cpu_MHz\<close> are the values for one CPU.\<close>

definition cpu_active :: "'j json_ops \<Rightarrow> 'j ferret_process \<Rightarrow> string \<Rightarrow> double" where
  "cpu_active J p k = dmul (double_of_int (sint (j_asInt J (j_at J (totJiffies p) k)))) (jiffyPeriod p)"

definition cpu_MHz :: "'j json_ops \<Rightarrow> 'j ferret_process \<Rightarrow> string \<Rightarrow> 'j" where
  "cpu_MHz J p k =
     (let numFreqs = scast (j_asInt J (j_at J (numFreqLogSums p) k)) :: u64 in
      if numFreqs = 0 then j_of_int J 0
      else j_of_double J (dexp (ddiv (j_asDouble J (j_at J (freqLogSums p) k)) (double_of_int (uint numFreqs)))))"

definition sum_over :: "('k \<Rightarrow> double) \<Rightarrow> 'k list \<Rightarrow> double" where
  "sum_over f ks = foldl (\<lambda>d k. dadd d (f k)) (DFin 0) ks"

definition process_summary :: "'j json_ops \<Rightarrow> string \<Rightarrow> 'j ferret_process \<Rightarrow> 'j" where
  "process_summary J pid p =
     (let active = dmul (jiffyPeriod p) (double_of_int (sint (active_jiffies p))) in
      if active = DFin 0 then j_null J
      else
        let cpu_keys = j_getMemberNames J (totJiffies p);
            r = j_set J (j_null J) ''pid'' (j_of_string J pid);
            r = j_set J r ''name'' (j_of_string J (fp_label p));
            r = j_set J r ''duration'' (j_of_double J (duration p));
            actives = foldl (\<lambda>v k. j_set J v k (j_of_double J (cpu_active J p k))) (j_null J) cpu_keys;
            r = j_set J r ''active_sum'' (j_of_double J (sum_over (cpu_active J p) cpu_keys));
            r = j_set J r ''active'' actives;
            r = j_set J r ''MCyc_sum'' (j_of_double J (sum_over (\<lambda>k. j_asDouble J (j_at J (mcyc p) k)) cpu_keys));
            r = j_set J r ''MCyc'' (mcyc p);
            r = j_set J r ''MHz'' (j_null J) in
        foldl (\<lambda>r k. j_set J r ''MHz'' (j_set J (j_at J r ''MHz'') k (cpu_MHz J p k))) r cpu_keys)"

section \<open>Rows of the file\<close>

text \<open>An element of a row; a row is a vector that is not checked.\<close>

definition row_at :: "string list \<Rightarrow> nat \<Rightarrow> string result" where
  "row_at row i = (if i < length row then Inr (row ! i) else Inl OutOfBounds)"

definition infoTypeMap :: "(string \<times> nat) list" where
  "infoTypeMap = [(''_SC_CLK_TCK'', 0), (''CPUList'', 1), (''WatchList'', 2), (''Status'', 3)]"

text \<open>\<open>infoTypeMap[infoType]\<close>: a name that is not in the map gets the value zero.\<close>

definition info_type :: "string \<Rightarrow> nat" where
  "info_type t = (case map_of infoTypeMap t of None \<Rightarrow> 0 | Some n \<Rightarrow> n)"

definition array_of :: "'j json_ops \<Rightarrow> 'j list \<Rightarrow> 'j" where
  "array_of J xs = foldl (j_append J) (j_array J) xs"

definition read_cpu :: "i32 list \<Rightarrow> string \<Rightarrow> i32 list result" where
  "read_cpu cpus s = bind_res (stoi s) (\<lambda>n. if n \<in> set cpus then Inl AssertFailed else Inr (cpus @ [n]))"

definition ferret_process_info :: "'j json_ops \<Rightarrow> string list \<Rightarrow> 'j \<Rightarrow> 'j result" where
  "ferret_process_info J row props =
     bind_res (row_at row 1) (\<lambda>infoType.
       let typeID = info_type infoType in
       if typeID = 0 then
         bind_res (row_at row 2) (\<lambda>t. bind_res (stoi t) (\<lambda>n. Inr (j_set J props ''tick'' (j_of_int J (scast n)))))
       else if typeID = 1 then
         bind_res (fold_res read_cpu [] (drop 2 row)) (\<lambda>cpus.
           Inr (j_set J props ''cpus'' (array_of J (map (\<lambda>n. j_of_int J (scast n)) (sort_key sint cpus)))))
       else if typeID = 2 then Inr (j_set J props ''watch'' (array_of J (map (j_of_string J) (drop 2 row))))
       else Inr (j_set J props ''stat_fields'' (array_of J (map (j_of_string J) (drop 2 row)))))"

definition ferret_process_time :: "'j json_ops \<Rightarrow> string list \<Rightarrow> 'j \<Rightarrow> 'j result" where
  "ferret_process_time J row st =
     bind_res (row_at row 1) (\<lambda>t. bind_res (stol t) (\<lambda>n.
       Inr (j_set J (j_clear J st) ''time'' (j_of_double J (dmul (double_of_int (uint n)) (DFin (1 / 1000000)))))))"

text \<open>The name of field \<open>i\<close>; an index past the end of the array reads as null.\<close>

definition stat_field_name :: "'j json_ops \<Rightarrow> 'j \<Rightarrow> nat \<Rightarrow> string" where
  "stat_field_name J props i =
     (let fs = j_elements J (j_at J props ''stat_fields'') in j_asString J (if i < length fs then fs ! i else j_null J))"

definition status_field :: "'j json_ops \<Rightarrow> 'j \<Rightarrow> 'j \<times> string \<Rightarrow> nat \<times> string \<Rightarrow> ('j \<times> string) result" where
  "status_field J props acc f =
     (case acc of (dict, pid) \<Rightarrow> case f of (i, s) \<Rightarrow>
      let nm = stat_field_name J props i in
      if nm = ''comm'' then
        (if length s < 2 then Inl OutOfBounds else Inr (j_set J dict nm (j_of_string J (butlast (tl s))), pid))
      else bind_res (stoi s) (\<lambda>n. Inr (j_set J dict nm (j_of_int J (scast n)), if nm = ''pid'' then s else pid)))"

definition ferret_process_status :: "'j json_ops \<Rightarrow> 'j \<Rightarrow> string list \<Rightarrow> 'j \<Rightarrow> 'j result" where
  "ferret_process_status J props row st =
     bind_res (fold_res (status_field J props) (j_null J, []) (enumerate 0 (tl row))) (\<lambda>(dict, pid).
       let st = (if j_isMember J st ''pid'' then st else j_set J st ''pid'' (j_null J)) in
       Inr (j_set J st ''pid'' (j_set J (j_at J st ''pid'') pid dict)))"

definition freqScale :: "i32 \<Rightarrow> double" where
  "freqScale freq = ddiv (double_of_int (sint freq)) (DFin 1000)"

text \<open>The elements of a row alternate between CPU numbers and frequencies.\<close>

fun alternate :: "string list \<Rightarrow> string list \<times> string list" where
  "alternate [] = ([], [])"
| "alternate [a] = ([a], [])"
| "alternate (a # b # xs) = (case alternate xs of (as, bs) \<Rightarrow> (a # as, b # bs))"

definition ferret_process_cpu :: "'j json_ops \<Rightarrow> string list \<Rightarrow> 'j \<Rightarrow> 'j result" where
  "ferret_process_cpu J row st =
     (case alternate (tl row) of (nrs, freqs) \<Rightarrow>
      bind_res (fold_res (\<lambda>fs s. bind_res (stoi s) (\<lambda>n. Inr (fs @ [freqScale n]))) [] freqs) (\<lambda>fs.
        if length fs < length nrs then Inl OutOfBounds
        else Inr (j_set J st ''cpu'' (foldl (\<lambda>v (k, f). j_set J v k (j_of_double J f)) (j_null J) (zip nrs fs)))))"

section \<open>The reader\<close>

record 'j reader =
  rd_state :: 'j
  traceProperties :: 'j
  pidHistory :: "(string, 'j ferret_process) std_map"
  initData :: bool
  started :: bool
  traceStart :: double
  traceEnd :: double
  cpuNrs :: "i32 list"
  tick :: i32

definition reader_new :: "'j json_ops \<Rightarrow> 'j reader" where
  "reader_new J = \<lparr>rd_state = j_null J, traceProperties = j_null J, pidHistory = [], initData = False, started = False,
     traceStart = DFin 0, traceEnd = DFin 0, cpuNrs = [], tick = 100\<rparr>"

definition init_data :: "'j json_ops \<Rightarrow> 'j reader \<Rightarrow> 'j reader result" where
  "init_data J rd =
     (if initData rd then Inr rd
      else if \<not> j_isMember J (traceProperties rd) ''cpus'' then Inl AssertFailed
      else Inr (rd\<lparr>tick := j_asInt J (j_at J (traceProperties rd) ''tick''),
        cpuNrs := cpuNrs rd @ map (j_asInt J) (j_elements J (j_at J (traceProperties rd) ''cpus'')), initData := True\<rparr>))"

definition sample_pid :: "'j json_ops \<Rightarrow> string list \<Rightarrow> 'j reader \<Rightarrow> string \<Rightarrow> 'j reader result" where
  "sample_pid J banned rd pid =
     (let sample = rd_state rd; info = j_at J (j_at J sample ''pid'') pid; comm = j_asString J (j_at J info ''comm'') in
      if comm \<in> set banned then Inr rd
      else
        let processor = j_asInt J (j_at J info ''processor'') in
        if processor \<notin> set (cpuNrs rd) then Inl AssertFailed
        else
          let p = (case map_of (pidHistory rd) pid of None \<Rightarrow> FerretProcess_new J (tick rd) (cpuNrs rd) | Some p \<Rightarrow> p);
              ustime = j_asInt J (j_at J info ''utime'') + j_asInt J (j_at J info ''stime'');
              freq = j_asDouble J (j_at J (j_at J sample ''cpu'') (int_string processor)) in
          Inr (rd\<lparr>pidHistory := map_set pid
            (process_add J comm (j_asDouble J (j_at J sample ''time'')) ustime freq processor p) (pidHistory rd)\<rparr>))"

text \<open>A row of type \<open>T\<close> first accounts for the sample that ends with it.\<close>

definition end_sample :: "'j json_ops \<Rightarrow> string list \<Rightarrow> 'j reader \<Rightarrow> 'j reader result" where
  "end_sample J banned rd =
     (if j_empty J (rd_state rd) then Inr rd
      else bind_res (init_data J rd) (\<lambda>rd.
        let time = j_asDouble J (j_at J (rd_state rd) ''time'');
            rd = (if started rd then rd else rd\<lparr>traceStart := time, started := True\<rparr>);
            rd = rd\<lparr>traceEnd := time\<rparr> in
        fold_res (sample_pid J banned) rd (j_getMemberNames J (j_at J (rd_state rd) ''pid''))))"

definition process_row :: "'j json_ops \<Rightarrow> string list \<Rightarrow> 'j reader \<Rightarrow> string \<Rightarrow> 'j reader result" where
  "process_row J banned rd row =
     (let tokens = splitString (CHR '' '') (c_string row) in
      bind_res (row_at tokens 0) (\<lambda>t.
        let record_type = (case t of [] \<Rightarrow> NUL | c # _ \<Rightarrow> c) in
        bind_res (if record_type = CHR ''T'' then end_sample J banned rd else Inr rd) (\<lambda>rd.
          if record_type = CHR ''I'' then
            bind_res (ferret_process_info J tokens (traceProperties rd)) (\<lambda>v. Inr (rd\<lparr>traceProperties := v\<rparr>))
          else if record_type = CHR ''T'' then
            bind_res (ferret_process_time J tokens (rd_state rd)) (\<lambda>v. Inr (rd\<lparr>rd_state := v\<rparr>))
          else if record_type = CHR ''S'' then
            bind_res (ferret_process_status J (traceProperties rd) tokens (rd_state rd)) (\<lambda>v. Inr (rd\<lparr>rd_state := v\<rparr>))
          else if record_type = CHR ''F'' then
            bind_res (ferret_process_cpu J tokens (rd_state rd)) (\<lambda>v. Inr (rd\<lparr>rd_state := v\<rparr>))
          else if record_type = CHR ''#'' \<or> record_type = CHR ''E'' then Inr rd
          else Inl AssertFailed)))"

section \<open>The results\<close>

record 'j totals =
  tt_results :: "'j list"
  max_active :: double
  max_duration :: double
  mcycle_sum :: double
  max_index :: nat

definition totals_new :: "'j totals" where
  "totals_new = \<lparr>tt_results = [], max_active = DFin 0, max_duration = DFin 0, mcycle_sum = DFin 0, max_index = 0\<rparr>"

definition significant :: "double \<Rightarrow> 'j ferret_process \<Rightarrow> bool" where
  "significant len p \<longleftrightarrow> 0 < sint (active_jiffies p) \<and> dgreater (duration p) (dmul (DFin (1 / 100)) len)"

definition add_summary :: "'j json_ops \<Rightarrow> double \<Rightarrow> 'j totals \<Rightarrow> string \<times> 'j ferret_process \<Rightarrow> 'j totals" where
  "add_summary J len t pp =
     (case pp of (pid, p) \<Rightarrow>
      let psummary = process_summary J pid p in
      if significant len p then
        let t = t\<lparr>tt_results := tt_results t @ [psummary]\<rparr>;
            m = j_asDouble J (j_at J psummary ''MCyc_sum'');
            t = t\<lparr>mcycle_sum := dadd (mcycle_sum t) m\<rparr>;
            t = (if dgreater m (max_active t) then t\<lparr>max_active := m, max_index := length (tt_results t) - 1\<rparr> else t) in
        if dgreater (duration p) (max_duration t) then t\<lparr>max_duration := duration p\<rparr> else t
      else t)"

definition post_results :: "'j json_ops \<Rightarrow> 'j reader \<Rightarrow> 'j" where
  "post_results J rd =
     (let t = foldl (add_summary J (dsub (traceEnd rd) (traceStart rd))) totals_new (pidHistory rd);
          r = j_set J (j_null J) ''process_results'' (array_of J (tt_results t));
          r = j_set J r ''main_thread_index'' (j_of_int J (word_of_int (int (max_index t))));
          r = j_set J r ''main_thread_megacycles'' (j_of_double J (max_active t)) in
      j_set J r ''megacycles_sum'' (j_of_double J (mcycle_sum t)))"

text \<open>\<open>content\<close> is what the file holds, \<open>None\<close> when it cannot be opened.\<close>

definition postprocess_ferret_data :: "'j json_ops \<Rightarrow> string option \<Rightarrow> string list \<Rightarrow> 'j result" where
  "postprocess_ferret_data J content banned =
     (case content of None \<Rightarrow> Inl AssertFailed
      | Some text_ \<Rightarrow>
        let rows = splitString (CHR 0x0A) text_ in
        bind_res (fold_res (process_row J banned) (reader_new J) rows) (\<lambda>rd.
          if rows = [] then Inl AssertFailed else Inr (post_results J rd)))"

end
