(* ===== verification/Ferret.thy ===== *)
theory Ferret
  imports Ferret_Stat Ferret_Process Collection Sysfs
begin

text \<open>
  \<open>FerretCollector\<close> (\<open>ferret.cpp\<close>, \<open>ferret.hpp\<close>): the collector that records the load of processes
  in a trace file. It polls the frequency of every monitored CPU and the stat file of every thread of the
  monitored processes, writes what it reads as rows of text, and on request sums the file up when it stops.
  The files, the process directory and the status pipe are arguments, as is the memory behind the table
  of \<open>parse_stat\<close>. The two function-local statics, the number of the next file and the last status sent,
  are part of the state the methods run on.
\<close>

section \<open>State\<close>

record ferret_state =
  mInitSuccess :: bool
  mEnablePostprocess :: bool
  mClockTicks :: i64
  mCpus :: "i32 list"
  mBannedThreads :: "string list"
  mOutputDir :: string
  mTraceFd :: int
  mStatusFd :: i32
  mPid :: string
  mProcessNames :: "string list"
  mPids :: "string list"
  mWatchList :: "string list"
  mFirstCollect :: i64
  mPollTimeout :: i64
  mPidFdMap :: "(string, int) std_map"
  mCpufreqFdMap :: "(int, int) std_map"

record 'w ferret_world =
  increment :: i32
  lastStatus :: i32
  os :: 'w

text \<open>
  \<open>fo_read\<close> gives what was read, empty at the end of a file and on an error; \<open>fo_dir\<close> the entries of a
  directory; \<open>fo_enfile\<close> is whether \<open>errno\<close> is \<open>ENFILE\<close>; \<open>fo_seek\<close> whether \<open>lseek(fd, 0, SEEK_SET)\<close> gave
  zero; \<open>fo_status\<close> writes the bytes of a status; \<open>fo_content\<close> is what a file holds, for the stream that
  reads it back.
\<close>

record 'w ferret_ops =
  fo_clk_tck :: "'w \<Rightarrow> i64"
  fo_getpid :: "'w \<Rightarrow> i32"
  fo_exists :: "string \<Rightarrow> 'w \<Rightarrow> bool"
  fo_dir :: "string \<Rightarrow> 'w \<Rightarrow> string list option"
  fo_content :: "string \<Rightarrow> 'w \<Rightarrow> string option"
  fo_enfile :: "'w \<Rightarrow> bool"
  fo_open :: "string \<Rightarrow> 'w \<Rightarrow> int \<times> 'w"
  fo_create :: "string \<Rightarrow> 'w \<Rightarrow> int \<times> 'w"
  fo_unlink :: "string \<Rightarrow> 'w \<Rightarrow> 'w"
  fo_seek :: "int \<Rightarrow> 'w \<Rightarrow> bool \<times> 'w"
  fo_close :: "int \<Rightarrow> 'w \<Rightarrow> 'w"
  fo_read :: "int \<Rightarrow> nat \<Rightarrow> 'w \<Rightarrow> string \<times> 'w"
  fo_write :: "int \<Rightarrow> string \<Rightarrow> 'w \<Rightarrow> int \<times> 'w"
  fo_status :: "int \<Rightarrow> i32 \<Rightarrow> 'w \<Rightarrow> 'w"

section \<open>Construction\<close>

definition freq_file :: "int \<Rightarrow> string" where
  "freq_file n = ''/sys/devices/system/cpu/cpu'' @ show_int n @ ''/cpufreq/scaling_cur_freq''"

definition get_cpu_cores :: "'w ferret_ops \<Rightarrow> 'w \<Rightarrow> i32 list" where
  "get_cpu_cores F w = map of_nat (filter (\<lambda>i. fo_exists F (freq_file (int i)) w) [0..<256])"

text \<open>\<open>while (mOutputDir[mOutputDir.size() - 1] == '/')\<close>: an empty string is read out of bounds.\<close>

function strip_slashes :: "string \<Rightarrow> string result" where
  "strip_slashes s =
     (if s = [] then Inl OutOfBounds else if last s = CHR ''/'' then strip_slashes (butlast s) else Inr s)"
  by pat_completeness auto
termination by (relation "measure length") auto

declare strip_slashes.simps [simp del]

definition config_list :: "'j json_ops \<Rightarrow> 'j \<Rightarrow> string \<Rightarrow> 'j list" where
  "config_list J cfg k = (if j_isArray J (j_at J cfg k) then j_elements J (j_at J cfg k) else [])"

definition config_cpus :: "'j json_ops \<Rightarrow> 'w ferret_ops \<Rightarrow> 'j \<Rightarrow> 'w \<Rightarrow> i32 list" where
  "config_cpus J F cfg w =
     (if j_isMember J cfg ''cpus'' then map (j_asInt J) (config_list J cfg ''cpus'') else get_cpu_cores F w)"

definition config_banned :: "'j json_ops \<Rightarrow> 'j \<Rightarrow> string list" where
  "config_banned J cfg =
     (if j_isMember J cfg ''banned_threads'' then map (j_asString J) (config_list J cfg ''banned_threads'')
      else if j_isMember J cfg ''enable_postprocessing'' then [''ferret''] else [])"

definition config_output :: "'j json_ops \<Rightarrow> 'j \<Rightarrow> string result" where
  "config_output J cfg =
     (if j_isMember J cfg ''output_dir'' \<and> j_isString J (j_at J cfg ''output_dir'')
      then strip_slashes (j_asString J (j_at J cfg ''output_dir'')) else Inr [])"

text \<open>\<open>junk\<close> has the values of the fields that the constructor leaves uninitialised.\<close>

definition FerretCollector_new ::
  "'j json_ops \<Rightarrow> 'w ferret_ops \<Rightarrow> 'j \<Rightarrow> string \<Rightarrow> int \<times> i64 \<times> i64 \<Rightarrow> 'w \<Rightarrow> ('j, ferret_state) collector_scheme result" where
  "FerretCollector_new J F config nm junk w =
     (let base = Collector_new J config nm; cfg = mConfig base; ticks = fo_clk_tck F w;
          named = j_isMember J cfg ''process_names'' \<and> j_isArray J (j_at J cfg ''process_names'');
          s = \<lparr>mInitSuccess = False, mEnablePostprocess = j_isMember J cfg ''enable_postprocessing'', mClockTicks = ticks,
               mCpus = config_cpus J F cfg w, mBannedThreads = config_banned J cfg, mOutputDir = [],
               mTraceFd = fst junk,
               mStatusFd = (if named then j_asInt J (j_get J cfg ''status_fd'' (j_of_int J (- 1))) else - 1),
               mPid = int_string (fo_getpid F w),
               mProcessNames = (if named then map (j_asString J) (config_list J cfg ''process_names'') else []),
               mPids = [], mWatchList = [], mFirstCollect = fst (snd junk),
               mPollTimeout = (if named then scast (j_asInt J (j_get J cfg ''poll_timeout'' (j_of_int J 30))) else snd (snd junk)),
               mPidFdMap = [], mCpufreqFdMap = []\<rparr> in
      bind_res (config_output J cfg) (\<lambda>out.
        let c = collector.extend base (s\<lparr>mOutputDir := out\<rparr>) in
        if j_isMember J cfg ''threaded'' then Inr c
        else bind_res (sdiv64 1000 (2 * ticks)) (\<lambda>r. Inr (c\<lparr>mIsThreaded := True, mSampleRate := ucast r\<rparr>))))"

section \<open>File descriptors\<close>

text \<open>Opening a file that is read again and again: its descriptor, or nothing; too many files end the program.\<close>

definition open_rewound :: "'w ferret_ops \<Rightarrow> string \<Rightarrow> 'w \<Rightarrow> (int option \<times> 'w) result" where
  "open_rewound F nm w =
     (case fo_open F nm w of (h, w1) \<Rightarrow>
      if h < 0 then (if fo_enfile F w1 then Inl AssertFailed else Inr (None, w1))
      else case fo_seek F h w1 of (ok, w2) \<Rightarrow> Inr (if ok then (Some h, w2) else (None, fo_close F h w2)))"

definition open_into ::
  "'w ferret_ops \<Rightarrow> 'k :: linorder \<Rightarrow> string \<Rightarrow> ('k, int) std_map \<times> 'w \<Rightarrow> (('k, int) std_map \<times> 'w) result" where
  "open_into F k nm acc =
     (case acc of (m, w) \<Rightarrow>
      if map_of m k \<noteq> None then Inr (m, w)
      else bind_res (open_rewound F nm w) (\<lambda>(h, w'). Inr (case h of None \<Rightarrow> m | Some h \<Rightarrow> map_set k h m, w')))"

definition open_cpufreq_fds ::
  "'w ferret_ops \<Rightarrow> i32 list \<Rightarrow> (int, int) std_map \<Rightarrow> 'w \<Rightarrow> ((int, int) std_map \<times> 'w) result" where
  "open_cpufreq_fds F cpus m w = fold_res (\<lambda>acc cpu. open_into F (sint cpu) (freq_file (sint cpu)) acc) (m, w) cpus"

definition close_cpufreq_fds :: "'w ferret_ops \<Rightarrow> (int, int) std_map \<Rightarrow> 'w \<Rightarrow> 'w" where
  "close_cpufreq_fds F m w = foldl (\<lambda>w (_, h). fo_close F h w) w m"

definition open_pid_fd ::
  "'w ferret_ops \<Rightarrow> string \<Rightarrow> string \<Rightarrow> (string, int) std_map \<times> 'w \<Rightarrow> ((string, int) std_map \<times> 'w) result" where
  "open_pid_fd F prefix pid acc = open_into F pid (prefix @ ''/'' @ pid @ ''/stat'') acc"

definition enumerate_tasks ::
  "'w ferret_ops \<Rightarrow> (string, int) std_map \<times> 'w \<Rightarrow> string \<Rightarrow> ((string, int) std_map \<times> 'w) result" where
  "enumerate_tasks F acc pid =
     (let taskDir = ''/proc/'' @ pid @ ''/task'' in
      case fo_dir F taskDir (snd acc) of None \<Rightarrow> Inr acc
      | Some entries \<Rightarrow> fold_res (\<lambda>acc d. if d \<noteq> [] \<and> c_isdigit (hd d) then open_pid_fd F taskDir d acc else Inr acc) acc entries)"

definition open_pid_fds ::
  "'w ferret_ops \<Rightarrow> (string, int) std_map \<times> 'w \<Rightarrow> string \<Rightarrow> ((string, int) std_map \<times> 'w) result" where
  "open_pid_fds F acc pid = bind_res (open_pid_fd F ''/proc'' pid acc) (\<lambda>acc. enumerate_tasks F acc pid)"

definition close_pid_fds :: "'w ferret_ops \<Rightarrow> (string, int) std_map \<Rightarrow> 'w \<Rightarrow> 'w" where
  "close_pid_fds F m w = foldl (\<lambda>w (_, h). if h < 0 then w else fo_close F h w) w m"

section \<open>Processes by name\<close>

fun poll_entries :: "'w ferret_ops \<Rightarrow> string \<Rightarrow> string list \<Rightarrow> 'w \<Rightarrow> (i32 \<times> 'w) result" where
  "poll_entries F nm [] w = Inr (0, w)"
| "poll_entries F nm (d # ds) w =
     (if d \<noteq> [] \<and> c_isdigit (hd d) then
        (case fo_open F (''/proc/'' @ d @ ''/cmdline'') w of (h, w1) \<Rightarrow>
         if 0 < h then
           (case fo_read F h 100 w1 of (data, w2) \<Rightarrow>
            let w3 = fo_close F h w2 in
            if data \<noteq> [] \<and> c_string nm = c_string data then Inr (ucast (fst (strtol d)), w3)
            else poll_entries F nm ds w3)
         else if fo_enfile F w1 then Inl AssertFailed else poll_entries F nm ds w1)
      else poll_entries F nm ds w)"

definition poll_for_named_process :: "'w ferret_ops \<Rightarrow> string \<Rightarrow> 'w \<Rightarrow> (i32 \<times> 'w) result" where
  "poll_for_named_process F nm w =
     (case fo_dir F ''/proc'' w of None \<Rightarrow> Inr (- 1, w) | Some entries \<Rightarrow> poll_entries F nm entries w)"

text \<open>The loop over the watch list: the processes found, and the names still sought.\<close>

fun poll_watch_list ::
  "'w ferret_ops \<Rightarrow> string list \<Rightarrow> string list \<Rightarrow> 'w \<Rightarrow> (string list \<times> string list \<times> 'w) result" where
  "poll_watch_list F [] pids w = Inr (pids, [], w)"
| "poll_watch_list F (nm # names) pids w =
     bind_res (poll_for_named_process F nm w) (\<lambda>(pid, w1).
       if 0 < sint pid then poll_watch_list F names (pids @ [int_string pid]) w1
       else if pid = 0 then bind_res (poll_watch_list F names pids w1) (\<lambda>(pids', left, w2). Inr (pids', nm # left, w2))
       else Inl AssertFailed)"

section \<open>The trace\<close>

definition trace_header :: "ferret_state \<Rightarrow> string" where
  "trace_header s =
     ''I _SC_CLK_TCK '' @ show_int (sint (mClockTicks s)) @ [NL]
     @ ''I CPUList'' @ concat (map (\<lambda>c. '' '' @ int_string c) (mCpus s)) @ [NL]
     @ ''I WatchList'' @ concat (map (\<lambda>nm. '' '' @ nm) (mWatchList s)) @ [NL]
     @ ''I Status'' @ concat (map (\<lambda>(l, _). '' '' @ l) pid_stat_spec) @ [NL]"

definition trace_write :: "'w ferret_ops \<Rightarrow> int \<Rightarrow> string \<Rightarrow> 'w \<Rightarrow> 'w" where
  "trace_write F h row w = snd (fo_write F h row w)"

text \<open>The row of errors and the row of frequencies, without the first letter and the end of the line.\<close>

fun read_freqs :: "'w ferret_ops \<Rightarrow> (int, int) std_map \<Rightarrow> string \<Rightarrow> string \<Rightarrow> 'w \<Rightarrow> string \<times> string \<times> 'w" where
  "read_freqs F [] err freq w = (err, freq, w)"
| "read_freqs F ((cpu, h) # m) err freq w =
     (case fo_read F h 100 w of (data, w1) \<Rightarrow>
      if data \<noteq> []
      then read_freqs F m err (freq @ '' '' @ show_int cpu @ '' '' @ c_string (butlast data)) (snd (fo_seek F h w1))
      else read_freqs F m (err @ '' (CPU '' @ show_int cpu @ '' freq read() failed)'') freq w1)"

definition collect_freqs :: "'w ferret_ops \<Rightarrow> int \<Rightarrow> (int, int) std_map \<Rightarrow> 'w \<Rightarrow> 'w" where
  "collect_freqs F out m w =
     (case read_freqs F m [] [] w of (err, freq, w) \<Rightarrow>
      let w = (if err \<noteq> [] then trace_write F out (''E'' @ err @ [NL]) w else w) in
      if freq \<noteq> [] then trace_write F out (''F'' @ freq @ [NL]) w else w)"

fun collect_perproc ::
  "int option \<Rightarrow> 'w ferret_ops \<Rightarrow> int \<Rightarrow> (string, int) std_map \<Rightarrow> 'w \<Rightarrow> ((string, int) std_map \<times> 'w) result" where
  "collect_perproc after F out [] w = Inr ([], w)"
| "collect_perproc after F out ((pid, h) # m) w =
     (if h < 0 then bind_res (collect_perproc after F out m w) (\<lambda>(m', w'). Inr ((pid, h) # m', w'))
      else case fo_read F h 4096 w of (data, w1) \<Rightarrow>
        if data \<noteq> [] then
          bind_res (parse_stat after (data @ [NUL]) []) (\<lambda>row.
          bind_res (collect_perproc after F out m (trace_write F out (''S'' @ row @ [NL]) (snd (fo_seek F h w1))))
            (\<lambda>(m', w'). Inr ((pid, h) # m', w')))
        else
          bind_res (collect_perproc after F out m (fo_close F h (trace_write F out (''E '' @ pid @ '' has gone'' @ [NL]) w1)))
            (\<lambda>(m', w'). Inr ((pid, - 1) # m', w')))"

definition notify :: "'w ferret_ops \<Rightarrow> i32 \<Rightarrow> i32 \<Rightarrow> 'w ferret_world \<Rightarrow> 'w ferret_world" where
  "notify F h status g =
     (if sint h < 0 then g
      else if lastStatus g \<noteq> status then g\<lparr>os := fo_status F (sint h) status (os g), lastStatus := status\<rparr>
      else g)"

section \<open>The collector\<close>

definition Ferret_init :: "bool \<Rightarrow> 'w ferret_ops \<Rightarrow> ('j, ferret_state, 'w ferret_world) vmethod" where
  "Ferret_init android_build F c g =
     (let s = collector.more c in
      if mInitSuccess s then Inr (True, c, g)
      else bind_res (open_cpufreq_fds F (mCpus s) (mCpufreqFdMap s) (os g)) (\<lambda>(cm, w).
        let ok = mCpus s \<noteq> [] \<and> length cm = length (mCpus s) in
        bind_res (if ok then fold_res (open_pid_fds F) (mPidFdMap s, w) (mPids s) else Inr (mPidFdMap s, w)) (\<lambda>(pm, w).
          let ok = ok \<and> \<not> (mOutputDir s = [] \<and> android_build) \<and> \<not> (mProcessNames s \<noteq> [] \<and> sint (mStatusFd s) < 0);
              dir = (if mOutputDir s = [] \<and> \<not> android_build then ''.'' else mOutputDir s);
              s' = s\<lparr>mInitSuccess := ok, mOutputDir := dir,
                     mCpufreqFdMap := (if ok then cm else []), mPidFdMap := (if ok then pm else [])\<rparr>;
              w' = (if ok then w else close_pid_fds F pm (close_cpufreq_fds F cm w)) in
          Inr (ok, set_private (\<lambda>_. s') c, g\<lparr>os := w'\<rparr>))))"

definition Ferret_deinit :: "'w ferret_ops \<Rightarrow> ('j, ferret_state, 'w ferret_world) vmethod" where
  "Ferret_deinit F c g =
     (let s = collector.more c in
      Inr (False, set_private (\<lambda>_. s\<lparr>mCpufreqFdMap := [], mPidFdMap := [], mInitSuccess := False\<rparr>) c,
        g\<lparr>os := close_pid_fds F (mPidFdMap s) (close_cpufreq_fds F (mCpufreqFdMap s) (os g))\<rparr>))"

definition Ferret_available :: "bool \<Rightarrow> 'w ferret_ops \<Rightarrow> ('j, ferret_state, 'w ferret_world) vmethod" where
  "Ferret_available android_build F c g =
     (if mInitSuccess (collector.more c) then Inr (True, c, g) else Ferret_init android_build F c g)"

definition output_name :: "string \<Rightarrow> i32 \<Rightarrow> string" where
  "output_name dir n = dir @ ''/ferret_run_'' @ int_string n @ ''.data''"

definition Ferret_start :: "'j json_ops \<Rightarrow> 'w ferret_ops \<Rightarrow> ('j, ferret_state, 'w ferret_world) vmethod" where
  "Ferret_start J F c g =
     (let s = collector.more c in
      if \<not> mInitSuccess s then Inr (False, c, g)
      else if mCollecting c then Inr (True, c, g)
      else
        let output = output_name (mOutputDir s) (increment g);
            s = s\<lparr>mFirstCollect := 0, mWatchList := mProcessNames s\<rparr>;
            c = c\<lparr>mCustomResult := j_set J (mCustomResult c) ''output'' (j_of_string J output)\<rparr> in
        case fo_create F output (fo_unlink F output (os g)) of (h, w) \<Rightarrow>
        let s = s\<lparr>mTraceFd := h\<rparr>; g = g\<lparr>increment := increment g + 1\<rparr> in
        if h < 0 then Inr (False, set_private (\<lambda>_. s) c, g\<lparr>os := w\<rparr>)
        else case fo_write F h (trace_header s) w of (wrote, w) \<Rightarrow>
          let success = \<not> wrote < int (length (trace_header s)) in
          Inr (success, set_private (\<lambda>_. s) (c\<lparr>mCollecting := success\<rparr>), g\<lparr>os := w\<rparr>))"

definition Ferret_stop :: "'j json_ops \<Rightarrow> 'w ferret_ops \<Rightarrow> ('j, ferret_state, 'w ferret_world) vmethod" where
  "Ferret_stop J F c g =
     (if \<not> mCollecting c then Inr (False, c, g)
      else
        let s = collector.more c; c = c\<lparr>mCollecting := False\<rparr>; w = fo_close F (mTraceFd s) (os g) in
        if mEnablePostprocess s then
          bind_res (postprocess_ferret_data J (fo_content F (j_asString J (j_at J (mCustomResult c) ''output'')) w) (mBannedThreads s))
            (\<lambda>v. Inr (True, c\<lparr>mCustomResult := j_set J (mCustomResult c) ''postprocessed_results'' v\<rparr>, g\<lparr>os := w\<rparr>))
        else Inr (True, c, g\<lparr>os := w\<rparr>))"

text \<open>Whether every monitored process has exited: those without an entry in the map count as running.\<close>

definition all_gone :: "string list \<Rightarrow> (string, int) std_map \<Rightarrow> bool" where
  "all_gone pids m \<longleftrightarrow> list_all (\<lambda>pid. case map_of m pid of None \<Rightarrow> False | Some h \<Rightarrow> h < 0) pids"

definition Ferret_collect ::
  "int option \<Rightarrow> 'w ferret_ops \<Rightarrow> i64 \<Rightarrow> ('j, ferret_state, 'w ferret_world) vmethod" where
  "Ferret_collect after F now c g =
     (let s = collector.more c in
      bind_res (assert_res (mInitSuccess s)) (\<lambda>_. bind_res (assert_res (mCollecting c)) (\<lambda>_.
        let first = (if mFirstCollect s = 0 then now else mFirstCollect s) in
        bind_res (poll_watch_list F (mWatchList s) (mPids s) (os g)) (\<lambda>(pids, left, w).
          let s = s\<lparr>mFirstCollect := first, mPids := pids, mWatchList := left\<rparr>; g = g\<lparr>os := w\<rparr> in
          if left \<noteq> [] then
            Inr (True, set_private (\<lambda>_. s) c,
              if sint (mPollTimeout s) * 1000000 < sint (now - first) then notify F (mStatusFd s) (- 1) g else g)
          else
            let g = notify F (mStatusFd s) 1 g in
            bind_res (fold_res (enumerate_tasks F) (mPidFdMap s, os g) (mPid s # pids)) (\<lambda>(pm, w).
            let w = collect_freqs F (mTraceFd s) (mCpufreqFdMap s)
              (trace_write F (mTraceFd s) (''T '' @ show_int (sint now) @ [NL]) w) in
            bind_res (collect_perproc after F (mTraceFd s) pm w) (\<lambda>(pm, w).
              Inr (True, set_private (\<lambda>_. s\<lparr>mPidFdMap := pm\<rparr>) c,
                if all_gone pids pm then notify F (mStatusFd s) 0 (g\<lparr>os := w\<rparr>) else g\<lparr>os := w\<rparr>)))))))"

definition ferret_vtable ::
  "int option \<Rightarrow> bool \<Rightarrow> 'j json_ops \<Rightarrow> 'w ferret_ops \<Rightarrow> ('j, ferret_state, 'w ferret_world) vtable" where
  "ferret_vtable after android_build J F =
     (base_vtable (Ferret_collect after F) (Ferret_available android_build F))
       \<lparr>v_init := Ferret_init android_build F, v_deinit := Ferret_deinit F,
        v_start := Ferret_start J F, v_stop := Ferret_stop J F\<rparr>"

section \<open>The contract\<close>

lemma ferret_init_same: "Ferret_init a F c g = Inr (b, c', g') \<Longrightarrow> same_results c c'"
  by (cases "mInitSuccess (collector.more c)") (clarsimp simp: Ferret_init_def Let_def)+

lemma ferret_deinit_same: "Ferret_deinit F c g = Inr (b, c', g') \<Longrightarrow> same_results c c'"
  by (auto simp: Ferret_deinit_def Let_def)

lemma ferret_available_same: "Ferret_available a F c g = Inr (b, c', g') \<Longrightarrow> same_results c c'"
  using ferret_init_same by (fastforce simp: Ferret_available_def split: if_splits)

lemma ferret_start_same: "Ferret_start J F c g = Inr (b, c', g') \<Longrightarrow> same_results c c'"
  by (auto simp: Ferret_start_def Let_def split: if_splits prod.splits)

lemma ferret_stop_same: "Ferret_stop J F c g = Inr (b, c', g') \<Longrightarrow> same_results c c'"
  by (auto simp: Ferret_stop_def Let_def split: if_splits)

lemma ferret_collect_same: "Ferret_collect after F now c g = Inr (b, c', g') \<Longrightarrow> same_results c c'"
  by (auto simp: Ferret_collect_def Let_def split: if_splits)

interpretation ferret: collector_class "ferret_vtable after android_build J F"
proof (unfold collector_class_iff, intro ballI)
  fix f assume "f \<in> methods (ferret_vtable after android_build J F)"
  then consider "f = Ferret_init android_build F" | "f = Ferret_deinit F" | "f = Ferret_available android_build F"
    | "f = Ferret_start J F" | "f = Ferret_stop J F" | now where "f = Ferret_collect after F now"
    | "f = pure_method (\<lambda>c. (True, c))" | ts where "f = result_method (Collector_postprocess ts)"
    | "f = void_method Collector_summarize" | "f = void_method (\<lambda>c. Inr (Collector_clear c))"
    unfolding methods_def ferret_vtable_def base_vtable_def by auto
  then show "keeps_contract f"
  proof cases
    case 1
    then show ?thesis by (simp only:) (rule keeps_same, rule ferret_init_same)
  next
    case 2
    then show ?thesis by (simp only:) (rule keeps_same, rule ferret_deinit_same)
  next
    case 3
    then show ?thesis by (simp only:) (rule keeps_same, rule ferret_available_same)
  next
    case 4
    then show ?thesis by (simp only:) (rule keeps_same, rule ferret_start_same)
  next
    case 5
    then show ?thesis by (simp only:) (rule keeps_same, rule ferret_stop_same)
  next
    case 6
    then show ?thesis by (simp only:) (rule keeps_same, rule ferret_collect_same)
  qed (auto intro: wf_intros)
qed

end
