(* ===== verification/Ferret_Runs.thy ===== *)
theory Ferret_Runs
  imports Ferret "HOL-Library.Multiset"
begin

text \<open>
  Runs of the ferret collector: the statuses it reports, the file descriptors it owns over any sequence of
  calls, and the output directories that its constructor cannot handle. The locale states what the
  collector relies on from the kernel about descriptors.
\<close>

section \<open>Statuses\<close>

text \<open>The values of a sequence that differ from the one before.\<close>

fun changes :: "i32 \<Rightarrow> i32 list \<Rightarrow> i32 list" where
  "changes prev [] = []"
| "changes prev (x # xs) = (if x = prev then changes prev xs else x # changes x xs)"

lemma changes_remdups_adj: "prev # changes prev xs = remdups_adj (prev # xs)"
  by (induction xs arbitrary: prev) auto

lemma notify_fold:
  "0 \<le> sint h \<Longrightarrow> foldl (\<lambda>g st. notify F h st g) g sts
     = g\<lparr>os := foldl (\<lambda>w st. fo_status F (sint h) st w) (os g) (changes (lastStatus g) sts), lastStatus := last (lastStatus g # sts)\<rparr>"
  by (induction sts arbitrary: g) (auto simp: notify_def)

text \<open>
  C39: the watcher is told about changes only. Whatever statuses a run reports, with a descriptor for
  statuses the values written to it are the reported ones without the repetitions, and
  no two values written one after the other are equal; the first is written unless it is the one that an
  earlier run wrote last. Without a descriptor nothing is written.
\<close>

theorem ferret_status_changes:
  "if sint h < 0 then foldl (\<lambda>g st. notify F h st g) g sts = g
   else os (foldl (\<lambda>g st. notify F h st g) g sts) = foldl (\<lambda>w st. fo_status F (sint h) st w) (os g) (changes (lastStatus g) sts)
       \<and> lastStatus g # changes (lastStatus g) sts = remdups_adj (lastStatus g # sts)
       \<and> distinct_adj (lastStatus g # changes (lastStatus g) sts)"
proof (cases "sint h < 0")
  case True
  then have "foldl (\<lambda>g st. notify F h st g) g sts = g" by (induction sts arbitrary: g) (simp_all add: notify_def)
  then show ?thesis using True by simp
next
  case False
  have r: "lastStatus g # changes (lastStatus g) sts = remdups_adj (lastStatus g # sts)" by (rule changes_remdups_adj)
  then have "distinct_adj (lastStatus g # changes (lastStatus g) sts)" by (metis distinct_adj_remdups_adj)
  then show ?thesis using False r notify_fold [of h F g sts] by simp
qed

section \<open>The output directory\<close>

lemma strip_slashes_cases:
  "if set s \<subseteq> {CHR ''/''} then strip_slashes s = Inl OutOfBounds
   else \<exists>r n. s = r @ replicate n (CHR ''/'') \<and> r \<noteq> [] \<and> last r \<noteq> CHR ''/'' \<and> strip_slashes s = Inr r"
proof (induction s rule: rev_induct)
  case Nil
  then show ?case by (simp add: strip_slashes.simps)
next
  case (snoc c s)
  show ?case
  proof (cases "c = CHR ''/''")
    case True
    then have e: "strip_slashes (s @ [c]) = strip_slashes s" by (subst strip_slashes.simps) simp
    show ?thesis
    proof (cases "set s \<subseteq> {CHR ''/''}")
      case False
      then obtain r n where "s = r @ replicate n (CHR ''/'')" "r \<noteq> []" "last r \<noteq> CHR ''/''" "strip_slashes s = Inr r"
        using snoc.IH by auto
      then have "s @ [c] = r @ replicate (Suc n) (CHR ''/'') \<and> r \<noteq> [] \<and> last r \<noteq> CHR ''/'' \<and> strip_slashes (s @ [c]) = Inr r"
        using True e by (simp add: replicate_append_same)
      moreover have "\<not> set (s @ [c]) \<subseteq> {CHR ''/''}" using False by auto
      ultimately show ?thesis unfolding if_not_P [OF \<open>\<not> set (s @ [c]) \<subseteq> _\<close>] by blast
    qed (use snoc.IH True e in simp)
  next
    case False
    then have "strip_slashes (s @ [c]) = Inr (s @ [c])" by (subst strip_slashes.simps) simp
    then show ?thesis using False by (auto intro!: exI [of _ "s @ [c]"] exI [of _ 0])
  qed
qed

text \<open>
  An output directory of slashes only, such as the root directory, or an empty one makes
  the constructor read before the start of the string; every other directory loses exactly its trailing slashes.
\<close>

theorem ferret_output_dir:
  assumes "j_isMember J cfg ''output_dir''" "j_isString J (j_at J cfg ''output_dir'')"
    and "j_asString J (j_at J cfg ''output_dir'') = dir"
  shows "(config_output J cfg = Inl OutOfBounds \<longleftrightarrow> set dir \<subseteq> {CHR ''/''})
    \<and> (\<not> set dir \<subseteq> {CHR ''/''} \<longrightarrow>
        (\<exists>r n. dir = r @ replicate n (CHR ''/'') \<and> r \<noteq> [] \<and> last r \<noteq> CHR ''/'' \<and> config_output J cfg = Inr r))"
  using strip_slashes_cases [of dir] assms by (auto simp: config_output_def split: if_splits)

theorem ferret_output_dir_witness:
  "config_output tree_json (JObject [(''output_dir'', JString ''/'')]) = Inl OutOfBounds"
  using ferret_output_dir [of tree_json "JObject [(''output_dir'', JString ''/'')]" "''/''"] by simp

section \<open>File descriptors\<close>

text \<open>
  What the kernel promises about descriptors: \<open>fds\<close> is the set of those that are open. A descriptor
  that is opened is a new one, closing one ends it, and no other call changes the set.
\<close>

locale descriptors =
  fixes F :: "'w ferret_ops"
    and fds :: "'w \<Rightarrow> int set"
  assumes fds_open: "fo_open F nm w = (h, w') \<Longrightarrow> if h < 0 then fds w' = fds w else h \<notin> fds w \<and> fds w' = insert h (fds w)"
    and fds_create: "fo_create F nm w = (h, w') \<Longrightarrow> if h < 0 then fds w' = fds w else h \<notin> fds w \<and> fds w' = insert h (fds w)"
    and fds_close: "fds (fo_close F h w) = fds w - {h}"
    and fds_seek: "fo_seek F h w = (ok, w') \<Longrightarrow> fds w' = fds w"
    and fds_read: "fo_read F h n w = (data, w') \<Longrightarrow> fds w' = fds w"
    and fds_write: "fo_write F h row w = (wrote, w') \<Longrightarrow> fds w' = fds w"
    and fds_status: "fds (fo_status F h st w) = fds w"
    and fds_unlink: "fds (fo_unlink F nm w) = fds w"

text \<open>The descriptors of a map that are still open.\<close>

definition live :: "('k, int) std_map \<Rightarrow> int list" where
  "live m = filter (\<lambda>h. 0 \<le> h) (map snd m)"

lemma live_set: "map_of m k = None \<Longrightarrow> 0 \<le> h \<Longrightarrow> mset (live (map_set k h m)) = add_mset h (mset (live m))"
  by (induction k h m rule: map_set.induct) (auto simp: live_def split: if_splits)

lemma live_set':
  assumes "map_of m k = None" "0 \<le> h"
  shows "set (live (map_set k h m)) = insert h (set (live m))" "distinct (live (map_set k h m)) \<longleftrightarrow> h \<notin> set (live m) \<and> distinct (live m)"
  using live_set [OF assms] by (metis set_mset_add_mset_insert set_mset_mset)
    (metis live_set [OF assms] mset_eq_imp_distinct_iff distinct.simps(2) mset.simps(2))

text \<open>The open descriptors are those of a map and the ones in \<open>R\<close>, which the map does not have.\<close>

definition tracks :: "('w \<Rightarrow> int set) \<Rightarrow> int set \<Rightarrow> ('k, int) std_map \<times> 'w \<Rightarrow> bool" where
  "tracks fds R mw \<longleftrightarrow> distinct (live (fst mw)) \<and> set (live (fst mw)) \<inter> R = {} \<and> fds (snd mw) = R \<union> set (live (fst mw))"

context descriptors
begin

lemma tracks_open_into:
  assumes "open_into F k nm mw = Inr mw'" "tracks fds R mw"
  shows "tracks fds R mw'"
proof (cases "map_of (fst mw) k")
  case (Some h)
  then show ?thesis using assms by (cases mw) (auto simp: open_into_def)
next
  case None
  obtain m w where mw: "mw = (m, w)" by (cases mw)
  obtain h w1 where o: "fo_open F nm w = (h, w1)" by (cases "fo_open F nm w")
  show ?thesis
  proof (cases "h < 0")
    case True
    then show ?thesis using assms None o fds_open [OF o] by (auto simp: mw open_into_def open_rewound_def tracks_def split: if_splits)
  next
    case False
    obtain ok w2 where sk: "fo_seek F h w1 = (ok, w2)" by (cases "fo_seek F h w1")
    have w: "h \<notin> fds w" "fds w2 = insert h (fds w)" using fds_open [OF o] fds_seek [OF sk] False by auto
    have "mw' = (if ok then (map_set k h m, w2) else (m, fo_close F h w2))"
      using assms(1) None o sk False by (auto simp: mw open_into_def open_rewound_def split: if_splits)
    then show ?thesis
      using assms(2) w None False live_set' [of m k h] fds_close [of h w2] by (auto simp: mw tracks_def)
  qed
qed

lemma tracks_cpufreq: "open_cpufreq_fds F cpus m w = Inr mw' \<Longrightarrow> tracks fds R (m, w) \<Longrightarrow> tracks fds R mw'"
  unfolding open_cpufreq_fds_def by (erule fold_res_invariant) (auto intro: tracks_open_into)

lemma tracks_enumerate: "enumerate_tasks F mw pid = Inr mw' \<Longrightarrow> tracks fds R mw \<Longrightarrow> tracks fds R mw'"
  by (auto simp: enumerate_tasks_def Let_def open_pid_fd_def split: option.splits if_splits
      elim!: fold_res_invariant intro: tracks_open_into)

lemma tracks_open_pid: "open_pid_fds F mw pid = Inr mw' \<Longrightarrow> tracks fds R mw \<Longrightarrow> tracks fds R mw'"
  by (auto simp: open_pid_fds_def open_pid_fd_def dest: tracks_open_into tracks_enumerate)

lemma fds_close_pids: "fds (close_pid_fds F m w) = fds w - set (live m)"
  unfolding close_pid_fds_def by (induction m arbitrary: w) (auto simp: live_def fds_close)

lemma fds_close_cpus: "list_all (\<lambda>h. 0 \<le> h) (map snd m) \<Longrightarrow> fds (close_cpufreq_fds F m w) = fds w - set (live m)"
  unfolding close_cpufreq_fds_def by (induction m arbitrary: w) (auto simp: live_def fds_close)

lemma fds_poll_entries: "poll_entries F nm ds w = Inr (pid, w') \<Longrightarrow> 0 \<in> fds w \<Longrightarrow> fds w' = fds w"
proof (induction ds arbitrary: w)
  case (Cons d ds)
  obtain h w1 where o: "fo_open F (''/proc/'' @ d @ ''/cmdline'') w = (h, w1)" by fastforce
  obtain data w2 where r: "fo_read F h 100 w1 = (data, w2)" by fastforce
  have w1: "h \<le> 0 \<Longrightarrow> fds w1 = fds w" "0 < h \<Longrightarrow> fds (fo_close F h w2) = fds w"
    using fds_open [OF o] fds_read [OF r] fds_close [of h w2] Cons.prems(2) by (auto split: if_splits)
  then show ?case
    using Cons.prems o r by (auto simp: Let_def split: if_splits dest: Cons.IH)
qed simp

lemma fds_poll_watch_list: "poll_watch_list F names pids w = Inr (pids', left, w') \<Longrightarrow> 0 \<in> fds w \<Longrightarrow> fds w' = fds w"
proof (induction names arbitrary: pids w left)
  case (Cons nm names)
  obtain pid w1 where p: "poll_for_named_process F nm w = Inr (pid, w1)" using Cons.prems(1) by auto
  then have "fds w1 = fds w" using fds_poll_entries Cons.prems(2) by (auto simp: poll_for_named_process_def split: option.splits)
  then show ?case using Cons.prems p by (auto split: if_splits dest: Cons.IH)
qed simp

lemma fds_trace_write: "fds (trace_write F h row w) = fds w"
  using fds_write [of h row w "fst (fo_write F h row w)"] by (simp add: trace_write_def)

lemma fds_seek_snd: "fds (snd (fo_seek F h w)) = fds w"
  using fds_seek [of h w "fst (fo_seek F h w)"] by simp

lemma fds_read_freqs: "read_freqs F m err freq w = (err', freq', w') \<Longrightarrow> fds w' = fds w"
proof (induction m arbitrary: err freq w)
  case (Cons ch m)
  obtain cpu h where "ch = (cpu, h)" by (cases ch)
  moreover obtain data w1 where r: "fo_read F h 100 w = (data, w1)" by fastforce
  ultimately show ?case
    using Cons.prems fds_read [OF r] by (auto simp: fds_seek_snd split: if_splits dest!: Cons.IH)
qed simp

lemma fds_collect_freqs: "fds (collect_freqs F out m w) = fds w"
  using fds_read_freqs by (auto simp: collect_freqs_def fds_trace_write Let_def split: prod.splits)

lemma tracks_perproc: "collect_perproc after F out m w = Inr (m', w') \<Longrightarrow> tracks fds R (m, w) \<Longrightarrow> tracks fds R (m', w')"
proof (induction m arbitrary: w m' R)
  case (Cons ph m)
  obtain pid h where ph: "ph = (pid, h)" by (cases ph)
  show ?case
  proof (cases "h < 0")
    case True
    have step: "tracks fds R ((pid, h) # m1, v) = tracks fds R (m1, v)" for m1 v
      using True by (simp add: tracks_def live_def)
    show ?thesis using Cons.prems Cons.IH [of w _ R] True ph by (auto simp: step)
  next
    case False
    obtain data w1 where r: "fo_read F h 4096 w = (data, w1)" by fastforce
    have w: "fds w1 = fds w" using fds_read [OF r] .
    have R: "distinct (live m)" "h \<notin> set (live m)" "set (live m) \<inter> insert h R = {}" "fds w = insert h R \<union> set (live m)" "h \<notin> R"
      using Cons.prems(2) False by (auto simp: tracks_def live_def ph)
    show ?thesis
    proof (cases "data = []")
      case True
      let ?w = "fo_close F h (trace_write F out (''E '' @ pid @ '' has gone'' @ [NL]) w1)"
      obtain m1 where m1: "collect_perproc after F out m ?w = Inr (m1, w')" "m' = (pid, - 1) # m1"
        using Cons.prems(1) False r True by (auto simp: ph)
      have "tracks fds R (m, ?w)" using R w by (auto simp: tracks_def fds_close fds_trace_write)
      from Cons.IH [OF m1(1) this] show ?thesis by (simp add: m1(2) tracks_def live_def)
    next
      case nonempty: False
      obtain row m1 where m1: "collect_perproc after F out m (trace_write F out (''S'' @ row @ [NL]) (snd (fo_seek F h w1))) = Inr (m1, w')"
        "m' = (pid, h) # m1"
        using Cons.prems(1) False r nonempty by (auto simp: ph)
      have "tracks fds (insert h R) (m, trace_write F out (''S'' @ row @ [NL]) (snd (fo_seek F h w1)))"
        using R w by (auto simp: tracks_def fds_seek_snd fds_trace_write)
      from Cons.IH [OF m1(1) this] show ?thesis using False R(5) by (auto simp: m1(2) tracks_def live_def)
    qed
  qed
qed simp

lemma fds_notify: "fds (os (notify F h st g)) = fds (os g)"
  by (simp add: notify_def fds_status)

end

section \<open>What a collector owns\<close>

definition trace_fds :: "('j, ferret_state) collector_scheme \<Rightarrow> int set" where
  "trace_fds c = (if mCollecting c then {mTraceFd (collector.more c)} else {})"

text \<open>
  The open descriptors are those in \<open>B\<close>, the trace file of a run, and those of the two maps, all different.
\<close>

definition owns :: "('w \<Rightarrow> int set) \<Rightarrow> int set \<Rightarrow> ('j, ferret_state) collector_scheme \<Rightarrow> 'w ferret_world \<Rightarrow> bool" where
  "owns fds B c g \<longleftrightarrow> (let s = collector.more c; cm = mCpufreqFdMap s in
     0 \<in> B \<and> trace_fds c \<inter> B = {} \<and> distinct (live cm) \<and> set (live cm) \<inter> (B \<union> trace_fds c) = {}
     \<and> list_all (\<lambda>h. 0 \<le> h) (map snd cm) \<and> tracks fds (B \<union> trace_fds c \<union> set (live cm)) (mPidFdMap s, os g))"

inductive ferret_calls ::
  "int option \<Rightarrow> bool \<Rightarrow> 'j json_ops \<Rightarrow> 'w ferret_ops \<Rightarrow> ('j, ferret_state) collector_scheme \<times> 'w ferret_world
     \<Rightarrow> ('j, ferret_state) collector_scheme \<times> 'w ferret_world \<Rightarrow> bool"
  for after android_build J F cg where
  nothing: "ferret_calls after android_build J F cg cg"
| init: "ferret_calls after android_build J F cg (c, g) \<Longrightarrow> Ferret_init android_build F c g = Inr (b, c', g') \<Longrightarrow>
     ferret_calls after android_build J F cg (c', g')"
| available: "ferret_calls after android_build J F cg (c, g) \<Longrightarrow> Ferret_available android_build F c g = Inr (b, c', g') \<Longrightarrow>
     ferret_calls after android_build J F cg (c', g')"
| start: "ferret_calls after android_build J F cg (c, g) \<Longrightarrow> Ferret_start J F c g = Inr (True, c', g') \<Longrightarrow>
     ferret_calls after android_build J F cg (c', g')"
| collect: "ferret_calls after android_build J F cg (c, g) \<Longrightarrow> Ferret_collect after F now c g = Inr (b, c', g') \<Longrightarrow>
     ferret_calls after android_build J F cg (c', g')"
| stop: "ferret_calls after android_build J F cg (c, g) \<Longrightarrow> Ferret_stop J F c g = Inr (b, c', g') \<Longrightarrow>
     ferret_calls after android_build J F cg (c', g')"
| deinit: "ferret_calls after android_build J F cg (c, g) \<Longrightarrow> Ferret_deinit F c g = Inr (b, c', g') \<Longrightarrow>
     ferret_calls after android_build J F cg (c', g')"

context descriptors
begin

lemma open_into_nonneg:
  "open_into F k nm (m, w) = Inr (m', w') \<Longrightarrow> list_all (\<lambda>h. 0 \<le> h) (map snd m) \<Longrightarrow> list_all (\<lambda>h. 0 \<le> h) (map snd m')"
  by (auto simp: open_into_def open_rewound_def split: if_splits prod.splits option.splits intro!: map_set_all)

lemma open_cpufreq_nonneg:
  assumes "open_cpufreq_fds F cpus m w = Inr mw'" "list_all (\<lambda>h. 0 \<le> h) (map snd m)"
  shows "list_all (\<lambda>h. 0 \<le> h) (map snd (fst mw'))"
  using assms(1) unfolding open_cpufreq_fds_def
  by (rule fold_res_invariant [where P = "\<lambda>mw. list_all (\<lambda>h. 0 \<le> h) (map snd (fst mw))"])
    (use assms(2) open_into_nonneg in auto)

lemma live_Nil [simp]: "live [] = []"
  by (simp add: live_def)

lemma trace_fds_private [simp]:
  "trace_fds (set_private (\<lambda>_. s) c) = (if mCollecting c then {mTraceFd s} else {})"
  by (simp add: trace_fds_def set_private_def)

lemma more_set_private [simp]:
  "collector.more (set_private f c) = f (collector.more c)" "mCollecting (set_private f c) = mCollecting c"
  by (simp_all add: set_private_def)

lemma owns_init:
  assumes "owns fds B c g" "Ferret_init android_build F c g = Inr (b, c', g')"
  shows "owns fds B c' g'"
proof (cases "mInitSuccess (collector.more c)")
  case True
  then show ?thesis using assms by (simp add: Ferret_init_def)
next
  case False
  let ?s = "collector.more c"
  let ?R = "B \<union> trace_fds c"
  have o: "0 \<in> B" "trace_fds c \<inter> B = {}" "list_all (\<lambda>h. 0 \<le> h) (map snd (mCpufreqFdMap ?s))"
    and t0: "tracks fds (?R \<union> set (live (mPidFdMap ?s))) (mCpufreqFdMap ?s, os g)"
    and p0: "distinct (live (mPidFdMap ?s))" "set (live (mPidFdMap ?s)) \<inter> ?R = {}"
    using assms(1) by (auto simp: owns_def tracks_def Let_def)
  from assms(2) False obtain cm w where cm: "open_cpufreq_fds F (mCpus ?s) (mCpufreqFdMap ?s) (os g) = Inr (cm, w)"
    by (auto simp: Ferret_init_def Let_def)
  have cpos: "list_all (\<lambda>h. 0 \<le> h) (map snd cm)" using open_cpufreq_nonneg [OF cm o(3)] by simp
  have t1: "tracks fds (?R \<union> set (live cm)) (mPidFdMap ?s, w)" and c1: "distinct (live cm)" "set (live cm) \<inter> ?R = {}"
    using tracks_cpufreq [OF cm t0] p0 by (auto simp: tracks_def)
  define ok1 where "ok1 = (mCpus ?s \<noteq> [] \<and> length cm = length (mCpus ?s))"
  obtain pm w2 where pm: "(if ok1 then fold_res (open_pid_fds F) (mPidFdMap ?s, w) (mPids ?s) else Inr (mPidFdMap ?s, w)) = Inr (pm, w2)"
  proof -
    have "\<exists>x. (if ok1 then fold_res (open_pid_fds F) (mPidFdMap ?s, w) (mPids ?s) else Inr (mPidFdMap ?s, w)) = Inr x"
      using assms(2) False cm unfolding Ferret_init_def Let_def ok1_def
      by (simp only: if_False bind_res_simps prod.case bind_res_eq_Inr) (elim exE conjE, intro exI)
    then show ?thesis using that by auto
  qed
  have t2: "tracks fds (?R \<union> set (live cm)) (pm, w2)"
    using pm t1 by (auto split: if_splits elim!: fold_res_invariant intro: tracks_open_pid)
  obtain ok s' where res: "c' = set_private (\<lambda>_. s') c" "os g' = (if ok then w2 else close_pid_fds F pm (close_cpufreq_fds F cm w2))"
    "mCpufreqFdMap s' = (if ok then cm else [])" "mPidFdMap s' = (if ok then pm else [])" "mTraceFd s' = mTraceFd ?s"
  proof -
    define ok where "ok = (ok1 \<and> \<not> (mOutputDir ?s = [] \<and> android_build) \<and> \<not> (mProcessNames ?s \<noteq> [] \<and> sint (mStatusFd ?s) < 0))"
    define s' where "s' = ?s\<lparr>mInitSuccess := ok, mOutputDir := (if mOutputDir ?s = [] \<and> \<not> android_build then ''.'' else mOutputDir ?s),
                     mCpufreqFdMap := (if ok then cm else []), mPidFdMap := (if ok then pm else [])\<rparr>"
    have "c' = set_private (\<lambda>_. s') c \<and> g' = g\<lparr>os := if ok then w2 else close_pid_fds F pm (close_cpufreq_fds F cm w2)\<rparr>"
      using assms(2) False cm pm unfolding Ferret_init_def Let_def s'_def ok_def ok1_def
      by (simp only: if_False bind_res_simps prod.case) (elim sum.inject(2) [THEN iffD1, elim_format] Pair_inject, simp only:)
    then show ?thesis by (intro that [of s' ok]) (simp_all add: s'_def)
  qed
  show ?thesis
  proof (cases ok)
    case True
    then show ?thesis using o(1,2) cpos c1 t2 res by (simp add: owns_def trace_fds_def split: if_splits)
  next
    case False
    have "fds (os g') = ?R"
      using t2 c1 False res(2) by (auto simp: tracks_def fds_close_pids fds_close_cpus [OF cpos])
    then show ?thesis using False o(1,2) res by (auto simp: owns_def trace_fds_def tracks_def split: if_splits)
  qed
qed

lemma owns_deinit:
  assumes "owns fds B c g" "Ferret_deinit F c g = Inr (b, c', g')"
  shows "owns fds B c' g'" "\<not> mCollecting c \<Longrightarrow> fds (os g') = B"
proof -
  let ?s = "collector.more c"
  have g: "os g' = close_pid_fds F (mPidFdMap ?s) (close_cpufreq_fds F (mCpufreqFdMap ?s) (os g))"
    "c' = set_private (\<lambda>_. ?s\<lparr>mCpufreqFdMap := [], mPidFdMap := [], mInitSuccess := False\<rparr>) c"
    using assms(2) by (auto simp: Ferret_deinit_def Let_def)
  have o: "0 \<in> B" "trace_fds c \<inter> B = {}" "list_all (\<lambda>h. 0 \<le> h) (map snd (mCpufreqFdMap ?s))"
    "distinct (live (mCpufreqFdMap ?s))" "set (live (mCpufreqFdMap ?s)) \<inter> (B \<union> trace_fds c) = {}"
    "tracks fds (B \<union> trace_fds c \<union> set (live (mCpufreqFdMap ?s))) (mPidFdMap ?s, os g)"
    using assms(1) by (auto simp: owns_def Let_def)
  have "fds (os g') = B \<union> trace_fds c"
    unfolding g(1) fds_close_pids fds_close_cpus [OF o(3)] using o(5,6) by (auto simp: tracks_def)
  then show "owns fds B c' g'" "\<not> mCollecting c \<Longrightarrow> fds (os g') = B"
    using o(1,2) g(2) by (auto simp: owns_def tracks_def trace_fds_def)
qed

lemma owns_start:
  assumes "owns fds B c g" "Ferret_start J F c g = Inr (True, c', g')"
  shows "owns fds B c' g'"
proof (cases "mCollecting c")
  case True
  then show ?thesis using assms by (auto simp: Ferret_start_def Let_def split: if_splits)
next
  case False
  let ?s = "collector.more c" and ?out = "output_name (mOutputDir (collector.more c)) (increment g)"
  obtain h w1 where cr: "fo_create F ?out (fo_unlink F ?out (os g)) = (h, w1)" by fastforce
  define s' where "s' = ?s\<lparr>mFirstCollect := 0, mWatchList := mProcessNames ?s, mTraceFd := h\<rparr>"
  obtain wrote w2 where wr: "fo_write F h (trace_header s') w1 = (wrote, w2)" by fastforce
  have init: "mInitSuccess ?s" using assms(2) by (auto simp: Ferret_start_def Let_def split: if_splits)
  have h: "0 \<le> h" using assms(2) False init cr by (auto simp: Ferret_start_def Let_def split: if_splits)
  have c': "mCollecting c'" "collector.more c' = s'" "os g' = w2"
    using assms(2) False init cr h wr unfolding s'_def
    by (auto simp: Ferret_start_def Let_def set_private_def split: if_splits)
  have "h \<notin> fds (os g)" "fds w2 = insert h (fds (os g))"
    using fds_create [OF cr] fds_write [OF wr] h by (auto simp: fds_unlink)
  then show ?thesis
    using assms(1) False c' by (auto simp: owns_def trace_fds_def tracks_def s'_def Let_def)
qed

lemma owns_stop:
  assumes "owns fds B c g" "Ferret_stop J F c g = Inr (b, c', g')"
  shows "owns fds B c' g'"
proof (cases "mCollecting c")
  case True
  let ?s = "collector.more c"
  have c': "\<not> mCollecting c'" "collector.more c' = ?s" "os g' = fo_close F (mTraceFd ?s) (os g)"
    using assms(2) True by (auto simp: Ferret_stop_def Let_def split: if_splits)
  have "fds (os g') = fds (os g) - {mTraceFd ?s}" using c'(3) fds_close by simp
  then show ?thesis
    using assms(1) True c' by (auto simp: owns_def trace_fds_def tracks_def Let_def)
next
  case False
  then show ?thesis using assms by (simp add: Ferret_stop_def)
qed

lemma owns_collect:
  assumes "owns fds B c g" "Ferret_collect after F now c g = Inr (b, c', g')"
  shows "owns fds B c' g'"
proof -
  let ?s = "collector.more c"
  let ?R = "B \<union> trace_fds c \<union> set (live (mCpufreqFdMap ?s))"
  have t: "tracks fds ?R (mPidFdMap ?s, os g)" and zero: "0 \<in> B" using assms(1) by (auto simp: owns_def Let_def)
  obtain pids left w where poll: "poll_watch_list F (mWatchList ?s) (mPids ?s) (os g) = Inr (pids, left, w)"
    and coll: "mCollecting c"
    using assms(2) by (auto simp: Ferret_collect_def Let_def)
  have w: "fds w = fds (os g)" using fds_poll_watch_list [OF poll] t zero by (auto simp: tracks_def)
  have keep: "owns fds B (set_private (\<lambda>_. s') c) g''"
    if "mTraceFd s' = mTraceFd ?s" "mCpufreqFdMap s' = mCpufreqFdMap ?s" "tracks fds ?R (mPidFdMap s', os g'')" for s' g''
    using assms(1) coll that by (auto simp: owns_def trace_fds_def Let_def)
  show ?thesis
  proof (cases "left = []")
    case False
    then show ?thesis
      using assms(2) poll coll t w by (auto simp: Ferret_collect_def Let_def fds_notify tracks_def intro!: keep split: if_splits)
  next
    case True
    define g1 where "g1 = notify F (mStatusFd ?s) 1 (g\<lparr>os := w\<rparr>)"
    have g1: "fds (os g1) = fds (os g)" using w by (simp add: g1_def fds_notify)
    obtain pm w1 where pm: "fold_res (enumerate_tasks F) (mPidFdMap ?s, os g1) (mPid ?s # pids) = Inr (pm, w1)"
      using assms(2) poll True by (auto simp: Ferret_collect_def Let_def g1_def simp del: fold_res.simps)
    define w2 where "w2 = collect_freqs F (mTraceFd ?s) (mCpufreqFdMap ?s) (trace_write F (mTraceFd ?s) (''T '' @ show_int (sint now) @ [NL]) w1)"
    obtain pm' w3 where pp: "collect_perproc after F (mTraceFd ?s) pm w2 = Inr (pm', w3)"
      using assms(2) poll True pm by (auto simp: Ferret_collect_def Let_def g1_def w2_def simp del: fold_res.simps)
    have "tracks fds ?R (mPidFdMap ?s, os g1)" using t g1 by (simp add: tracks_def)
    with pm have "tracks fds ?R (pm, w1)" by (rule fold_res_invariant) (rule tracks_enumerate)
    then have "tracks fds ?R (pm, w2)" by (simp add: tracks_def w2_def fds_collect_freqs fds_trace_write)
    from tracks_perproc [OF pp this] have t': "tracks fds ?R (pm', w3)" .
    obtain s' where "c' = set_private (\<lambda>_. s') c" "fds (os g') = fds w3" "mTraceFd s' = mTraceFd ?s"
      "mCpufreqFdMap s' = mCpufreqFdMap ?s" "mPidFdMap s' = pm'"
      using assms(2) poll True pm pp
      by (auto simp: Ferret_collect_def Let_def g1_def w2_def fds_notify simp del: fold_res.simps)
    then show ?thesis using t' by (auto simp: tracks_def intro!: keep)
  qed
qed

lemma owns_calls:
  assumes "ferret_calls after android_build J F cg cg'" "owns fds B (fst cg) (snd cg)"
  shows "owns fds B (fst cg') (snd cg')"
  using assms by (induction rule: ferret_calls.induct)
    (auto simp: Ferret_available_def split: if_splits dest: owns_init owns_start owns_collect owns_stop owns_deinit(1))

end


text \<open>A kernel whose state is the list of its open descriptors; every file reads as the same line.\<close>

definition table_kernel :: "(string \<Rightarrow> string list option) \<Rightarrow> string \<Rightarrow> int list ferret_ops" where
  "table_kernel dirs line = \<lparr>fo_clk_tck = (\<lambda>_. 100), fo_getpid = (\<lambda>_. 7), fo_exists = (\<lambda>_ _. False), fo_dir = (\<lambda>d _. dirs d),
     fo_content = (\<lambda>_ _. None), fo_enfile = (\<lambda>_. False), fo_open = (\<lambda>_ w. (1 + foldr max w 0, (1 + foldr max w 0) # w)),
     fo_create = (\<lambda>_ w. (1 + foldr max w 0, (1 + foldr max w 0) # w)), fo_unlink = (\<lambda>_ w. w), fo_seek = (\<lambda>_ w. (True, w)),
     fo_close = (\<lambda>h w. filter (\<lambda>x. x \<noteq> h) w), fo_read = (\<lambda>_ _ w. (line, w)), fo_write = (\<lambda>_ row w. (int (length row), w)),
     fo_status = (\<lambda>_ _ w. w)\<rparr>"

lemma foldr_max: "x \<in> set w \<Longrightarrow> x \<le> foldr max w (0 :: int)"
  by (induction w) auto

lemma foldr_max_nonneg: "0 \<le> foldr max w (0 :: int)"
  by (induction w) auto

interpretation table: descriptors "table_kernel dirs line" set
proof
  fix nm h and w w' :: "int list"
  have "1 + foldr max w 0 \<notin> set w" using foldr_max [of "1 + foldr max w 0" w] by auto
  then show "fo_open (table_kernel dirs line) nm w = (h, w') \<Longrightarrow>
      if h < 0 then set w' = set w else h \<notin> set w \<and> set w' = insert h (set w)"
    "fo_create (table_kernel dirs line) nm w = (h, w') \<Longrightarrow>
      if h < 0 then set w' = set w else h \<notin> set w \<and> set w' = insert h (set w)"
    using foldr_max_nonneg [of w] by (auto simp: table_kernel_def)
qed (auto simp: table_kernel_def)

definition example_ferret :: "(json, ferret_state) collector_scheme" where
  "example_ferret = collector.extend (Collector_new tree_json JNull ''ferret'')
     \<lparr>mInitSuccess = False, mEnablePostprocess = False, mClockTicks = 100, mCpus = [0], mBannedThreads = [], mOutputDir = [],
      mTraceFd = 0, mStatusFd = - 1, mPid = ''7'', mProcessNames = [], mPids = [], mWatchList = [], mFirstCollect = 0,
      mPollTimeout = 0, mPidFdMap = [], mCpufreqFdMap = []\<rparr>"


end
