(* ===== verification/Ferret_Load.thy ===== *)
theory Ferret_Load
  imports Ferret_Process
begin

text \<open>
  What \<open>FerretProcess\<close> computes from a sequence of samples of one thread: the jiffies the thread used in
  total and on each CPU, the cycles, and the geometric mean of the frequencies it was seen at.
\<close>

record load =
  ld_name :: string
  ld_time :: real
  ld_jiffies :: i32
  ld_freq :: real
  ld_cpu :: i32

definition account :: "'j json_ops \<Rightarrow> i32 \<Rightarrow> i32 list \<Rightarrow> load list \<Rightarrow> 'j ferret_process" where
  "account J hz cpus xs = foldl (\<lambda>p x. process_add J (ld_name x) (DFin (ld_time x)) (ld_jiffies x) (DFin (ld_freq x)) (ld_cpu x) p)
     (FerretProcess_new J hz cpus) xs"

section \<open>The specification\<close>

definition tick_period :: "i32 \<Rightarrow> real" where
  "tick_period hz = 1 / of_int (sint hz)"

text \<open>Each sample with the jiffies that passed since the one before; the first one marks the start.\<close>

fun with_deltas :: "i32 \<Rightarrow> load list \<Rightarrow> (i32 \<times> load) list" where
  "with_deltas prev [] = []"
| "with_deltas prev (x # xs) = (ld_jiffies x - prev, x) # with_deltas (ld_jiffies x) xs"

definition shares :: "load list \<Rightarrow> (i32 \<times> load) list" where
  "shares xs = with_deltas (ld_jiffies (hd xs)) xs"

definition on_cpu :: "i32 \<Rightarrow> load list \<Rightarrow> (i32 \<times> load) list" where
  "on_cpu c xs = filter (\<lambda>(d, x). ld_cpu x = c) (shares xs)"

definition cpu_jiffies :: "i32 \<Rightarrow> load list \<Rightarrow> i32" where
  "cpu_jiffies c xs = sum_list (map fst (on_cpu c xs))"

definition cpu_cycles :: "real \<Rightarrow> i32 \<Rightarrow> load list \<Rightarrow> real" where
  "cpu_cycles period c xs = (\<Sum>(d, x) \<leftarrow> on_cpu c xs. of_int (sint d) * period * ld_freq x)"

definition cpu_freqs :: "i32 \<Rightarrow> load list \<Rightarrow> real list" where
  "cpu_freqs c xs = filter (\<lambda>f. f \<noteq> 0) (map (ld_freq \<circ> snd) (on_cpu c xs))"

definition geometric_mean :: "real list \<Rightarrow> real" where
  "geometric_mean fs = prod_list fs powr (1 / real (length fs))"

section \<open>Names of CPUs\<close>

lemma show_int_inj: "show_int a = show_int b \<longleftrightarrow> a = b"
proof
  assume "show_int a = show_int b"
  then show "a = b" using scan_int_show_int [of "[]" a] scan_int_show_int [of "[]" b] by simp
qed simp

lemma int_string_inj [simp]: "int_string a = int_string b \<longleftrightarrow> a = b"
  unfolding int_string_def show_int_inj by (metis word_eq_iff_signed)

lemma tick_period: "hz \<noteq> 0 \<Longrightarrow> ddiv (DFin 1) (double_of_int (sint hz)) = DFin (tick_period hz)"
proof -
  assume "hz \<noteq> 0"
  then have "real_of_int (sint hz) \<noteq> 0" by (metis word_eq_iff_signed of_int_eq_0_iff signed_0)
  then show ?thesis unfolding tick_period_def double_of_int_def ddiv.simps by (simp only: if_False)
qed

section \<open>Sequences of samples\<close>

lemma with_deltas_snoc:
  "with_deltas p (xs @ [x]) = with_deltas p xs @ [(ld_jiffies x - last (p # map ld_jiffies xs), x)]"
  by (induction xs arbitrary: p) auto

lemma with_deltas_map: "map snd (with_deltas p xs) = xs"
  by (induction xs arbitrary: p) auto

lemma set_shares: "(d, x) \<in> set (shares xs) \<Longrightarrow> x \<in> set xs"
  using with_deltas_map [of "ld_jiffies (hd xs)" xs] unfolding shares_def by (metis image_eqI list.set_map snd_conv)

lemma shares_Nil [simp]: "shares [] = []"
  by (simp add: shares_def)

lemma shares_single [simp]: "shares [x] = [(0, x)]"
  by (simp add: shares_def)

lemma shares_snoc: "xs \<noteq> [] \<Longrightarrow> shares (xs @ [x]) = shares xs @ [(ld_jiffies x - ld_jiffies (last xs), x)]"
  by (simp add: shares_def with_deltas_snoc last_map)

lemma on_cpu_snoc:
  "on_cpu c (xs @ [x]) = on_cpu c xs @
     (if ld_cpu x = c then [(ld_jiffies x - ld_jiffies (if xs = [] then x else last xs), x)] else [])"
  by (cases "xs = []") (simp_all add: on_cpu_def shares_snoc)

text \<open>What one more sample adds.\<close>

definition delta :: "load list \<Rightarrow> load \<Rightarrow> i32" where
  "delta xs x = ld_jiffies x - ld_jiffies (if xs = [] then x else last xs)"

lemma shares_sum_snoc: "sum_list (map fst (shares (xs @ [x]))) = sum_list (map fst (shares xs)) + delta xs x"
  by (cases "xs = []") (simp_all add: shares_snoc delta_def)

lemma cpu_snoc:
  "cpu_jiffies c (xs @ [x]) = cpu_jiffies c xs + (if ld_cpu x = c then delta xs x else 0)"
  "cpu_cycles h c (xs @ [x]) = cpu_cycles h c xs + (if ld_cpu x = c then of_int (sint (delta xs x)) * h * ld_freq x else 0)"
  "cpu_freqs c (xs @ [x]) = cpu_freqs c xs @ (if ld_cpu x = c \<and> ld_freq x \<noteq> 0 then [ld_freq x] else [])"
  by (simp_all add: cpu_jiffies_def cpu_cycles_def cpu_freqs_def on_cpu_snoc delta_def del: of_int_sint)

text \<open>The differences telescope.\<close>

lemma with_deltas_sum: "sum_list (map fst (with_deltas p xs)) = last (p # map ld_jiffies xs) - p"
  by (induction xs arbitrary: p) auto

lemma shares_sum: "xs \<noteq> [] \<Longrightarrow> sum_list (map fst (shares xs)) = ld_jiffies (last xs) - ld_jiffies (hd xs)"
  by (simp add: shares_def with_deltas_sum last_map)

lemma sum_list_partition:
  fixes ys :: "('a :: ab_group_add \<times> 'b) list"
  assumes "distinct cs" and "\<forall>(d, x) \<in> set ys. g x \<in> set cs"
  shows "(\<Sum>c \<leftarrow> cs. sum_list (map fst (filter (\<lambda>(d, x). g x = c) ys))) = sum_list (map fst ys)"
  using assms(2)
proof (induction ys)
  case (Cons y ys)
  obtain d x where y: "y = (d, x)" by (cases y)
  have "(\<Sum>c \<leftarrow> cs. (if g x = c then d else 0)) = d"
    using assms(1) Cons.prems y sum_list_map_eq_sum_count2 by (subst sum_list_distinct_conv_sum_set) auto
  moreover have "(\<Sum>c \<leftarrow> cs. sum_list (map fst (filter (\<lambda>(d, x). g x = c) (y # ys))))
      = (\<Sum>c \<leftarrow> cs. (if g x = c then d else 0) + sum_list (map fst (filter (\<lambda>(d, x). g x = c) ys)))"
    by (rule arg_cong [where f = sum_list], rule map_cong) (auto simp: y)
  ultimately show ?case using Cons y by (simp add: sum_list_addf)
qed simp

lemma cpu_jiffies_partition:
  assumes "distinct cpus" and "\<forall>x \<in> set xs. ld_cpu x \<in> set cpus" and "xs \<noteq> []"
  shows "(\<Sum>c \<leftarrow> cpus. cpu_jiffies c xs) = ld_jiffies (last xs) - ld_jiffies (hd xs)"
proof -
  have "\<forall>(d, x) \<in> set (shares xs). ld_cpu x \<in> set cpus" using assms(2) set_shares by blast
  from sum_list_partition [OF assms(1) this] show ?thesis
    unfolding cpu_jiffies_def on_cpu_def shares_sum [OF assms(3)] .
qed

lemma ln_prod_list: "\<forall>f \<in> set fs. 0 < (f :: real) \<Longrightarrow> ln (prod_list fs) = sum_list (map ln fs) \<and> 0 < prod_list fs"
  by (induction fs) (auto simp: ln_mult)

lemma geometric_mean_exp:
  assumes "\<forall>f \<in> set fs. 0 < f" and "fs \<noteq> []"
  shows "exp (sum_list (map ln fs) / real (length fs)) = geometric_mean fs"
  using ln_prod_list [OF assms(1)] by (simp add: geometric_mean_def powr_def)

section \<open>The accounting is the specification\<close>

context json_api
begin

text \<open>The state after the samples \<open>xs\<close>; the four JSON objects have one member for each CPU.\<close>

definition accounts :: "i32 \<Rightarrow> i32 list \<Rightarrow> load list \<Rightarrow> 'j ferret_process \<Rightarrow> bool" where
  "accounts hz cpus xs p \<longleftrightarrow>
     fp_first p = DFin (if xs = [] then 0 else ld_time (hd xs)) \<and> fp_last p = DFin (if xs = [] then 0 else ld_time (last xs))
   \<and> fp_label p = (if xs = [] then [] else ld_name (last xs))
   \<and> jiffies p = (if xs = [] then 0 else ld_jiffies (last xs))
   \<and> totJiffiesAllCpus p = sum_list (map fst (shares xs))
   \<and> jiffyPeriod p = DFin (tick_period hz)
   \<and> dictlike (mcyc p) \<and> dictlike (totJiffies p) \<and> dictlike (freqLogSums p) \<and> dictlike (numFreqLogSums p)
   \<and> (\<forall>k. j_isMember J (totJiffies p) k \<longleftrightarrow> k \<in> int_string ` set cpus)
   \<and> (\<forall>c \<in> set cpus. j_asInt J (j_at J (totJiffies p) (int_string c)) = cpu_jiffies c xs
       \<and> j_asDouble J (j_at J (mcyc p) (int_string c)) = DFin (cpu_cycles (tick_period hz) c xs)
       \<and> j_asDouble J (j_at J (freqLogSums p) (int_string c)) = DFin (sum_list (map ln (cpu_freqs c xs)))
       \<and> j_asInt J (j_at J (numFreqLogSums p) (int_string c)) = of_nat (length (cpu_freqs c xs)))"

lemma set_each_effect:
  "dictlike (set_each J x cpus)"
  "j_isMember J (set_each J x cpus) k \<longleftrightarrow> k \<in> int_string ` set cpus"
  "c \<in> set cpus \<Longrightarrow> j_at J (set_each J x cpus) (int_string c) = x"
proof (induction cpus rule: rev_induct)
  case (snoc i cpus)
  let ?s = "set_each J x cpus"
  have e: "set_each J x (cpus @ [i]) = j_set J ?s (int_string i) x" by (simp add: set_each_def)
  { case 1 show ?case using snoc(1) by (simp add: e dictlike_set) }
  { case 2 show ?case using snoc(1,2) by (auto simp: e isMember_set) }
  { case 3 then show ?case using snoc(1,3) by (auto simp: e at_set) }
qed (simp_all add: set_each_def dictlike_null isMember_null)

lemma accounts_new: "hz \<noteq> 0 \<Longrightarrow> accounts hz cpus [] (FerretProcess_new J hz cpus)"
  using set_each_effect asInt_of_int [of 0]
  by (simp add: accounts_def FerretProcess_new_def tick_period cpu_jiffies_def on_cpu_def cpu_cycles_def cpu_freqs_def
      asDouble_of_int asDouble_of_double double_of_int_def [of 0])

lemma process_add_eq:
  assumes "if fp_first p = DFin 0 then first = ts \<and> d = 0 else first = fp_first p \<and> d = nj - jiffies p"
  shows "process_add J nm ts nj f c p = p\<lparr>fp_label := nm, fp_first := first, fp_last := ts, jiffies := nj,
     totJiffiesAllCpus := totJiffiesAllCpus p + d,
     totJiffies := j_set J (totJiffies p) (int_string c) (j_of_int J (scast (j_asInt J (j_at J (totJiffies p) (int_string c)) + d))),
     mcyc := (if f = DFin 0 then mcyc p else j_set J (mcyc p) (int_string c) (j_of_double J
        (dadd (j_asDouble J (j_at J (mcyc p) (int_string c))) (dmul (dmul (double_of_int (sint d)) (jiffyPeriod p)) f)))),
     freqLogSums := (if f = DFin 0 then freqLogSums p else j_set J (freqLogSums p) (int_string c) (j_of_double J
        (dadd (j_asDouble J (j_at J (freqLogSums p) (int_string c))) (dln f)))),
     numFreqLogSums := (if f = DFin 0 then numFreqLogSums p else j_set J (numFreqLogSums p) (int_string c)
        (j_of_int J (scast (j_asInt J (j_at J (numFreqLogSums p) (int_string c)) + 1))))\<rparr>"
  using assms by (cases p) (simp add: process_add_def Let_def split: if_splits)

lemma accounts_add:
  assumes "accounts hz cpus xs p" "ld_cpu x \<in> set cpus" "0 \<le> ld_freq x" "\<forall>y \<in> set xs. ld_time y \<noteq> 0"
  shows "accounts hz cpus (xs @ [x]) (process_add J (ld_name x) (DFin (ld_time x)) (ld_jiffies x) (DFin (ld_freq x)) (ld_cpu x) p)"
proof -
  have "if fp_first p = DFin 0 then DFin (ld_time (hd (xs @ [x]))) = DFin (ld_time x) \<and> delta xs x = 0
      else DFin (ld_time (hd (xs @ [x]))) = fp_first p \<and> delta xs x = ld_jiffies x - jiffies p"
    using assms(1,4) by (auto simp: accounts_def delta_def)
  note add = process_add_eq [OF this]
  have ln: "ld_freq x \<noteq> 0 \<Longrightarrow> dln (DFin (ld_freq x)) = DFin (ln (ld_freq x))"
    using assms(3) by (simp add: dln_def)
  have "accounts hz cpus xs p" "ld_cpu x \<in> set cpus" by fact+
  then show ?thesis
    unfolding accounts_def add
    by (simp add: shares_sum_snoc cpu_snoc dictlike_set isMember_set at_set asInt_of_int asDouble_of_double ln
        double_of_int_def insert_absorb)
      (auto)
qed

lemma accounts_account:
  assumes "hz \<noteq> 0" "\<forall>x \<in> set xs. ld_cpu x \<in> set cpus \<and> 0 \<le> ld_freq x \<and> ld_time x \<noteq> 0"
  shows "accounts hz cpus xs (account J hz cpus xs)"
  using assms(2)
proof (induction xs rule: rev_induct)
  case Nil
  then show ?case using accounts_new [OF assms(1)] by (simp add: account_def)
next
  case (snoc x xs)
  then show ?case using accounts_add [of hz cpus xs "account J hz cpus xs" x] by (simp add: account_def)
qed

lemma sum_over_real:
  "distinct ks \<Longrightarrow> (\<And>k. k \<in> set ks \<Longrightarrow> f k = DFin (g k)) \<Longrightarrow> sum_over f ks = DFin (\<Sum>k \<in> set ks. g k)"
proof (induction ks rule: rev_induct)
  case (snoc k ks)
  then show ?case by (simp add: sum_over_def)
qed (simp add: sum_over_def)

text \<open>Assigning a value to each name of a list.\<close>

lemma set_names:
  assumes "dictlike v"
  shows "dictlike (foldl (\<lambda>v k. j_set J v k (f k)) v ks)"
    and "j_at J (foldl (\<lambda>v k. j_set J v k (f k)) v ks) k = (if k \<in> set ks then f k else j_at J v k)"
  using assms by (induction ks rule: rev_induct) (auto simp: dictlike_set at_set)

lemma set_nested:
  assumes "dictlike r" "dictlike (j_at J r m)"
  shows "dictlike (foldl (\<lambda>r k. j_set J r m (j_set J (j_at J r m) k (f k))) r ks)
    \<and> (\<forall>k. j_at J (foldl (\<lambda>r k. j_set J r m (j_set J (j_at J r m) k (f k))) r ks) k
         = (if k = m then foldl (\<lambda>v k. j_set J v k (f k)) (j_at J r m) ks else j_at J r k))"
  using assms by (induction ks rule: rev_induct) (auto simp: dictlike_set at_set set_names)

lemma summary_members:
  fixes p :: "'j ferret_process" and pid :: string
  assumes "active_jiffies p \<noteq> 0" "jiffyPeriod p = DFin h" "h \<noteq> 0"
  defines "r \<equiv> process_summary J pid p" and "ks \<equiv> j_getMemberNames J (totJiffies p)"
  shows "dictlike r" "j_at J r ''pid'' = j_of_string J pid" "j_at J r ''name'' = j_of_string J (fp_label p)"
    "j_at J r ''duration'' = j_of_double J (duration p)"
    "j_at J r ''active_sum'' = j_of_double J (sum_over (cpu_active J p) ks)"
    "j_at J r ''MCyc_sum'' = j_of_double J (sum_over (\<lambda>k. j_asDouble J (j_at J (mcyc p) k)) ks)"
    "j_at J r ''MCyc'' = mcyc p"
    "k \<in> set ks \<Longrightarrow> j_at J (j_at J r ''active'') k = j_of_double J (cpu_active J p k)"
    "k \<in> set ks \<Longrightarrow> j_at J (j_at J r ''MHz'') k = cpu_MHz J p k"
proof -
  have "real_of_int (sint (active_jiffies p)) \<noteq> 0" using assms(1) by (metis word_eq_iff_signed of_int_eq_0_iff signed_0)
  then have "dmul (jiffyPeriod p) (double_of_int (sint (active_jiffies p))) \<noteq> DFin 0"
    using assms(2,3) unfolding double_of_int_def by (simp del: of_int_sint)
  note r = r_def [unfolded process_summary_def Let_def if_not_P [OF this], folded ks_def]
  obtain b where b: "r = foldl (\<lambda>r k. j_set J r ''MHz'' (j_set J (j_at J r ''MHz'') k (cpu_MHz J p k))) b ks"
    and d: "dictlike b" "j_at J b ''MHz'' = j_null J"
    and a: "j_at J b ''pid'' = j_of_string J pid" "j_at J b ''name'' = j_of_string J (fp_label p)"
      "j_at J b ''duration'' = j_of_double J (duration p)"
      "j_at J b ''active_sum'' = j_of_double J (sum_over (cpu_active J p) ks)"
      "j_at J b ''MCyc_sum'' = j_of_double J (sum_over (\<lambda>k. j_asDouble J (j_at J (mcyc p) k)) ks)"
      "j_at J b ''MCyc'' = mcyc p"
      "j_at J b ''active'' = foldl (\<lambda>v k. j_set J v k (j_of_double J (cpu_active J p k))) (j_null J) ks"
    by (rule that [OF meta_eq_to_obj_eq [OF r]]) (simp_all add: at_set dictlike_set dictlike_null)
  have n: "dictlike (j_at J b ''MHz'')" using d(2) dictlike_null by simp
  note m = set_nested [OF d(1) n, of "cpu_MHz J p" ks, folded b]
  then have other: "j_at J r k = j_at J b k" if "k \<noteq> ''MHz''" for k using that by presburger
  from m have MHz: "j_at J r ''MHz'' = foldl (\<lambda>v k. j_set J v k (cpu_MHz J p k)) (j_at J b ''MHz'') ks" by presburger
  show "dictlike r" using m by (rule conjunct1)
  show "j_at J r ''pid'' = j_of_string J pid" "j_at J r ''name'' = j_of_string J (fp_label p)"
    "j_at J r ''duration'' = j_of_double J (duration p)"
    "j_at J r ''active_sum'' = j_of_double J (sum_over (cpu_active J p) ks)"
    "j_at J r ''MCyc_sum'' = j_of_double J (sum_over (\<lambda>k. j_asDouble J (j_at J (mcyc p) k)) ks)"
    "j_at J r ''MCyc'' = mcyc p"
    by (subst other; simp add: a)+
  show "j_at J (j_at J r ''active'') k = j_of_double J (cpu_active J p k)" if "k \<in> set ks"
    by (subst other) (simp_all add: a set_names dictlike_null that)
  show "j_at J (j_at J r ''MHz'') k = cpu_MHz J p k" if "k \<in> set ks"
    unfolding MHz set_names(2) [OF n] using that by simp
qed

lemma accounts_cpu_MHz:
  assumes "accounts hz cpus xs p" "c \<in> set cpus" "\<forall>x \<in> set xs. 0 \<le> ld_freq x" "length xs < 2 ^ 31"
  shows "cpu_MHz J p (int_string c)
     = (if cpu_freqs c xs = [] then j_of_int J 0 else j_of_double J (DFin (geometric_mean (cpu_freqs c xs))))"
proof -
  let ?fs = "cpu_freqs c xs"
  have "snd x \<in> set xs" if "x \<in> set (shares xs)" for x
    using that set_shares by (metis prod.collapse)
  then have pos: "\<forall>f \<in> set ?fs. 0 < f" using assms(3) by (fastforce simp: cpu_freqs_def on_cpu_def)
  have "length ?fs \<le> length (on_cpu c xs)" unfolding cpu_freqs_def by (rule order_trans [OF length_filter_le]) simp
  also have "\<dots> \<le> length (map snd (shares xs))" unfolding on_cpu_def length_map by (rule length_filter_le)
  finally have n: "length ?fs < 2 ^ 31" using assms(4) unfolding shares_def with_deltas_map by simp
  have "sint (of_nat (length ?fs) :: i32) = int (length ?fs)"
    using n by (simp add: signed_of_nat signed_take_bit_int_eq_self)
  then have w: "(scast (of_nat (length ?fs) :: i32) :: u64) = of_nat (length ?fs)" by (metis of_int_of_nat_eq scast_eq)
  have u: "uint (of_nat (length ?fs) :: u64) = int (length ?fs)"
    using n by (simp add: unsigned_of_nat take_bit_nat_eq_self)
  have "(of_nat (length ?fs) :: u64) = 0 \<longleftrightarrow> ?fs = []" using u by (metis length_0_conv of_nat_0 of_nat_eq_0_iff uint_0_iff)
  then show ?thesis
    using assms(1,2) geometric_mean_exp [OF pos]
    by (auto simp: cpu_MHz_def accounts_def Let_def w u double_of_int_def dexp_def)
qed

end

section \<open>Properties\<close>

text \<open>
  C7: the summary of a thread is what its samples say. For any samples at times other than zero, of
  which at least one jiffy is left in total, the jiffies of the CPUs add up to the difference between the
  last and the first sample; the summary gives the time between them, for each CPU the jiffies spent on it
  in seconds, the cycles, and the geometric mean of the frequencies other than zero it was seen at (zero if
  there is none), and the sums of the first two over the CPUs.
\<close>

theorem ferret_summary:
  assumes "json_api J dictlike listlike" "hz \<noteq> 0" "distinct cpus" "xs \<noteq> []" "length xs < 2 ^ 31"
    and "\<forall>x \<in> set xs. ld_cpu x \<in> set cpus \<and> 0 \<le> ld_freq x \<and> ld_time x \<noteq> 0"
    and "ld_jiffies (last xs) \<noteq> ld_jiffies (hd xs)"
  defines "p \<equiv> account J hz cpus xs"
  shows "active_jiffies p = ld_jiffies (last xs) - ld_jiffies (hd xs)
     \<and> (\<Sum>c \<leftarrow> cpus. cpu_jiffies c xs) = active_jiffies p
     \<and> j_at J (process_summary J pid p) ''duration'' = j_of_double J (DFin (ld_time (last xs) - ld_time (hd xs)))
     \<and> j_at J (process_summary J pid p) ''active_sum''
         = j_of_double J (DFin (\<Sum>c \<in> set cpus. of_int (sint (cpu_jiffies c xs)) * tick_period hz))
     \<and> j_at J (process_summary J pid p) ''MCyc_sum'' = j_of_double J (DFin (\<Sum>c \<in> set cpus. cpu_cycles (tick_period hz) c xs))
     \<and> (\<forall>c \<in> set cpus.
          j_at J (j_at J (process_summary J pid p) ''active'') (int_string c)
            = j_of_double J (DFin (of_int (sint (cpu_jiffies c xs)) * tick_period hz))
        \<and> j_asDouble J (j_at J (j_at J (process_summary J pid p) ''MCyc'') (int_string c)) = DFin (cpu_cycles (tick_period hz) c xs)
        \<and> j_at J (j_at J (process_summary J pid p) ''MHz'') (int_string c)
            = (if cpu_freqs c xs = [] then j_of_int J 0 else j_of_double J (DFin (geometric_mean (cpu_freqs c xs)))))"
proof -
  note acc = json_api.accounts_account [OF assms(1,2,6), folded p_def]
  note fields = acc [unfolded json_api.accounts_def [OF assms(1)]]
  let ?ks = "j_getMemberNames J (totJiffies p)"
  have ks: "distinct ?ks" "set ?ks = int_string ` set cpus"
    using fields json_api.members_distinct [OF assms(1)] json_api.members_iff [OF assms(1)] by blast+
  have active: "active_jiffies p = ld_jiffies (last xs) - ld_jiffies (hd xs)"
    using fields assms(4) by (simp add: active_jiffies_def shares_sum)
  have period: "jiffyPeriod p = DFin (tick_period hz)" "tick_period hz \<noteq> 0"
    using fields assms(2) by (simp_all add: tick_period_def signed_eq_0_iff)
  have cpu_active: "cpu_active J p (int_string c) = DFin (of_int (sint (cpu_jiffies c xs)) * tick_period hz)" if "c \<in> set cpus" for c
    using fields that unfolding cpu_active_def double_of_int_def by (metis dmul.simps(1))
  have sums: "sum_over f ?ks = DFin (\<Sum>c \<in> set cpus. g c)" if "\<And>c. c \<in> set cpus \<Longrightarrow> f (int_string c) = DFin (g c)" for f g
  proof -
    have inj: "inj_on int_string (set cpus)" by (simp add: inj_on_def)
    have "sum_over f ?ks = DFin (\<Sum>k \<in> set ?ks. g (inv_into (set cpus) int_string k))"
      using ks that inj by (intro json_api.sum_over_real [OF assms(1)]) auto
    then show ?thesis using inj by (simp add: ks(2) sum.reindex)
  qed
  have "active_jiffies p \<noteq> 0" using active assms(7) by simp
  note m = json_api.summary_members [OF assms(1) this period, where pid = pid]
  have "duration p = DFin (ld_time (last xs) - ld_time (hd xs))"
    using fields assms(4) by (simp add: duration_def)
  then show ?thesis
    using active cpu_jiffies_partition [OF assms(3) _ assms(4)] assms(6) m ks(2) cpu_active sums fields
      json_api.accounts_cpu_MHz [OF assms(1) acc] assms(5)
    by auto
qed

definition example_loads :: "load list" where
  "example_loads = [\<lparr>ld_name = ''app'', ld_time = 1, ld_jiffies = 10, ld_freq = 2, ld_cpu = 0\<rparr>,
     \<lparr>ld_name = ''app'', ld_time = 3, ld_jiffies = 14, ld_freq = 8, ld_cpu = 0\<rparr>]"

theorem ferret_summary_witness:
  "j_at tree_json (process_summary tree_json ''7'' (account tree_json 100 [0, 1] example_loads)) ''duration'' = JReal (DFin 2)
   \<and> j_at tree_json (j_at tree_json (process_summary tree_json ''7'' (account tree_json 100 [0, 1] example_loads)) ''MHz'') ''0''
       = JReal (DFin (geometric_mean [2, 8]))"
proof -
  have "int_string 0 = ''0''" by (simp add: int_string_def show_int_def show_nat.simps digit_char_def char_of_def bit_0)
  moreover have "cpu_freqs 0 example_loads = [2, 8]"
    by (simp add: cpu_freqs_def on_cpu_def shares_def example_loads_def)
  moreover have "example_loads \<noteq> []" "length example_loads < 2 ^ 31" "ld_jiffies (last example_loads) \<noteq> ld_jiffies (hd example_loads)"
    "\<forall>x \<in> set example_loads. ld_cpu x \<in> set [0, 1] \<and> 0 \<le> ld_freq x \<and> ld_time x \<noteq> 0"
    "ld_time (last example_loads) - ld_time (hd example_loads) = 2"
    by (simp_all add: example_loads_def)
  ultimately show ?thesis
    using ferret_summary [OF tree.json_api_axioms, of 100 "[0, 1]" example_loads "''7''"] by simp
qed

end
