(* ===== verification/Ferret_Reader.thy ===== *)
theory Ferret_Reader
  imports Ferret_Stat Ferret_Load
begin

text \<open>
  The trace file as data. A trace is a header and a list of samples; \<open>header_rows\<close> and \<open>sample_rows\<close> are
  the rows a collector writes for them. The theorem says what the reader makes of such rows: for every
  thread, the accounting of the samples it is in, the last sample left out.
\<close>

section \<open>Traces\<close>

record status =
  st_pid :: i32
  st_comm :: string
  st_ppid :: i32
  st_utime :: i32
  st_stime :: i32
  st_cutime :: i32
  st_cstime :: i32
  st_threads :: i32
  st_starttime :: i32
  st_processor :: i32

record tsample =
  sm_time :: i64
  sm_freqs :: "(i32 \<times> i32) list"
  sm_status :: "status list"

definition status_tokens :: "status \<Rightarrow> string list" where
  "status_tokens st = [int_string (st_pid st), ''('' @ st_comm st @ '')'', int_string (st_ppid st), int_string (st_utime st),
     int_string (st_stime st), int_string (st_cutime st), int_string (st_cstime st), int_string (st_threads st),
     int_string (st_starttime st), int_string (st_processor st)]"

definition freq_tokens :: "(i32 \<times> i32) list \<Rightarrow> string list" where
  "freq_tokens fs = concat (map (\<lambda>(c, f). [int_string c, int_string f]) fs)"

definition row_of :: "string list \<Rightarrow> string" where
  "row_of ts = joined SP ts"

definition sample_rows :: "tsample \<Rightarrow> string list" where
  "sample_rows s = row_of [''T'', show_int (sint (sm_time s))]
     # (if sm_freqs s = [] then [] else [row_of (''F'' # freq_tokens (sm_freqs s))])
     @ map (\<lambda>st. row_of (''S'' # status_tokens st)) (sm_status s)"

definition header_rows :: "i32 \<Rightarrow> i32 list \<Rightarrow> string list \<Rightarrow> string list" where
  "header_rows hz cpus watch =
     [row_of [''I'', ''_SC_CLK_TCK'', int_string hz], row_of (''I'' # ''CPUList'' # map int_string cpus),
      row_of (''I'' # ''WatchList'' # watch), row_of (''I'' # ''Status'' # map fst pid_stat_spec)]"

section \<open>Tokens\<close>

lemma splitString_append:
  assumes "d \<notin> set t"
  shows "splitString d (t @ d # r) = t # splitString d r"
proof -
  have "takeWhile (\<lambda>c. c \<noteq> d) (t @ d # r) = t" "dropWhile (\<lambda>c. c \<noteq> d) (t @ d # r) = d # r"
    using assms by (induction t) auto
  then show ?thesis by (subst splitString.simps) simp
qed

lemma splitString_last:
  assumes "d \<notin> set t" "t \<noteq> []"
  shows "splitString d t = [t]"
proof -
  have "takeWhile (\<lambda>c. c \<noteq> d) t = t" "dropWhile (\<lambda>c. c \<noteq> d) t = []"
    using assms(1) by (auto simp: takeWhile_eq_all_conv dropWhile_eq_Nil_conv)
  moreover have "splitString d (tl []) = []" by (simp add: splitString.simps)
  ultimately show ?thesis using assms(2) by (subst splitString.simps) (simp only: if_False)
qed

lemma splitString_join:
  assumes "ts \<noteq> []" "\<forall>t \<in> set ts. d \<notin> set t" "last ts \<noteq> []"
  shows "splitString d (joined d ts) = ts"
  using assms
proof (induction ts)
  case (Cons t ts)
  then show ?case by (cases "ts = []") (simp_all add: splitString_last splitString_append joined_Cons)
qed simp

lemma splitString_lines:
  "\<forall>r \<in> set rows. d \<notin> set r \<Longrightarrow> splitString d (concat (map (\<lambda>r. r @ [d]) rows)) = rows"
proof (induction rows)
  case Nil
  then show ?case by (simp add: splitString.simps [of d "[]"])
qed (simp add: splitString_append)

text \<open>Tokens of numbers.\<close>

lemma show_nat_char: "c \<in> set (show_nat n) \<Longrightarrow> c_isdigit c"
  using show_nat_digits [of n] by (auto simp: list_all_iff)

lemma show_int_plain: "plain (show_int n)"
proof -
  have "\<not> c_isdigit SP" "\<not> c_isdigit NUL" "\<not> c_isdigit NL" by (simp_all add: c_isdigit_def NUL_def)
  moreover have "c_isdigit c \<or> c = CHR ''-''" if "c \<in> set (show_int n)" for c
    using that show_nat_char by (auto simp: show_int_def split: if_splits)
  moreover have "show_int n \<noteq> []" using show_nat_digits by (auto simp: show_int_def)
  ultimately show ?thesis by (auto simp: plain_def NUL_def)
qed

lemma int_string_plain [simp]: "plain (int_string n)"
  by (simp add: int_string_def show_int_plain)

lemma stoi_int_string [simp]: "stoi (int_string n) = Inr n"
proof -
  have "- (2 ^ 31) \<le> sint n" "sint n < 2 ^ 31"
    using sint_greater_eq [of n] sint_less [of n] by simp_all
  moreover have "word_of_int (sint n) = n" by (metis scast_eq scast_id)
  ultimately show ?thesis
    using scan_int_show_int [of "[]" "sint n"] by (simp add: stoi_def int_string_def)
qed

lemma stol_show_int:
  assumes "0 \<le> sint (n :: i64)"
  shows "stol (show_int (sint n)) = Inr n"
proof -
  have "\<bar>sint n\<bar> < 2 ^ 64" using assms sint_less [of n] by simp
  moreover have "word_of_int (sint n) = n" by (metis scast_eq scast_id)
  ultimately show ?thesis using scan_int_show_int [of "[]" "sint n"] by (simp add: stol_def)
qed

lemma c_string_no_NUL: "NUL \<notin> set s \<Longrightarrow> c_string s = s"
  by (auto simp: c_string_def takeWhile_eq_all_conv)

lemma set_joined: "set (joined d ts) \<subseteq> insert d (\<Union> (set ` set ts))"
  by (induction d ts rule: joined.induct) auto

text \<open>A row of plain tokens is read back as its tokens.\<close>

lemma row_tokens:
  assumes "ts \<noteq> []" "\<forall>t \<in> set ts. plain t"
  shows "splitString (CHR '' '') (c_string (row_of ts)) = ts"
proof -
  have "set (row_of ts) \<subseteq> insert SP (\<Union> (set ` set ts))" unfolding row_of_def by (rule set_joined)
  then have "NUL \<notin> set (row_of ts)" using assms(2) by (auto simp: plain_def NUL_def)
  then have "c_string (row_of ts) = row_of ts" by (rule c_string_no_NUL)
  then show ?thesis
    using splitString_join [OF assms(1), of SP] assms by (simp add: row_of_def plain_def)
qed

lemma row_no_NL: "\<forall>t \<in> set ts. plain t \<Longrightarrow> NL \<notin> set (row_of ts)"
  using set_joined [of SP ts] by (auto simp: row_of_def plain_def)

section \<open>The specification\<close>

definition seconds :: "i64 \<Rightarrow> real" where
  "seconds t = of_int (sint t) * (1 / 1000000)"

definition megahertz :: "(i32 \<times> i32) list \<Rightarrow> i32 \<Rightarrow> real" where
  "megahertz fs c = (case map_of (rev fs) c of None \<Rightarrow> 0 | Some f \<Rightarrow> of_int (sint f) / 1000)"

definition load_of :: "tsample \<Rightarrow> status \<Rightarrow> load" where
  "load_of s st = \<lparr>ld_name = st_comm st, ld_time = seconds (sm_time s), ld_jiffies = st_utime st + st_stime st,
     ld_freq = megahertz (sm_freqs s) (st_processor st), ld_cpu = st_processor st\<rparr>"

definition sample_loads :: "string list \<Rightarrow> string \<Rightarrow> tsample \<Rightarrow> load list" where
  "sample_loads banned pid s =
     map (load_of s) (filter (\<lambda>st. int_string (st_pid st) = pid \<and> st_comm st \<notin> set banned) (sm_status s))"

definition thread_loads :: "string list \<Rightarrow> string \<Rightarrow> tsample list \<Rightarrow> load list" where
  "thread_loads banned pid ss = concat (map (sample_loads banned pid) ss)"

definition status_ok :: "i32 list \<Rightarrow> status \<Rightarrow> bool" where
  "status_ok cpus st \<longleftrightarrow> st_processor st \<in> set cpus \<and> plain (''('' @ st_comm st @ '')'')"

definition sample_ok :: "i32 list \<Rightarrow> tsample \<Rightarrow> bool" where
  "sample_ok cpus s \<longleftrightarrow> 0 \<le> sint (sm_time s) \<and> distinct (map st_pid (sm_status s)) \<and> list_all (status_ok cpus) (sm_status s)"

lemma thread_loads_snoc: "thread_loads banned pid (ss @ [s]) = thread_loads banned pid ss @ sample_loads banned pid s"
  by (simp add: thread_loads_def)

lemma sample_loads_other:
  "pid \<notin> (\<lambda>st. int_string (st_pid st)) ` set (sm_status s) \<Longrightarrow> sample_loads banned pid s = []"
  by (auto simp: sample_loads_def filter_empty_conv)

lemma filter_key: "distinct (map f xs) \<Longrightarrow> x \<in> set xs \<Longrightarrow> filter (\<lambda>y. f y = f x \<and> P y) xs = (if P x then [x] else [])"
  by (induction xs) (auto simp: filter_empty_conv rev_image_eqI)

lemma sample_loads_one:
  assumes "distinct (map st_pid (sm_status s))" "st \<in> set (sm_status s)"
  shows "sample_loads banned (int_string (st_pid st)) s = (if st_comm st \<in> set banned then [] else [load_of s st])"
  using filter_key [OF assms, of "\<lambda>st. st_comm st \<notin> set banned"] by (simp add: sample_loads_def)

text \<open>Rows that the reader skips.\<close>

definition skipped :: "string \<Rightarrow> bool" where
  "skipped r \<longleftrightarrow> r \<noteq> [] \<and> (hd r = CHR ''E'' \<or> hd r = CHR ''#'')"

lemma process_skipped: "skipped r \<Longrightarrow> process_row J banned rd r = Inr rd"
proof -
  assume "skipped r"
  then obtain c cs where r: "r = c # cs" "c = CHR ''E'' \<or> c = CHR ''#''" by (cases r) (auto simp: skipped_def)
  then have "c_string r = c # c_string cs" "c \<noteq> SP" by (auto simp: c_string_def NUL_def)
  then have "splitString (CHR '' '') (c_string r)
      = (c # takeWhile (\<lambda>c. c \<noteq> SP) (c_string cs)) # splitString SP (tl (dropWhile (\<lambda>c. c \<noteq> SP) (c_string cs)))"
    by (subst splitString.simps) simp
  then show ?thesis using r(2) by (auto simp: process_row_def row_at_def)
qed

lemma process_rows_skipped:
  "fold_res (process_row J banned) rd rows = fold_res (process_row J banned) rd (filter (\<lambda>r. \<not> skipped r) rows)"
  by (induction rows arbitrary: rd) (auto simp: process_skipped bind_res_def split: sum.splits)

text \<open>A row of plain tokens by the type of its first.\<close>

lemma process_tokens:
  assumes "\<forall>t \<in> set ts. plain t"
  shows "process_row J banned rd (row_of (''I'' # ts)) = bind_res (ferret_process_info J (''I'' # ts) (traceProperties rd))
       (\<lambda>v. Inr (rd\<lparr>traceProperties := v\<rparr>))"
    and "process_row J banned rd (row_of (''T'' # ts)) = bind_res (end_sample J banned rd) (\<lambda>rd.
       bind_res (ferret_process_time J (''T'' # ts) (rd_state rd)) (\<lambda>v. Inr (rd\<lparr>rd_state := v\<rparr>)))"
    and "process_row J banned rd (row_of (''S'' # ts)) = bind_res (ferret_process_status J (traceProperties rd) (''S'' # ts) (rd_state rd))
       (\<lambda>v. Inr (rd\<lparr>rd_state := v\<rparr>))"
    and "process_row J banned rd (row_of (''F'' # ts)) = bind_res (ferret_process_cpu J (''F'' # ts) (rd_state rd))
       (\<lambda>v. Inr (rd\<lparr>rd_state := v\<rparr>))"
proof -
  have t: "splitString (CHR '' '') (c_string (row_of ([c] # ts))) = [c] # ts" if "plain [c]" for c
    using that assms by (intro row_tokens) auto
  have "plain ''I''" "plain ''T''" "plain ''S''" "plain ''F''" by (simp_all add: plain_def NUL_def)
  note t [OF this(1)] t [OF this(2)] t [OF this(3)] t [OF this(4)]
  note r = this
  show "process_row J banned rd (row_of (''I'' # ts)) = bind_res (ferret_process_info J (''I'' # ts) (traceProperties rd))
       (\<lambda>v. Inr (rd\<lparr>traceProperties := v\<rparr>))"
    "process_row J banned rd (row_of (''T'' # ts)) = bind_res (end_sample J banned rd) (\<lambda>rd.
       bind_res (ferret_process_time J (''T'' # ts) (rd_state rd)) (\<lambda>v. Inr (rd\<lparr>rd_state := v\<rparr>)))"
    "process_row J banned rd (row_of (''S'' # ts)) = bind_res (ferret_process_status J (traceProperties rd) (''S'' # ts) (rd_state rd))
       (\<lambda>v. Inr (rd\<lparr>rd_state := v\<rparr>))"
    "process_row J banned rd (row_of (''F'' # ts)) = bind_res (ferret_process_cpu J (''F'' # ts) (rd_state rd))
       (\<lambda>v. Inr (rd\<lparr>rd_state := v\<rparr>))"
    by (simp_all add: process_row_def r row_at_def)
qed

lemma array_of_elements:
  assumes "json_api J dictlike listlike"
  shows "j_elements J (array_of J xs) = xs"
  using json_api.elements_append_all [OF assms json_api.listlike_array [OF assms]] json_api.elements_array [OF assms]
  by (simp add: array_of_def)

section \<open>The header\<close>

lemma read_cpus: "distinct (cs @ cpus) \<Longrightarrow> fold_res read_cpu cs (map int_string cpus) = Inr (cs @ cpus)"
  by (induction cpus arbitrary: cs) (auto simp: read_cpu_def)

context json_api
begin

definition props_ok :: "i32 \<Rightarrow> i32 list \<Rightarrow> 'j \<Rightarrow> bool" where
  "props_ok hz cpus v \<longleftrightarrow> dictlike v \<and> j_asInt J (j_at J v ''tick'') = hz \<and> j_isMember J v ''cpus''
     \<and> map (j_asInt J) (j_elements J (j_at J v ''cpus'')) = sort_key sint cpus
     \<and> j_elements J (j_at J v ''stat_fields'') = map (j_of_string J) (map fst pid_stat_spec)"

lemma plain_labels: "\<forall>t \<in> set (map fst pid_stat_spec). plain t"
  by (simp add: pid_stat_spec_def plain_def NUL_def)

lemma read_header:
  assumes "distinct cpus" "\<forall>t \<in> set watch. plain t"
  shows "\<exists>v. fold_res (process_row J banned) (reader_new J) (header_rows hz cpus watch)
     = Inr ((reader_new J)\<lparr>traceProperties := v\<rparr>) \<and> props_ok hz cpus v"
proof -
  have p: "plain ''_SC_CLK_TCK''" "plain ''CPUList''" "plain ''WatchList''" "plain ''Status''" by (simp_all add: plain_def NUL_def)
  have i: "info_type ''_SC_CLK_TCK'' = 0" "info_type ''CPUList'' = 1" "info_type ''WatchList'' = 2" "info_type ''Status'' = 3"
    by (simp_all add: info_type_def infoTypeMap_def)
  have c: "fold_res read_cpu [] (map int_string cpus) = Inr cpus" using read_cpus [of "[]"] assms(1) by simp
  show ?thesis
    using assms(2) p plain_labels read_cpus [of "[]" cpus]
    by (simp add: header_rows_def process_tokens ferret_process_info_def row_at_def i c reader_new_def props_ok_def
        dictlike_set dictlike_null at_set isMember_set asInt_of_int array_of_elements [OF json_api_axioms] comp_def)
qed

section \<open>The rows of a sample\<close>

definition info_ok :: "status \<Rightarrow> 'j \<Rightarrow> bool" where
  "info_ok st d \<longleftrightarrow> j_asString J (j_at J d ''comm'') = st_comm st \<and> j_asInt J (j_at J d ''processor'') = st_processor st
     \<and> j_asInt J (j_at J d ''utime'') = st_utime st \<and> j_asInt J (j_at J d ''stime'') = st_stime st"

text \<open>The state holds a time, frequencies and the threads read so far.\<close>

definition holds :: "i64 \<Rightarrow> (i32 \<times> i32) list \<Rightarrow> status list \<Rightarrow> 'j \<Rightarrow> bool" where
  "holds t fs sts v \<longleftrightarrow> dictlike v \<and> \<not> j_empty J v \<and> j_asDouble J (j_at J v ''time'') = DFin (seconds t)
     \<and> (\<forall>c. j_asDouble J (j_at J (j_at J v ''cpu'') (int_string c)) = DFin (megahertz fs c))
     \<and> dictlike (j_at J v ''pid'')
     \<and> (\<forall>k. j_isMember J (j_at J v ''pid'') k \<longleftrightarrow> k \<in> (\<lambda>st. int_string (st_pid st)) ` set sts)
     \<and> (\<forall>st \<in> set sts. info_ok st (j_at J (j_at J v ''pid'') (int_string (st_pid st))))"

lemma read_time:
  assumes "dictlike v" "0 \<le> sint t"
  shows "\<exists>v'. ferret_process_time J [''T'', show_int (sint t)] v = Inr v' \<and> holds t [] [] v'"
proof -
  have "word_of_int (sint t) = t" by (metis scast_eq scast_id)
  then have "uint t = sint t mod 2 ^ LENGTH(64)" by (metis uint_word_of_int)
  then have "uint t = sint t" using assms(2) sint_less [of t] by simp
  then have "double_of_int (uint t) = DFin (of_int (sint t))" unfolding double_of_int_def by (rule arg_cong)
  moreover have "dictlike (j_clear J v)" using assms(1) by (rule dictlike_clear)
  ultimately show ?thesis
    using assms by (simp add: ferret_process_time_def row_at_def stol_show_int holds_def dictlike_set at_set at_clear at_null
        not_empty_set asDouble_of_double asDouble_null dictlike_null isMember_null seconds_def megahertz_def
        del: of_int_sint)
qed

lemma alternate_freqs: "alternate (freq_tokens fs) = (map (int_string \<circ> fst) fs, map (int_string \<circ> snd) fs)"
  by (induction fs) (auto simp: freq_tokens_def)

lemma read_scaled: "fold_res (\<lambda>fs s. bind_res (stoi s) (\<lambda>n. Inr (fs @ [freqScale n]))) acc (map int_string ns) = Inr (acc @ map freqScale ns)"
  by (induction ns arbitrary: acc) auto

lemma map_of_freqs:
  "map_of (rev (map (\<lambda>(c, f). (int_string c, g f)) fs)) (int_string c) = map_option g (map_of (rev fs) c)"
proof -
  have "rev (map (\<lambda>(c, f). (int_string c, g f)) fs) = map (\<lambda>(c, f). (int_string c, g f)) (rev fs)" by (simp add: rev_map)
  moreover have "map_of (map (\<lambda>(c, f). (int_string c, g f)) xs) (int_string c) = map_option g (map_of xs c)" for xs
    by (induction xs) auto
  ultimately show ?thesis by simp
qed

lemma freqScale_fin: "freqScale f = DFin (of_int (sint f) / 1000)"
  by (simp add: freqScale_def double_of_int_def del: of_int_sint)

lemma read_freqs_row:
  assumes "holds t [] [] v"
  shows "\<exists>v'. ferret_process_cpu J (''F'' # freq_tokens fs) v = Inr v' \<and> holds t fs [] v'"
proof -
  let ?kfs = "map (\<lambda>(c, f). (int_string c, freqScale f)) fs"
  let ?cpu = "foldl (\<lambda>v (k, f). j_set J v k (j_of_double J f)) (j_null J) ?kfs"
  have z: "zip (map (int_string \<circ> fst) fs) (map freqScale (map snd fs)) = ?kfs"
    by (induction fs) auto
  have "?cpu = foldl (\<lambda>v (k, x). j_set J v k x) (j_null J) (map (\<lambda>(c, f). (int_string c, j_of_double J (freqScale f))) fs)"
    by (simp add: foldl_map comp_def case_prod_beta)
  then have "j_at J ?cpu (int_string c)
      = (case map_of (rev fs) c of None \<Rightarrow> j_null J | Some f \<Rightarrow> j_of_double J (freqScale f))" for c
    by (simp add: at_set_all dictlike_null map_of_freqs at_null split: option.splits)
  then have "j_asDouble J (j_at J ?cpu (int_string c)) = DFin (megahertz fs c)" for c
    by (simp add: megahertz_def asDouble_null asDouble_of_double freqScale_fin del: of_int_sint split: option.split)
  moreover have "ferret_process_cpu J (''F'' # freq_tokens fs) v = Inr (j_set J v ''cpu'' ?cpu)"
    using read_scaled [of "[]" "map snd fs"] z by (simp add: ferret_process_cpu_def alternate_freqs)
  ultimately show ?thesis
    using assms by (auto simp: holds_def dictlike_set at_set not_empty_set)
qed

lemma field_names:
  assumes "props_ok hz cpus v"
  shows "map (stat_field_name J v) [0, 1, 2, 3, 4, 5, 6, 7, 8, 9]
     = [''pid'', ''comm'', ''ppid'', ''utime'', ''stime'', ''cutime'', ''cstime'', ''num_threads'', ''starttime'', ''processor'']"
  using assms by (simp add: props_ok_def stat_field_name_def pid_stat_spec_def asString_of_string)

lemma status_dict:
  assumes "props_ok hz cpus props"
  shows "\<exists>d. fold_res (status_field J props) (j_null J, []) (enumerate 0 (status_tokens st)) = Inr (d, int_string (st_pid st)) \<and> info_ok st d"
  using field_names [OF assms]
  by (simp add: status_tokens_def status_field_def Let_def info_ok_def dictlike_set dictlike_null at_set asInt_of_int
      asString_of_string numeral_eq_Suc)

lemma read_status:
  assumes "props_ok hz cpus props" "holds t fs sts v" "st_pid st \<notin> st_pid ` set sts"
  shows "\<exists>v'. ferret_process_status J props (''S'' # status_tokens st) v = Inr v' \<and> holds t fs (sts @ [st]) v'"
proof -
  obtain d where d: "fold_res (status_field J props) (j_null J, []) (enumerate 0 (status_tokens st)) = Inr (d, int_string (st_pid st))"
    "info_ok st d" using status_dict [OF assms(1)] by blast
  define u where "u = (if j_isMember J v ''pid'' then v else j_set J v ''pid'' (j_null J))"
  have v: "dictlike v" "\<not> j_empty J v" using assms(2) by (simp_all add: holds_def)
  have u: "dictlike u" "j_at J u k = j_at J v k" for k
    using v(1) at_not_member [OF v(1), of "''pid''"] by (auto simp: u_def dictlike_set at_set)
  have other: "st_pid x \<noteq> st_pid st" if "x \<in> set sts" for x using assms(3) that by (metis image_eqI)
  let ?pids = "j_set J (j_at J v ''pid'') (int_string (st_pid st)) d"
  have "ferret_process_status J props (''S'' # status_tokens st) v = Inr (j_set J u ''pid'' ?pids)"
    by (simp add: ferret_process_status_def d(1) Let_def u(2) flip: u_def)
  moreover have "holds t fs (sts @ [st]) (j_set J u ''pid'' ?pids)"
    using assms(2) other d(2) u by (auto simp: holds_def dictlike_set at_set isMember_set not_empty_set)
  ultimately show ?thesis by blast
qed

lemma status_plain:
  assumes "status_ok cpus st"
  shows "\<forall>t \<in> set (status_tokens st). plain t"
  using assms by (simp add: status_ok_def status_tokens_def)

text \<open>All rows of a sample but the first.\<close>

lemma read_status_rows:
  assumes "props_ok hz cpus (traceProperties rd)" "holds t fs sts (rd_state rd)"
    and "distinct (map st_pid (sts @ news))" "list_all (status_ok cpus) news"
  shows "\<exists>v. fold_res (process_row J banned) rd (map (\<lambda>st. row_of (''S'' # status_tokens st)) news)
      = Inr (rd\<lparr>rd_state := v\<rparr>) \<and> holds t fs (sts @ news) v"
  using assms
proof (induction news arbitrary: sts rd)
  case Nil
  then show ?case by (intro exI [of _ "rd_state rd"]) simp
next
  case (Cons st news)
  then obtain v where v: "ferret_process_status J (traceProperties rd) (''S'' # status_tokens st) (rd_state rd) = Inr v"
    "holds t fs (sts @ [st]) v" using read_status [OF Cons.prems(1,2), of st] by auto
  have "\<exists>v'. fold_res (process_row J banned) (rd\<lparr>rd_state := v\<rparr>) (map (\<lambda>st. row_of (''S'' # status_tokens st)) news)
      = Inr (rd\<lparr>rd_state := v\<rparr>\<lparr>rd_state := v'\<rparr>) \<and> holds t fs ((sts @ [st]) @ news) v'"
    using Cons.prems v(2) by (intro Cons.IH) auto
  then show ?case
    using Cons.prems(4) v(1) process_tokens(3) [of "status_tokens st" J banned rd] status_plain [of cpus st] by simp
qed

lemma freq_plain: "\<forall>t \<in> set (freq_tokens fs). plain t"
  by (auto simp: freq_tokens_def)

lemma read_sample_body:
  assumes "props_ok hz cpus (traceProperties rd)" "holds (sm_time s) [] [] (rd_state rd)" "sample_ok cpus s"
  shows "\<exists>v. fold_res (process_row J banned) rd (tl (sample_rows s)) = Inr (rd\<lparr>rd_state := v\<rparr>)
     \<and> holds (sm_time s) (sm_freqs s) (sm_status s) v"
proof -
  let ?rows = "if sm_freqs s = [] then [] else [row_of (''F'' # freq_tokens (sm_freqs s))]"
  obtain v where v: "fold_res (process_row J banned) rd ?rows = Inr (rd\<lparr>rd_state := v\<rparr>)" "holds (sm_time s) (sm_freqs s) [] v"
  proof (cases "sm_freqs s = []")
    case True
    then show ?thesis using that [of "rd_state rd"] assms(2) by simp
  next
    case False
    obtain v where "ferret_process_cpu J (''F'' # freq_tokens (sm_freqs s)) (rd_state rd) = Inr v"
      "holds (sm_time s) (sm_freqs s) [] v" using read_freqs_row [OF assms(2)] by blast
    then show ?thesis
      using that [of v] False process_tokens(4) [OF freq_plain, of J banned rd "sm_freqs s"] by simp
  qed
  then show ?thesis
    using read_status_rows [of hz cpus "rd\<lparr>rd_state := v\<rparr>" "sm_time s" "sm_freqs s" "[]" "sm_status s" banned] assms(1,3)
    by (auto simp: sample_rows_def fold_res_append sample_ok_def)
qed

section \<open>The end of a sample\<close>

definition add_load :: "load \<Rightarrow> 'j ferret_process \<Rightarrow> 'j ferret_process" where
  "add_load x p = process_add J (ld_name x) (DFin (ld_time x)) (ld_jiffies x) (DFin (ld_freq x)) (ld_cpu x) p"

lemma account_simps: "account J hz cpus [] = FerretProcess_new J hz cpus" "account J hz cpus (xs @ [x]) = add_load x (account J hz cpus xs)"
  by (simp_all add: account_def add_load_def)

definition process_or_new :: "'j reader \<Rightarrow> string \<Rightarrow> 'j ferret_process" where
  "process_or_new rd k = (case map_of (pidHistory rd) k of None \<Rightarrow> FerretProcess_new J (tick rd) (cpuNrs rd) | Some p \<Rightarrow> p)"

lemma sample_pid_step:
  assumes "holds (sm_time s) (sm_freqs s) (sm_status s) (rd_state rd)" "st \<in> set (sm_status s)" "st_processor st \<in> set (cpuNrs rd)"
  shows "sample_pid J banned rd (int_string (st_pid st)) = Inr (if st_comm st \<in> set banned then rd
     else rd\<lparr>pidHistory := map_set (int_string (st_pid st)) (add_load (load_of s st) (process_or_new rd (int_string (st_pid st)))) (pidHistory rd)\<rparr>)"
  using assms by (auto simp: holds_def info_ok_def sample_pid_def Let_def add_load_def load_of_def process_or_new_def)

lemma sample_pids:
  assumes "holds (sm_time s) (sm_freqs s) (sm_status s) (rd_state rd)" "distinct (map st_pid (sm_status s))"
    and "\<forall>st \<in> set (sm_status s). st_processor st \<in> set (cpuNrs rd)"
    and "distinct ks" "set ks \<subseteq> (\<lambda>st. int_string (st_pid st)) ` set (sm_status s)" "map_wf (pidHistory rd)"
  shows "\<exists>m. fold_res (sample_pid J banned) rd ks = Inr (rd\<lparr>pidHistory := m\<rparr>) \<and> map_wf m
     \<and> (\<forall>k. map_of m k = (if k \<in> set ks \<and> sample_loads banned k s \<noteq> []
          then Some (add_load (hd (sample_loads banned k s)) (process_or_new rd k)) else map_of (pidHistory rd) k))"
  using assms
proof (induction ks arbitrary: rd)
  case Nil
  then show ?case by (intro exI [of _ "pidHistory rd"]) simp
next
  case (Cons k ks)
  then obtain st where st: "st \<in> set (sm_status s)" "k = int_string (st_pid st)" by auto
  define m1 where "m1 = (if st_comm st \<in> set banned then pidHistory rd
     else map_set k (add_load (load_of s st) (process_or_new rd k)) (pidHistory rd))"
  have 1: "sample_pid J banned rd k = Inr (rd\<lparr>pidHistory := m1\<rparr>)"
    using sample_pid_step [OF Cons.prems(1) st(1)] Cons.prems(3) st by (simp add: m1_def)
  have new: "process_or_new (rd\<lparr>pidHistory := m1\<rparr>) k' = process_or_new rd k'" if "k' \<noteq> k" for k'
    using that by (simp add: process_or_new_def m1_def map_of_map_set split: option.split)
  obtain m where m: "fold_res (sample_pid J banned) (rd\<lparr>pidHistory := m1\<rparr>) ks = Inr (rd\<lparr>pidHistory := m1\<rparr>\<lparr>pidHistory := m\<rparr>)"
    "map_wf m" "\<forall>k'. map_of m k' = (if k' \<in> set ks \<and> sample_loads banned k' s \<noteq> []
      then Some (add_load (hd (sample_loads banned k' s)) (process_or_new (rd\<lparr>pidHistory := m1\<rparr>) k')) else map_of m1 k')"
  proof -
    have "map_wf m1" using Cons.prems(6) by (simp add: m1_def map_wf_map_set)
    then have "\<exists>m. fold_res (sample_pid J banned) (rd\<lparr>pidHistory := m1\<rparr>) ks = Inr (rd\<lparr>pidHistory := m1\<rparr>\<lparr>pidHistory := m\<rparr>)
      \<and> map_wf m \<and> (\<forall>k'. map_of m k' = (if k' \<in> set ks \<and> sample_loads banned k' s \<noteq> []
      then Some (add_load (hd (sample_loads banned k' s)) (process_or_new (rd\<lparr>pidHistory := m1\<rparr>) k'))
      else map_of (pidHistory (rd\<lparr>pidHistory := m1\<rparr>)) k'))"
      using Cons.prems by (intro Cons.IH) simp_all
    then show ?thesis using that by (elim exE conjE) simp
  qed
  have "map_of m k' = (if k' \<in> set (k # ks) \<and> sample_loads banned k' s \<noteq> []
      then Some (add_load (hd (sample_loads banned k' s)) (process_or_new rd k')) else map_of (pidHistory rd) k')" for k'
    using m(3) new [of k'] Cons.prems(4) sample_loads_one [OF Cons.prems(2) st(1), of banned]
    by (cases "k' = k") (auto simp: m1_def map_of_map_set st(2))
  with 1 m(1,2) show ?case by auto
qed

definition history :: "i32 \<Rightarrow> i32 list \<Rightarrow> string list \<Rightarrow> tsample list \<Rightarrow> (string, 'j ferret_process) std_map \<Rightarrow> bool" where
  "history hz cpus banned ss m \<longleftrightarrow> map_wf m \<and> (\<forall>k. map_of m k =
     (if thread_loads banned k ss = [] then None else Some (account J hz (sort_key sint cpus) (thread_loads banned k ss))))"

lemma history_step:
  assumes "holds (sm_time s) (sm_freqs s) (sm_status s) (rd_state rd)" "sample_ok cpus s"
    and "cpuNrs rd = sort_key sint cpus" "tick rd = hz" "history hz cpus banned ss (pidHistory rd)"
  shows "\<exists>m. fold_res (sample_pid J banned) rd (j_getMemberNames J (j_at J (rd_state rd) ''pid'')) = Inr (rd\<lparr>pidHistory := m\<rparr>)
     \<and> history hz cpus banned (ss @ [s]) m"
proof -
  let ?ks = "j_getMemberNames J (j_at J (rd_state rd) ''pid'')"
  have ks: "distinct ?ks" "set ?ks = (\<lambda>st. int_string (st_pid st)) ` set (sm_status s)"
    using assms(1) members_distinct members_iff by (auto simp: holds_def)
  have ok: "distinct (map st_pid (sm_status s))" "\<forall>st \<in> set (sm_status s). st_processor st \<in> set (cpuNrs rd)"
    using assms(2,3) by (auto simp: sample_ok_def list_all_iff status_ok_def)
  have wf: "map_wf (pidHistory rd)" using assms(5) by (simp add: history_def)
  obtain m where m: "fold_res (sample_pid J banned) rd ?ks = Inr (rd\<lparr>pidHistory := m\<rparr>)" "map_wf m"
    "\<forall>k. map_of m k = (if k \<in> set ?ks \<and> sample_loads banned k s \<noteq> []
          then Some (add_load (hd (sample_loads banned k s)) (process_or_new rd k)) else map_of (pidHistory rd) k)"
    using sample_pids [OF assms(1) ok ks(1) _ wf, of banned] ks(2) by blast
  have "process_or_new rd k = account J hz (sort_key sint cpus) (thread_loads banned k ss)" for k
    using assms(3-5) by (auto simp: process_or_new_def history_def account_simps)
  moreover have "sample_loads banned k s = [] \<or> (\<exists>l. sample_loads banned k s = [l] \<and> k \<in> set ?ks)" for k
  proof (cases "k \<in> set ?ks")
    case True
    then obtain st where "st \<in> set (sm_status s)" "k = int_string (st_pid st)" using ks(2) by auto
    then show ?thesis using sample_loads_one [OF ok(1), of st banned] True by simp
  qed (use sample_loads_other [of k s banned] ks(2) in simp)
  ultimately have "history hz cpus banned (ss @ [s]) m"
    using m(2,3) assms(5) unfolding history_def thread_loads_snoc
    by (metis (no_types, lifting) account_simps(2) append_is_Nil_conv append_self_conv list.sel(1) not_Cons_self2)
  with m(1) show ?thesis by blast
qed

section \<open>All samples\<close>

definition reads :: "i32 \<Rightarrow> i32 list \<Rightarrow> string list \<Rightarrow> tsample list \<Rightarrow> 'j reader \<Rightarrow> bool" where
  "reads hz cpus banned ss rd \<longleftrightarrow> props_ok hz cpus (traceProperties rd) \<and> history hz cpus banned (butlast ss) (pidHistory rd)
     \<and> (if ss = [] then rd_state rd = j_null J
        else holds (sm_time (last ss)) (sm_freqs (last ss)) (sm_status (last ss)) (rd_state rd))
     \<and> initData rd = started rd \<and> started rd = (butlast ss \<noteq> [])
     \<and> (if started rd then tick rd = hz \<and> cpuNrs rd = sort_key sint cpus
            \<and> traceStart rd = DFin (seconds (sm_time (hd ss))) \<and> traceEnd rd = DFin (seconds (sm_time (last (butlast ss))))
        else cpuNrs rd = [] \<and> traceStart rd = DFin 0 \<and> traceEnd rd = DFin 0)"

lemma history_Nil: "history hz cpus banned [] []"
  by (simp add: history_def map_wf_def thread_loads_def)

lemma reads_new: "props_ok hz cpus v \<Longrightarrow> reads hz cpus banned [] ((reader_new J)\<lparr>traceProperties := v\<rparr>)"
  by (simp add: reads_def reader_new_def history_Nil)

text \<open>The end of the last sample, and the time of the next.\<close>

lemma end_sample_reads:
  assumes "reads hz cpus banned ss rd" "list_all (sample_ok cpus) ss" "ss \<noteq> []"
  shows "\<exists>rd'. end_sample J banned rd = Inr rd' \<and> traceProperties rd' = traceProperties rd \<and> rd_state rd' = rd_state rd
     \<and> history hz cpus banned ss (pidHistory rd') \<and> initData rd' \<and> started rd' \<and> tick rd' = hz \<and> cpuNrs rd' = sort_key sint cpus
     \<and> traceStart rd' = DFin (seconds (sm_time (hd ss))) \<and> traceEnd rd' = DFin (seconds (sm_time (last ss)))"
proof -
  let ?time = "DFin (seconds (sm_time (last ss)))"
  have st: "holds (sm_time (last ss)) (sm_freqs (last ss)) (sm_status (last ss)) (rd_state rd)"
    and hist: "history hz cpus banned (butlast ss) (pidHistory rd)"
    and props: "props_ok hz cpus (traceProperties rd)"
    using assms(1,3) by (simp_all add: reads_def)
  have hd: "hd ss = last ss" if "butlast ss = []" using that assms(3) by (cases ss) (auto split: if_splits)
  have bl: "butlast ss = [] \<or> hd ss = hd (butlast ss)" by (cases ss) auto
  obtain rd1 where rd1: "init_data J rd = Inr rd1" "initData rd1" "tick rd1 = hz" "cpuNrs rd1 = sort_key sint cpus"
    "traceProperties rd1 = traceProperties rd" "rd_state rd1 = rd_state rd" "pidHistory rd1 = pidHistory rd"
    "started rd1 = started rd" "traceStart rd1 = traceStart rd"
    using assms(1) props by (auto simp: reads_def init_data_def props_ok_def split: if_splits)
  define rd2 where "rd2 = (if started rd1 then rd1 else rd1\<lparr>traceStart := ?time, started := True\<rparr>)\<lparr>traceEnd := ?time\<rparr>"
  have rd2: "initData rd2" "tick rd2 = hz" "cpuNrs rd2 = sort_key sint cpus" "traceProperties rd2 = traceProperties rd"
    "rd_state rd2 = rd_state rd" "pidHistory rd2 = pidHistory rd" "started rd2" "traceEnd rd2 = ?time"
    "traceStart rd2 = DFin (seconds (sm_time (hd ss)))"
    using rd1 assms(1) hd by (auto simp: rd2_def reads_def)
  have last: "sample_ok cpus (last ss)" using assms(2,3) by (simp add: list_all_iff)
  obtain m where m: "fold_res (sample_pid J banned) rd2 (j_getMemberNames J (j_at J (rd_state rd2) ''pid'')) = Inr (rd2\<lparr>pidHistory := m\<rparr>)"
    "history hz cpus banned (butlast ss @ [last ss]) m"
    using history_step [of "last ss" rd2 cpus hz banned "butlast ss"] st last rd2 hist by auto
  have "end_sample J banned rd = Inr (rd2\<lparr>pidHistory := m\<rparr>)"
    using st m(1) rd1(1,6,8) by (cases "started rd") (simp_all add: end_sample_def holds_def rd2_def Let_def)
  then show ?thesis using m(2) rd2 assms(3) by auto
qed

lemma reads_sample:
  assumes "reads hz cpus banned ss rd" "list_all (sample_ok cpus) (ss @ [s])"
  shows "\<exists>rd'. fold_res (process_row J banned) rd (sample_rows s) = Inr rd' \<and> reads hz cpus banned (ss @ [s]) rd'"
proof -
  obtain rd1 where rd1: "end_sample J banned rd = Inr rd1" "traceProperties rd1 = traceProperties rd" "dictlike (rd_state rd1)"
    "history hz cpus banned ss (pidHistory rd1)" "initData rd1 = started rd1" "started rd1 = (ss \<noteq> [])"
    "if started rd1 then tick rd1 = hz \<and> cpuNrs rd1 = sort_key sint cpus
       \<and> traceStart rd1 = DFin (seconds (sm_time (hd (ss @ [s])))) \<and> traceEnd rd1 = DFin (seconds (sm_time (last ss)))
     else cpuNrs rd1 = [] \<and> traceStart rd1 = DFin 0 \<and> traceEnd rd1 = DFin 0"
  proof (cases "ss = []")
    case True
    then show ?thesis using that [of rd] assms(1) by (auto simp: reads_def end_sample_def empty_null dictlike_null)
  next
    case False
    then have "dictlike (rd_state rd)" using assms(1) by (simp add: reads_def holds_def)
    then show ?thesis using that end_sample_reads [OF assms(1) _ False] assms(2) False by fastforce
  qed
  have ok: "sample_ok cpus s" "0 \<le> sint (sm_time s)" using assms(2) by (simp_all add: sample_ok_def)
  obtain v where v: "ferret_process_time J [''T'', show_int (sint (sm_time s))] (rd_state rd1) = Inr v" "holds (sm_time s) [] [] v"
    using read_time [OF rd1(3) ok(2)] by blast
  have props: "props_ok hz cpus (traceProperties rd1)" using assms(1) rd1(2) by (simp add: reads_def)
  obtain v' where v': "fold_res (process_row J banned) (rd1\<lparr>rd_state := v\<rparr>) (tl (sample_rows s)) = Inr (rd1\<lparr>rd_state := v'\<rparr>)"
    "holds (sm_time s) (sm_freqs s) (sm_status s) v'"
    using read_sample_body [of hz cpus "rd1\<lparr>rd_state := v\<rparr>" s banned] props v(2) ok(1) by auto
  have "process_row J banned rd (hd (sample_rows s)) = Inr (rd1\<lparr>rd_state := v\<rparr>)"
    using rd1(1) v(1) process_tokens(2) [of "[show_int (sint (sm_time s))]" J banned rd] by (simp add: sample_rows_def show_int_plain)
  then have "fold_res (process_row J banned) rd (sample_rows s) = Inr (rd1\<lparr>rd_state := v'\<rparr>)"
    using v'(1) by (simp add: sample_rows_def)
  moreover have "reads hz cpus banned (ss @ [s]) (rd1\<lparr>rd_state := v'\<rparr>)"
    using v'(2) rd1 props by (simp add: reads_def)
  ultimately show ?thesis by blast
qed

lemma reads_samples:
  assumes "reads hz cpus banned [] rd" "list_all (sample_ok cpus) ss"
  shows "\<exists>rd'. fold_res (process_row J banned) rd (concat (map sample_rows ss)) = Inr rd' \<and> reads hz cpus banned ss rd'"
  using assms(2)
proof (induction ss rule: rev_induct)
  case (snoc s ss)
  then obtain rd1 where "fold_res (process_row J banned) rd (concat (map sample_rows ss)) = Inr rd1" "reads hz cpus banned ss rd1"
    by auto
  then show ?case using reads_sample [of hz cpus banned ss rd1 s] snoc.prems by (auto simp: fold_res_append)
qed (use assms(1) in simp)

end

lemma trace_read:
  assumes "json_api J dictlike listlike" "distinct cpus" "\<forall>t \<in> set watch. plain t" "list_all (sample_ok cpus) ss"
    and "filter (\<lambda>r. \<not> skipped r) rows = header_rows hz cpus watch @ concat (map sample_rows ss)"
  shows "\<exists>rd. fold_res (process_row J banned) (reader_new J) rows = Inr rd
     \<and> (\<forall>k. map_of (pidHistory rd) k = (if thread_loads banned k (butlast ss) = [] then None
            else Some (account J hz (sort_key sint cpus) (thread_loads banned k (butlast ss)))))
     \<and> (2 \<le> length ss \<longrightarrow> traceStart rd = DFin (seconds (sm_time (hd ss))) \<and> traceEnd rd = DFin (seconds (sm_time (last (butlast ss)))))"
proof -
  obtain v where v: "fold_res (process_row J banned) (reader_new J) (header_rows hz cpus watch) = Inr ((reader_new J)\<lparr>traceProperties := v\<rparr>)"
    "json_api.props_ok J dictlike hz cpus v" using json_api.read_header [OF assms(1-3)] by blast
  from json_api.reads_samples [OF assms(1) json_api.reads_new [OF assms(1) v(2)] assms(4), of banned]
  obtain rd where rd: "fold_res (process_row J banned) ((reader_new J)\<lparr>traceProperties := v\<rparr>) (concat (map sample_rows ss)) = Inr rd"
    "json_api.reads J dictlike hz cpus banned ss rd" by blast
  have "fold_res (process_row J banned) (reader_new J) rows = Inr rd"
    using v(1) rd(1) by (subst process_rows_skipped) (simp add: assms(5) fold_res_append)
  moreover have "butlast ss \<noteq> []" if "2 \<le> length ss" using that by (cases ss rule: rev_cases) auto
  ultimately show ?thesis
    using rd(2) by (auto simp: json_api.reads_def [OF assms(1)] json_api.history_def [OF assms(1)])
qed

text \<open>
  C6: the reader of the trace gives every thread the accounting of its samples, the last sample of
  the trace left out. Whatever rows of errors and comments are in the file, and in whatever order the
  JSON library lists members, reading the rows of a header and of a list of well-formed samples succeeds;
  a thread has an entry exactly if it is in one of the samples but the last, under a name that is
  not banned, and its entry is the accounting of its jiffies, CPU and frequency in these samples. The
  trace starts with the first sample and ends with the last but one.
\<close>

theorem ferret_trace_read:
  assumes "json_api J dictlike listlike" "distinct cpus" "\<forall>t \<in> set watch. plain t" "list_all (sample_ok cpus) ss"
    and "filter (\<lambda>r. \<not> skipped r) rows = header_rows hz cpus watch @ concat (map sample_rows ss)"
  shows "\<exists>rd. fold_res (process_row J banned) (reader_new J) rows = Inr rd
     \<and> (\<forall>k. map_of (pidHistory rd) k = (if thread_loads banned k (butlast ss) = [] then None
            else Some (account J hz (sort_key sint cpus) (thread_loads banned k (butlast ss)))))
     \<and> (2 \<le> length ss \<longrightarrow> traceStart rd = DFin (seconds (sm_time (hd ss))) \<and> traceEnd rd = DFin (seconds (sm_time (last (butlast ss)))))"
  by (rule trace_read [OF assms])

lemma skipped_row: "skipped (row_of ((c # t) # ts)) \<longleftrightarrow> c = CHR ''E'' \<or> c = CHR ''#''"
  by (cases ts) (auto simp: row_of_def skipped_def)

lemma trace_not_skipped:
  "r \<in> set (header_rows hz cpus watch @ concat (map sample_rows ss)) \<Longrightarrow> \<not> skipped r"
  by (auto simp: header_rows_def sample_rows_def skipped_row split: if_splits)

definition example_trace :: "tsample list" where
  "example_trace = map (\<lambda>t. \<lparr>sm_time = t, sm_freqs = [(0, 2000)], sm_status = [\<lparr>st_pid = 7, st_comm = ''app'', st_ppid = 1,
     st_utime = ucast t, st_stime = 0, st_cutime = 0, st_cstime = 0, st_threads = 1, st_starttime = 5, st_processor = 0\<rparr>]\<rparr>) [10, 30, 60]"

theorem ferret_trace_read_witness:
  "\<exists>rd. fold_res (process_row tree_json []) (reader_new tree_json)
       (header_rows 100 [0] [] @ ''E gone'' # concat (map sample_rows example_trace)) = Inr rd
     \<and> traceEnd rd = DFin (seconds 30) \<and> map_of (pidHistory rd) ''9'' = None"
proof -
  let ?rows = "header_rows 100 [0] [] @ ''E gone'' # concat (map sample_rows example_trace)"
  have "filter (\<lambda>r. \<not> skipped r) (header_rows 100 [0] [] @ concat (map sample_rows example_trace))
      = header_rows 100 [0] [] @ concat (map sample_rows example_trace)"
    using trace_not_skipped [of _ 100 "[0]" "[]" example_trace] by (intro filter_True) blast
  then have rows: "filter (\<lambda>r. \<not> skipped r) ?rows = header_rows 100 [0] [] @ concat (map sample_rows example_trace)"
    by (simp add: skipped_def)
  have ok: "list_all (sample_ok [0]) example_trace"
    by (simp add: example_trace_def sample_ok_def status_ok_def plain_def NUL_def)
  have other: "thread_loads [] ''9'' (butlast example_trace) = []"
  proof -
    have "int_string 7 \<noteq> ''9''" by (simp add: int_string_def show_int_def show_nat.simps digit_char_def char_of_def bit_0)
    then show ?thesis by (simp add: thread_loads_def sample_loads_def example_trace_def)
  qed
  from ferret_trace_read [OF tree.json_api_axioms _ _ ok rows, of "[]"] obtain rd where
    "fold_res (process_row tree_json []) (reader_new tree_json) ?rows = Inr rd"
    "map_of (pidHistory rd) ''9'' = None" "traceEnd rd = DFin (seconds (sm_time (last (butlast example_trace))))"
    using other by (auto simp: example_trace_def)
  then show ?thesis by (auto simp: example_trace_def)
qed

end
