(* ===== verification/Power_Daemon.thy ===== *)
theory Power_Daemon
  imports Json_Api C_Library
begin

text \<open>
  \<open>PowerDaemon\<close> (\<open>power.cpp\<close>, \<open>power.hpp\<close>), the connection to the machine that measures power:
  how it connects, how messages are sent and received, and how a measurement starts. Messages are strings of
  bytes. The socket calls are arguments; the descriptor is \<open>-1\<close> when there is no connection. The member
  \<open>mResultNames\<close> is never used and left out.
\<close>

section \<open>State\<close>

record 'j power_daemon =
  mSocketFD :: int
  pdConfig :: "'j"
  mCollectRawData :: bool
  mBufferSize :: u32

definition PowerDaemon_new :: "'j json_ops \<Rightarrow> 'j power_daemon" where
  "PowerDaemon_new J = \<lparr>mSocketFD = - 1, pdConfig = j_null J, mCollectRawData = False, mBufferSize = 120\<rparr>"

definition setRawCollection :: "bool \<Rightarrow> 'j power_daemon \<Rightarrow> 'j power_daemon" where
  "setRawCollection v d = d\<lparr>mCollectRawData := v\<rparr>"

definition setBufferSize :: "i32 \<Rightarrow> 'j power_daemon \<Rightarrow> 'j power_daemon" where
  "setBufferSize v d = d\<lparr>mBufferSize := v\<rparr>"

text \<open>
  What \<open>connect\<close> and \<open>read\<close> can answer: \<open>C_progress\<close> is the error \<open>EINPROGRESS\<close>, \<open>R_again\<close>
  one of \<open>EAGAIN\<close> and \<open>EWOULDBLOCK\<close>; no data means that the peer has closed the connection.
\<close>

datatype connect_answer = C_done | C_progress | C_error
datatype read_answer = R_data string | R_again | R_error

text \<open>
  \<open>'a\<close> is the type of addresses. \<open>po_getaddrinfo\<close> gives nothing on an error; \<open>po_poll_out\<close> the result
  of \<open>poll\<close>; \<open>po_poll_in\<close> also whether one of \<open>POLLERR\<close>, \<open>POLLHUP\<close>, \<open>POLLNVAL\<close> is set;
  \<open>po_sockerr\<close> the pending error of the socket, if \<open>getsockopt\<close> succeeds; \<open>po_malloc\<close> whether there is
  memory.
\<close>

record ('a, 'w) power_ops =
  po_getaddrinfo :: "string \<Rightarrow> string \<Rightarrow> 'w \<Rightarrow> 'a list option \<times> 'w"
  po_socket :: "'a \<Rightarrow> 'w \<Rightarrow> int \<times> 'w"
  po_getfl :: "int \<Rightarrow> 'w \<Rightarrow> i32 \<times> 'w"
  po_setfl :: "int \<Rightarrow> i32 \<Rightarrow> 'w \<Rightarrow> bool \<times> 'w"
  po_connect :: "int \<Rightarrow> 'a \<Rightarrow> 'w \<Rightarrow> connect_answer \<times> 'w"
  po_poll_out :: "int \<Rightarrow> i32 \<Rightarrow> 'w \<Rightarrow> int \<times> 'w"
  po_sockerr :: "int \<Rightarrow> 'w \<Rightarrow> i32 option \<times> 'w"
  po_close :: "int \<Rightarrow> 'w \<Rightarrow> 'w"
  po_write :: "int \<Rightarrow> string \<Rightarrow> 'w \<Rightarrow> int \<times> 'w"
  po_poll_in :: "int \<Rightarrow> i32 \<Rightarrow> 'w \<Rightarrow> int \<times> bool \<times> 'w"
  po_read :: "int \<Rightarrow> nat \<Rightarrow> 'w \<Rightarrow> read_answer \<times> 'w"
  po_malloc :: "u32 \<Rightarrow> 'w \<Rightarrow> bool"

section \<open>Connecting\<close>

definition O_NONBLOCK :: i32 where
  "O_NONBLOCK = 0x800"

text \<open>Waiting for a connection in progress: whether it was made; a socket that failed is closed.\<close>

definition await_connection :: "('a, 'w) power_ops \<Rightarrow> int \<Rightarrow> i32 \<Rightarrow> 'w \<Rightarrow> bool \<times> 'w" where
  "await_connection P h timeout w =
     (case po_poll_out P h (timeout * 1000) w of (n, w) \<Rightarrow>
      if n = - 1 then (False, po_close P h w)
      else if n = 0 then (False, po_close P h w)
      else case po_sockerr P h w of (err, w) \<Rightarrow>
        (case err of None \<Rightarrow> (False, po_close P h w)
         | Some err \<Rightarrow> if err = 0 then (True, w) else (False, po_close P h w)))"

text \<open>One turn of the loop over the addresses: it goes on, or breaks off with or without a connection.\<close>

datatype attempt = A_continue | A_break bool

definition connect_attempt :: "('a, 'w) power_ops \<Rightarrow> 'a \<Rightarrow> i32 \<Rightarrow> 'w \<Rightarrow> attempt \<times> int \<times> 'w" where
  "connect_attempt P result timeout w =
     (case po_socket P result w of (h, w) \<Rightarrow>
      if h = - 1 then (A_continue, h, w)
      else case po_getfl P h w of (flags, w) \<Rightarrow>
      if flags = - 1 then (A_continue, h, po_close P h w)
      else case po_setfl P h (flags OR O_NONBLOCK) w of (ok, w) \<Rightarrow>
      if \<not> ok then (A_continue, h, po_close P h w)
      else case po_connect P h result w of (answer, w) \<Rightarrow>
        (case answer of C_done \<Rightarrow> (A_break True, h, w)
         | C_progress \<Rightarrow> (case await_connection P h timeout w of (ok, w) \<Rightarrow> (A_break ok, h, w))
         | C_error \<Rightarrow> (A_continue, h, po_close P h w)))"

text \<open>The loop runs over the list of addresses, but every turn uses its first element, \<open>result\<close>.\<close>

fun connect_loop :: "('a, 'w) power_ops \<Rightarrow> 'a \<Rightarrow> i32 \<Rightarrow> 'a list \<Rightarrow> 'w \<Rightarrow> int option \<times> 'w" where
  "connect_loop P result timeout [] w = (None, w)"
| "connect_loop P result timeout (rp # rps) w =
     (case connect_attempt P result timeout w of
        (A_continue, _, w) \<Rightarrow> connect_loop P result timeout rps w
      | (A_break ok, h, w) \<Rightarrow> (if ok then Some h else None, w))"

definition connectToDaemon ::
  "('a, 'w) power_ops \<Rightarrow> string \<Rightarrow> i32 \<Rightarrow> i32 \<Rightarrow> 'j power_daemon \<Rightarrow> 'w \<Rightarrow> bool \<times> 'j power_daemon \<times> 'w" where
  "connectToDaemon P ip port timeout d w =
     (case po_getaddrinfo P ip (take 14 (show_int (sint port))) w of (found, w) \<Rightarrow>
      (case found of None \<Rightarrow> (False, d, w)
       | Some rs \<Rightarrow> (case connect_loop P (hd rs) timeout rs w of (h, w) \<Rightarrow>
           (h \<noteq> None, d\<lparr>mSocketFD := (case h of None \<Rightarrow> - 1 | Some h \<Rightarrow> h)\<rparr>, w))))"

definition disconnect :: "('a, 'w) power_ops \<Rightarrow> 'j power_daemon \<Rightarrow> 'w \<Rightarrow> 'j power_daemon \<times> 'w" where
  "disconnect P d w = (if mSocketFD d \<noteq> - 1 then (d\<lparr>mSocketFD := - 1\<rparr>, po_close P (mSocketFD d) w) else (d, w))"

section \<open>Messages\<close>

definition sendMsg :: "('a, 'w) power_ops \<Rightarrow> 'j power_daemon \<Rightarrow> string \<Rightarrow> 'w \<Rightarrow> bool \<times> 'w" where
  "sendMsg P d str w =
     (let s = c_string str in case po_write P (mSocketFD d) s w of (n, w) \<Rightarrow> (n = int (length s), w))"

definition store_at :: "nat \<Rightarrow> string \<Rightarrow> string \<Rightarrow> string" where
  "store_at t data buf = take t buf @ data @ drop (t + length data) buf"

text \<open>
  The loop of \<open>receiveMsg\<close>: \<open>read\<close> answers \<open>-1\<close> when it has nothing, and \<open>totalRead += ret\<close> then counts
  one byte less. The loop need not end.
\<close>

partial_function (option) receive ::
  "('a, 'w) power_ops \<Rightarrow> int \<Rightarrow> nat \<Rightarrow> i32 \<Rightarrow> u32 \<Rightarrow> string \<Rightarrow> 'w \<Rightarrow> (i32 \<times> string \<times> 'w) option" where
  "receive P h len timeoutMs totalRead buf w =
     (if unat totalRead < len then
        (case po_poll_in P h timeoutMs w of (n, bad, w) \<Rightarrow>
         if n = - 1 then Some (- 1, buf, w)
         else if n = 0 then Some (totalRead, buf, w)
         else if bad then Some (- 1, buf, w)
         else case po_read P h (min (len - unat totalRead) (1024 * 64)) w of (answer, w) \<Rightarrow>
           (case answer of R_error \<Rightarrow> Some (- 1, buf, w)
            | R_again \<Rightarrow> receive P h len timeoutMs (totalRead - 1) buf w
            | R_data data \<Rightarrow> if data = [] then Some (- 1, buf, w)
                else receive P h len timeoutMs (totalRead + of_nat (length data))
                       (store_at (unat totalRead) data buf) w))
      else Some (totalRead, buf, w))"

text \<open>
  \<open>receiveMsg\<close>: the number it returns and the buffer it filled. The callers read the buffer only when all
  of it has been received, so what it held before does not matter.
\<close>

definition receiveMsg ::
  "('a, 'w) power_ops \<Rightarrow> 'j power_daemon \<Rightarrow> nat \<Rightarrow> i32 \<Rightarrow> 'w \<Rightarrow> (i32 \<times> string \<times> 'w) result" where
  "receiveMsg P d len timeoutMs w =
     (case receive P (mSocketFD d) len timeoutMs 0 (replicate len NUL) w of None \<Rightarrow> Inl NoReturn | Some r \<Rightarrow> Inr r)"

definition receiveSyncMsg ::
  "('a, 'w) power_ops \<Rightarrow> 'j power_daemon \<Rightarrow> char \<Rightarrow> char \<Rightarrow> i32 \<Rightarrow> 'w \<Rightarrow> (bool \<times> 'w) result" where
  "receiveSyncMsg P d recva recvb timeoutMs w =
     bind_res (receiveMsg P d 2 timeoutMs w) (\<lambda>(n, buf, w). Inr (n = 2 \<and> buf ! 0 = recva \<and> buf ! 1 = recvb, w))"

definition simpleSync ::
  "('a, 'w) power_ops \<Rightarrow> 'j power_daemon \<Rightarrow> string \<Rightarrow> char \<Rightarrow> char \<Rightarrow> i32 \<Rightarrow> 'w \<Rightarrow> (bool \<times> 'w) result" where
  "simpleSync P d send recva recvb timeoutMs w =
     (case sendMsg P d send w of (ok, w) \<Rightarrow>
      if ok then receiveSyncMsg P d recva recvb timeoutMs w else Inr (False, w))"

definition handshake :: "('a, 'w) power_ops \<Rightarrow> 'j power_daemon \<Rightarrow> i32 \<Rightarrow> 'w \<Rightarrow> (bool \<times> 'w) result" where
  "handshake P d timeoutSeconds w = simpleSync P d ''H2'' (CHR ''O'') (CHR ''K'') (timeoutSeconds * 1000) w"

section \<open>Starting a measurement\<close>

text \<open>Numbers in network byte order.\<close>

definition be32 :: "u32 \<Rightarrow> string" where
  "be32 n = map (\<lambda>k. char_of (unat (drop_bit k n))) [24, 16, 8, 0]"

definition be_value :: "string \<Rightarrow> nat" where
  "be_value s = foldl (\<lambda>n c. 256 * n + of_char c) 0 s"

record Rail =
  rail_name :: string
  voltageChannel :: string
  currentChannel :: string
  resistance :: u32
  daqSerial :: string

text \<open>\<open>snprintf(field, limit, "%s", s)\<close> into a zeroed field, and the bytes of the struct.\<close>

definition text_field :: "nat \<Rightarrow> nat \<Rightarrow> string \<Rightarrow> string" where
  "text_field bytes limit s = (let t = take (limit - 1) (c_string s) in t @ replicate (bytes - length t) NUL)"

definition rail_bytes :: "Rail \<Rightarrow> string" where
  "rail_bytes r = text_field 16 15 (rail_name r) @ text_field 16 15 (voltageChannel r)
     @ text_field 16 15 (currentChannel r) @ be32 (resistance r) @ replicate 12 NUL @ text_field 256 255 (daqSerial r)"

definition rail_of :: "'j json_ops \<Rightarrow> string \<Rightarrow> 'j \<Rightarrow> Rail" where
  "rail_of J serial r =
     \<lparr>rail_name = j_asString J (j_at J r ''name''), voltageChannel = j_asString J (j_at J r ''voltage_channel''),
      currentChannel = j_asString J (j_at J r ''current_channel''), resistance = j_asInt J (j_at J r ''resistance''),
      daqSerial = serial\<rparr>"

fun send_rails :: "('a, 'w) power_ops \<Rightarrow> 'j json_ops \<Rightarrow> int \<Rightarrow> string \<Rightarrow> 'j list \<Rightarrow> 'w \<Rightarrow> bool \<times> 'w" where
  "send_rails P J h serial [] w = (True, w)"
| "send_rails P J h serial (r # rs) w =
     (let row = rail_bytes (rail_of J serial r) in
      case po_write P h row w of (n, w) \<Rightarrow>
      if n = int (length row) then send_rails P J h serial rs w else (False, w))"

definition PowerDaemon_start ::
  "('a, 'w) power_ops \<Rightarrow> 'j json_ops \<Rightarrow> 'j power_daemon \<Rightarrow> 'j \<Rightarrow> 'w \<Rightarrow> (bool \<times> 'j power_daemon \<times> 'w) result" where
  "PowerDaemon_start P J d config_root w =
     (case sendMsg P d ''RC'' w of (ok, w) \<Rightarrow>
      if \<not> ok then Inr (False, d, w)
      else
        let config = j_at J config_root ''rails''; rails = j_elements J config in
        case po_write P (mSocketFD d) (be32 (of_nat (length rails))) w of (n, w) \<Rightarrow>
        if n \<noteq> 4 then Inr (False, d, w)
        else
          let serial = (if j_isMember J config_root ''daq_serial'' then j_asString J (j_at J config_root ''daq_serial'') else []) in
          case send_rails P J (mSocketFD d) serial rails w of (ok, w) \<Rightarrow>
          if \<not> ok then Inr (False, d, w)
          else
            let d = d\<lparr>pdConfig := config\<rparr> in
            bind_res (receiveSyncMsg P d (CHR ''O'') (CHR ''K'') 15000 w) (\<lambda>(ok, w).
              if \<not> ok then Inr (False, d, w)
              else bind_res (simpleSync P d ''RT'' (CHR ''O'') (CHR ''K'') 15000 w) (\<lambda>(ok, w). Inr (ok, d, w))))"

text \<open>The wire format of a rail: 320 bytes, from which the names and the resistance can be read back.\<close>

lemma be32_length [simp]: "length (be32 n) = 4"
  by (simp add: be32_def)

lemma text_field_length: "limit \<le> bytes \<Longrightarrow> length (text_field bytes limit s) = bytes"
  by (simp add: text_field_def Let_def)

lemma rail_bytes_length: "length (rail_bytes r) = 320"
  by (simp add: rail_bytes_def text_field_length)

lemma be_value_append: "be_value (s @ t) = be_value s * 256 ^ length t + be_value t"
proof (induction t rule: rev_induct)
  case (snoc c t)
  then show ?case by (simp add: be_value_def flip: append_assoc)
qed (simp add: be_value_def)

lemma four_digits:
  fixes a :: nat
  assumes "d < 256" and "a = b * 256 + r" and "b = c * 256 + s" and "c = d * 256 + t"
  shows "d mod 256 * 2 ^ 24 + t * 2 ^ 16 + s * 2 ^ 8 + r = a"
  using assms by simp

lemma be_value_be32: "be_value (be32 n) = unat n"
proof -
  have "be_value (be32 n) = (unat n div 2 ^ 24 mod 256 * 2 ^ 24) + (unat n div 2 ^ 16 mod 256 * 2 ^ 16)
      + (unat n div 256 mod 256 * 2 ^ 8) + unat n mod 256"
    by (simp add: be_value_def be32_def drop_bit_eq_div unat_div_distrib)
  also have "\<dots> = unat n"
  proof -
    have "unat n div 2 ^ 24 < 256" using unsigned_less [of n, where 'a = nat] by simp
    moreover have "unat n = unat n div 256 * 256 + unat n mod 256" by (rule div_mult_mod_eq [symmetric])
    moreover have "unat n div 256 = unat n div 2 ^ 16 * 256 + unat n div 256 mod 256"
      using div_mult_mod_eq [of "unat n div 256" 256] by (simp flip: div_mult2_eq)
    moreover have "unat n div 2 ^ 16 = unat n div 2 ^ 24 * 256 + unat n div 2 ^ 16 mod 256"
      using div_mult_mod_eq [of "unat n div 2 ^ 16" 256] by (simp flip: div_mult2_eq)
    ultimately show ?thesis by (rule four_digits)
  qed
  finally show ?thesis .
qed

lemma c_string_text_field:
  assumes "length (c_string s) < limit" and "limit \<le> bytes"
  shows "c_string (text_field bytes limit s) = c_string s"
proof -
  have t: "take (limit - 1) (c_string s) = c_string s" using assms by simp
  have nul: "takeWhile (\<lambda>c. c \<noteq> NUL) (replicate k NUL) = []" for k by (cases k) simp_all
  have "takeWhile (\<lambda>c. c \<noteq> NUL) (c_string s @ replicate k NUL) = c_string s @ takeWhile (\<lambda>c. c \<noteq> NUL) (replicate k NUL)" for k
    by (rule takeWhile_append2) (auto simp: c_string_def dest: set_takeWhileD)
  then have "takeWhile (\<lambda>c. c \<noteq> NUL) (c_string s @ replicate k NUL) = c_string s" for k
    unfolding nul by simp
  then show ?thesis by (simp only: text_field_def Let_def t c_string_def [of "c_string s @ replicate (bytes - length (c_string s)) NUL"])
qed

end
