(* ===== verification/Power_Collector.thy ===== *)
theory Power_Collector
  imports Power_Daemon Collection Sysfs
begin

text \<open>
  The power collector (\<open>power.cpp\<close>): how a measurement is stopped, its samples fetched and averaged over
  the frames, and \<open>PowerDataCollector\<close>. The daemon samples every rail each 100 microseconds, a voltage and
  the voltage over the shunt resistor, as IEEE-754 doubles in the byte order of the host. Left out are the debug
  output, apart from the division in its last argument, and the totals over all frames, which are summed up but used
  only by code that the preprocessor removes.
\<close>

section \<open>Numbers\<close>

text \<open>The double held in eight bytes, the lowest first.\<close>

definition float64_of :: "string \<Rightarrow> double" where
  "float64_of s =
     (let n = be_value (rev s); f = n mod 2 ^ 52; e = n div 2 ^ 52 mod 2 ^ 11; sgn = (if n div 2 ^ 63 = 0 then 1 else - 1) in
      if e = 2047 then (if f = 0 then dinf sgn else DNaN)
      else if e = 0 then DFin (of_int sgn * of_nat f * 2 powi - 1074)
      else DFin (of_int sgn * of_nat (2 ^ 52 + f) * 2 powi (int e - 1075)))"

text \<open>Conversions that truncate; a value out of range has no defined result.\<close>

definition double_to_int64 :: "double \<Rightarrow> i64 result" where
  "double_to_int64 d = (case d of
       DFin x \<Rightarrow> (let n = trunc_real x in if - (2 ^ 63) \<le> n \<and> n < 2 ^ 63 then Inr (word_of_int n) else Inl BadCast)
     | _ \<Rightarrow> Inl BadCast)"

definition double_to_uint32 :: "double \<Rightarrow> u32 result" where
  "double_to_uint32 d = (case d of
       DFin x \<Rightarrow> (let n = trunc_real x in if 0 \<le> n \<and> n < 2 ^ 32 then Inr (word_of_int n) else Inl BadCast)
     | _ \<Rightarrow> Inl BadCast)"

definition TOTAL_POWER_TRUNC_COEFFICIENT :: double where
  "TOTAL_POWER_TRUNC_COEFFICIENT = DFin 1000000"

section \<open>Averaging the samples\<close>

record rail_sum =
  sum_v :: i64
  sum_i :: i64
  sum_p :: i64

definition zero_sum :: rail_sum where
  "zero_sum = \<lparr>sum_v = 0, sum_i = 0, sum_p = 0\<rparr>"

definition add_sample :: "double \<Rightarrow> double \<Rightarrow> double \<Rightarrow> rail_sum \<Rightarrow> rail_sum result" where
  "add_sample coef voltage shuntVoltage s =
     (let power = dmul (dmul voltage shuntVoltage) coef in
      bind_res (double_to_int64 (dmul voltage TOTAL_POWER_TRUNC_COEFFICIENT)) (\<lambda>v.
      bind_res (double_to_int64 (dmul (dmul shuntVoltage coef) TOTAL_POWER_TRUNC_COEFFICIENT)) (\<lambda>i.
      bind_res (double_to_int64 (dmul power TOTAL_POWER_TRUNC_COEFFICIENT)) (\<lambda>p.
        Inr \<lparr>sum_v = sum_v s + v, sum_i = sum_i s + i, sum_p = sum_p s + p\<rparr>))))"

text \<open>Element \<open>k\<close> of the array \<open>buf\<close>.\<close>

definition sample_at :: "string \<Rightarrow> u32 \<Rightarrow> double" where
  "sample_at buf k = float64_of (take 8 (drop (8 * unat k) buf))"

text \<open>
  One turn of the sampling loop: the samples of all rails at a time, in order from rail \<open>i\<close> on. Nothing
  comes back when the data stops short.
\<close>

fun read_rails ::
  "string \<Rightarrow> u32 \<Rightarrow> u32 \<Rightarrow> u32 \<Rightarrow> u32 \<Rightarrow> (double \<times> rail_sum) list \<Rightarrow> rail_sum list option result" where
  "read_rails buf totalSamples numRails currentTime i [] = Inr (Some [])"
| "read_rails buf totalSamples numRails currentTime i ((coef, s) # rest) =
     (let k = currentTime * numRails * 2 + i * 2 in
      if totalSamples \<le> k + 1 then Inr None
      else bind_res (add_sample coef (sample_at buf k) (sample_at buf (k + 1)) s) (\<lambda>s'.
           bind_res (read_rails buf totalSamples numRails currentTime (i + 1) rest) (\<lambda>r.
             Inr (map_option (\<lambda>ss. s' # ss) r))))"

text \<open>The loop over the samples of one frame: the time it got to, the number of samples, the sums.\<close>

function read_frame ::
  "string \<Rightarrow> u32 \<Rightarrow> double list \<Rightarrow> u32 \<Rightarrow> u32 \<Rightarrow> u32 \<Rightarrow> rail_sum list \<Rightarrow> (u32 \<times> u32 \<times> rail_sum list) option result" where
  "read_frame buf totalSamples coefs frameEnd currentTime nsamples totals =
     (if currentTime < frameEnd then
        bind_res (read_rails buf totalSamples (of_nat (length coefs)) currentTime 0 (zip coefs totals)) (\<lambda>r.
          (case r of None \<Rightarrow> Inr None
          | Some totals' \<Rightarrow> read_frame buf totalSamples coefs frameEnd (currentTime + 1) (nsamples + 1) totals'))
      else Inr (Some (currentTime, nsamples, totals)))"
  by pat_completeness auto
termination
proof (relation "measure (\<lambda>(_, _, _, frameEnd, currentTime, _). unat frameEnd - unat currentTime)", goal_cases)
  case (2 buf totalSamples coefs frameEnd currentTime nsamples totals)
  then have "unat currentTime < unat frameEnd" by (simp add: word_less_nat_alt)
  moreover from this have "unat (currentTime + 1) = unat currentTime + 1"
    using unat_add_small [of currentTime 1] unsigned_less [of frameEnd, where 'a = nat] by simp
  ultimately show ?case by simp
qed simp

declare read_frame.simps [simp del]

definition push_result :: "string \<Rightarrow> (CollectorValueList \<Rightarrow> CollectorValueList result) \<Rightarrow> CollectorValueResults
    \<Rightarrow> CollectorValueResults result" where
  "push_result key push results = map_modify key empty_list push results"

text \<open>\<open>((sum / samples) / TOTAL_POWER_TRUNC_COEFFICIENT) * 1000.0\<close>, the first division one of integers.\<close>

definition average :: "u32 \<Rightarrow> i64 \<Rightarrow> double result" where
  "average nsamples s =
     bind_res (sdiv64 s (ucast nsamples)) (\<lambda>q.
       Inr (dmul (ddiv (double_of_int (sint q)) TOTAL_POWER_TRUNC_COEFFICIENT) (DFin 1000)))"

definition push_rail :: "u32 \<Rightarrow> string \<Rightarrow> rail_sum \<Rightarrow> CollectorValueResults \<Rightarrow> CollectorValueResults result" where
  "push_rail nsamples railName s results =
     bind_res (average nsamples (sum_v s)) (\<lambda>avgv. bind_res (average nsamples (sum_i s)) (\<lambda>avgi.
     bind_res (average nsamples (sum_p s)) (\<lambda>avgp.
     bind_res (push_result (railName @ ''_voltage'') (push_back_double avgv) results) (\<lambda>results.
     bind_res (push_result (railName @ ''_current'') (push_back_double avgi) results) (\<lambda>results.
       push_result (railName @ ''_power'') (push_back_double avgp) results)))))"

text \<open>The results of one frame; a frame without a sample leaves none.\<close>

definition push_frame ::
  "string list \<Rightarrow> u32 \<Rightarrow> rail_sum list \<Rightarrow> CollectorValueResults \<Rightarrow> CollectorValueResults result" where
  "push_frame names nsamples totals results =
     (if nsamples = 0 then Inr results
      else bind_res (push_result ''num_samples'' (push_back_uint nsamples) results) (\<lambda>results.
        fold_res (\<lambda>results (railName, s). push_rail nsamples railName s results) results (zip names totals)))"

text \<open>
  The loop over the frames. The end of a frame is a sum of differences of the values in the argument
  \<open>timing\<close>, in units of 10000 samples. The loop leaves the time it got to, or nothing when the
  data stopped short and the code went to \<open>finished\<close>.
\<close>

fun frame_durations :: "i64 \<Rightarrow> i64 list \<Rightarrow> i64 list" where
  "frame_durations prev [] = []"
| "frame_durations prev (i # timing) = (i - prev) # frame_durations i timing"

fun read_frames ::
  "string \<Rightarrow> u32 \<Rightarrow> double list \<Rightarrow> string list \<Rightarrow> i64 list \<Rightarrow> double \<Rightarrow> u32 \<Rightarrow> CollectorValueResults \<Rightarrow>
     (u32 option \<times> CollectorValueResults) result" where
  "read_frames buf totalSamples coefs names [] nextFrameEndTime currentTime results = Inr (Some currentTime, results)"
| "read_frames buf totalSamples coefs names (i # durations) nextFrameEndTime currentTime results =
     (let next = dadd nextFrameEndTime (double_of_int (sint i)) in
      bind_res (double_to_uint32 (dmul next (DFin 10000))) (\<lambda>frameEnd.
      bind_res (read_frame buf totalSamples coefs frameEnd currentTime 0 (map (\<lambda>_. zero_sum) coefs)) (\<lambda>r.
        case r of None \<Rightarrow> Inr (None, results)
        | Some (currentTime, nsamples, totals) \<Rightarrow>
            bind_res (push_frame names nsamples totals results)
              (read_frames buf totalSamples coefs names durations next currentTime))))"

section \<open>Stopping a measurement\<close>

definition rail_coefficient :: "'j json_ops \<Rightarrow> 'j \<Rightarrow> double" where
  "rail_coefficient J r = ddiv (DFin 1000) (double_of_int (sint (j_asInt J (j_at J r ''resistance''))))"

text \<open>Averaging the received bytes; the message at the end divides by the number of rails.\<close>

definition process_data ::
  "'j json_ops \<Rightarrow> 'j list \<Rightarrow> u32 \<Rightarrow> string \<Rightarrow> i64 list \<Rightarrow> CollectorValueResults \<Rightarrow> CollectorValueResults result" where
  "process_data J rails numBytes buf timing results =
     (let coefs = map (rail_coefficient J) rails; totalSamples = numBytes div 8; numRails = of_nat (length coefs) :: u32 in
      bind_res (read_frames buf totalSamples coefs (map (\<lambda>r. j_asString J (j_at J r ''name'')) rails)
          (frame_durations 0 timing) (DFin 0) 0 results) (\<lambda>(finished, results).
        case finished of None \<Rightarrow> Inr results
        | Some _ \<Rightarrow> if 2 * numRails = 0 then Inl DivideByZero else Inr results))"

definition PowerDaemon_stop ::
  "('a, 'w) power_ops \<Rightarrow> 'j json_ops \<Rightarrow> 'j power_daemon \<Rightarrow> i64 list \<Rightarrow> CollectorValueResults \<Rightarrow> 'w \<Rightarrow>
     (bool \<times> CollectorValueResults \<times> 'w) result" where
  "PowerDaemon_stop P J d timing results w =
     bind_res (receiveMsg P d 2 10 w) (\<lambda>(n, recvbuf, w).
     if n = 2 \<and> recvbuf = ''ER'' then Inr (False, results, w)
     else bind_res (simpleSync P d ''OP'' (CHR ''O'') (CHR ''K'') 3000 w) (\<lambda>(ok, w).
     if \<not> ok then Inr (False, results, w)
     else bind_res (receiveMsg P d 4 100 w) (\<lambda>(n, word, w).
     if n \<noteq> 4 then Inr (False, results, w)
     else
       let numBytes = of_nat (be_value word) :: u32 in
       if 1024 * 1024 * mBufferSize d < numBytes then Inr (False, results, w)
       else if \<not> po_malloc P numBytes w then Inr (False, results, w)
       else bind_res (receiveMsg P d (unat numBytes) 4000 w) (\<lambda>(ret, buf, w).
       if ret \<noteq> numBytes then Inr (False, results, w)
       else bind_res (process_data J (j_elements J (pdConfig d)) numBytes buf timing results) (\<lambda>results.
         Inr (True, results, w))))))"

section \<open>The collector\<close>

record 'j power_state =
  mPD :: "'j power_daemon"

definition rail_valid :: "'j json_ops \<Rightarrow> 'j \<Rightarrow> bool" where
  "rail_valid J r \<longleftrightarrow> j_isString J (j_at J r ''name'') \<and> j_isString J (j_at J r ''voltage_channel'')
     \<and> j_isString J (j_at J r ''current_channel'') \<and> j_isInt J (j_at J r ''resistance'')"

definition PowerDataCollector_new :: "'j json_ops \<Rightarrow> 'j \<Rightarrow> string \<Rightarrow> ('j, 'j power_state) collector_scheme" where
  "PowerDataCollector_new J config nm = collector.extend (Collector_new J config nm) \<lparr>mPD = PowerDaemon_new J\<rparr>"

definition Power_available :: "'j json_ops \<Rightarrow> ('j, 'j power_state, 'w) vmethod" where
  "Power_available J c w =
     Inr (\<not> (j_isNull J (mConfig c) \<or> j_isNull J (j_at J (mConfig c) ''power'')), c, w)"

definition with_daemon :: "'j power_daemon \<Rightarrow> ('j, 'j power_state) collector_scheme \<Rightarrow> ('j, 'j power_state) collector_scheme" where
  "with_daemon d = set_private (\<lambda>s. s\<lparr>mPD := d\<rparr>)"

definition Power_init :: "('a, 'w) power_ops \<Rightarrow> 'j json_ops \<Rightarrow> ('j, 'j power_state, 'w) vmethod" where
  "Power_init P J c w =
     bind_res (assert_res (\<not> j_isNull J (mConfig c))) (\<lambda>_.
     bind_res (assert_res (\<not> j_isNull J (j_at J (mConfig c) ''power''))) (\<lambda>_.
       let config = j_at J (mConfig c) ''power''; d = mPD (collector.more c);
           ip = j_at J config ''power_daemon_ip''; port = j_at J config ''power_daemon_port'';
           pdip = (if j_isString J ip then j_asString J ip else []);
           pdport = (if j_isString J ip \<and> j_isString J port then atoi (c_string (j_asString J port)) else 0);
           rails = j_at J config ''rails'';
           connectTimeoutSec = (if j_isInt J (j_at J config ''connect_timeout'') then j_asInt J (j_at J config ''connect_timeout'') else 5) in
       if \<not> j_isArray J rails \<or> j_elements J rails = [] \<or> \<not> list_all (rail_valid J) (j_elements J rails) \<or> pdip = [] \<or> pdport = 0
       then Inr (False, c, w)
       else case connectToDaemon P (c_string pdip) pdport connectTimeoutSec d w of (ok, d, w) \<Rightarrow>
         if \<not> ok then Inr (False, with_daemon d c, w)
         else bind_res (handshake P d connectTimeoutSec w) (\<lambda>(ok, w).
           if \<not> ok then (case disconnect P d w of (d, w) \<Rightarrow> Inr (False, with_daemon d c, w))
           else
             let raw = j_at J config ''collect_raw_data''; bs = j_at J config ''buffer_size'';
                 d = (if j_isBool J raw \<and> j_asBool J raw then setRawCollection True d else d);
                 d = (if j_isInt J bs then setBufferSize (j_asInt J bs) d else d) in
             Inr (True, with_daemon d (c\<lparr>mConfig := config\<rparr>), w))))"

definition Power_deinit :: "('a, 'w) power_ops \<Rightarrow> ('j, 'j power_state, 'w) vmethod" where
  "Power_deinit P c w = (case disconnect P (mPD (collector.more c)) w of (d, w) \<Rightarrow> Inr (True, with_daemon d c, w))"

definition Power_start :: "('a, 'w) power_ops \<Rightarrow> 'j json_ops \<Rightarrow> ('j, 'j power_state, 'w) vmethod" where
  "Power_start P J c w =
     bind_res (PowerDaemon_start P J (mPD (collector.more c)) (j_at J (mConfig c) ''power'') w) (\<lambda>(ok, d, w).
       Inr (if ok then (True, (with_daemon d c)\<lparr>mCollecting := True\<rparr>, w) else (False, with_daemon d c, w)))"

definition Power_postprocess :: "('a, 'w) power_ops \<Rightarrow> 'j json_ops \<Rightarrow> i64 list \<Rightarrow> ('j, 'j power_state, 'w) vmethod" where
  "Power_postprocess P J timing c w =
     bind_res (PowerDaemon_stop P J (mPD (collector.more c)) timing (mResults c) w) (\<lambda>(ok, results, w).
       Inr (True, c\<lparr>mResults := results\<rparr>, w))"

definition power_vtable :: "('a, 'w) power_ops \<Rightarrow> 'j json_ops \<Rightarrow> ('j, 'j power_state, 'w) vtable" where
  "power_vtable P J =
     (base_vtable (\<lambda>now. pure_method (\<lambda>c. (True, c))) (Power_available J))
       \<lparr>v_init := Power_init P J, v_deinit := Power_deinit P, v_start := Power_start P J,
        v_postprocess := Power_postprocess P J\<rparr>"

section \<open>The contract\<close>

lemma with_daemon_same [simp]: "same_results c (with_daemon d c') = same_results c c'" "same_results c (c'\<lparr>mConfig := v\<rparr>) = same_results c c'"
  by (simp_all add: with_daemon_def) (simp add: same_results_def managed_def)

lemma power_init_same: "Power_init P J c w = Inr (b, c', w') \<Longrightarrow> same_results c c'"
  by (auto simp: Power_init_def Let_def split: if_splits prod.splits)

lemma power_deinit_same: "Power_deinit P c w = Inr (b, c', w') \<Longrightarrow> same_results c c'"
  by (auto simp: Power_deinit_def split: prod.splits)

lemma power_start_same: "Power_start P J c w = Inr (b, c', w') \<Longrightarrow> same_results c c'"
  by (auto simp: Power_start_def split: if_splits prod.splits)

lemma push_result_wf:
  "push_result key push results = Inr results' \<Longrightarrow> pushes_one push \<Longrightarrow> results_wf results \<Longrightarrow> results_wf results'"
  using results_wf_lookup [of results key]
  by (auto simp: push_result_def map_modify_eq_Inr pushes_one_def split: option.splits intro!: results_wf_map_set)

lemma push_rail_wf: "push_rail n nm s results = Inr results' \<Longrightarrow> results_wf results \<Longrightarrow> results_wf results'"
  by (auto simp: push_rail_def) (metis push_result_wf pushes_one_push_back(1))

lemma push_frame_wf:
  assumes "push_frame names n totals results = Inr results'" and "results_wf results"
  shows "results_wf results'"
proof (cases "n = 0")
  case False
  then obtain r where r: "push_result ''num_samples'' (push_back_uint n) results = Inr r"
    and f: "fold_res (\<lambda>results (railName, s). push_rail n railName s results) r (zip names totals) = Inr results'"
    using assms(1) by (auto simp: push_frame_def)
  have "results_wf r" using push_result_wf [OF r] assms(2) by simp
  with f show ?thesis by (rule fold_res_invariant) (auto intro: push_rail_wf)
qed (use assms in \<open>simp add: push_frame_def\<close>)

lemma read_frames_wf:
  "read_frames buf n coefs names ds next cur results = Inr (fin, results') \<Longrightarrow> results_wf results \<Longrightarrow> results_wf results'"
proof (induction ds arbitrary: "next" cur results)
  case (Cons i ds)
  then show ?case by (auto simp: Let_def split: option.splits prod.splits) (meson push_frame_wf)
qed simp

lemma power_stop_wf:
  assumes "PowerDaemon_stop P J d timing results w = Inr (b, results', w')" and "results_wf results"
  shows "results_wf results'"
  using assms read_frames_wf
  by (auto simp: PowerDaemon_stop_def process_data_def Let_def split: if_splits option.splits prod.splits)

lemma contract_power_postprocess: "keeps_contract (Power_postprocess P J timing)"
  by (auto simp: keeps_contract_def Power_postprocess_def managed_def intro: power_stop_wf)

interpretation power: collector_class "power_vtable P J"
  unfolding power_vtable_def
  by (intro collector_class_override_postprocess collector_class_override base_collector_class
      contract_power_postprocess contract_pure keeps_same)
    (auto simp: Power_available_def intro: power_init_same power_deinit_same power_start_same)

end
