(* ===== verification/Power_Runs.thy ===== *)
theory Power_Runs
  imports Power_Collector
begin

text \<open>
  What the power collector promises: the nested loops over a flat array compute the averages of the rows
  of the data, frame by frame; a message arrives whole when the socket always has data; and what goes wrong, a
  lost byte after a read that had nothing, and a configuration that the start does not find.
\<close>

section \<open>Averages of rows\<close>

text \<open>
  The data as a table: a row for each time, with the two values of every rail. The reference adds up
  the rows of a frame and goes on with the rest; \<open>ends\<close> are the ends of the frames in rows.
\<close>

definition float_at :: "string \<Rightarrow> nat \<Rightarrow> double" where
  "float_at buf k = float64_of (take 8 (drop (8 * k) buf))"

definition data_row :: "nat \<Rightarrow> string \<Rightarrow> nat \<Rightarrow> (double \<times> double) list" where
  "data_row m buf \<tau> = map (\<lambda>i. (float_at buf (2 * (m * \<tau> + i)), float_at buf (2 * (m * \<tau> + i) + 1))) [0..<m]"

definition data_rows :: "nat \<Rightarrow> nat \<Rightarrow> string \<Rightarrow> (double \<times> double) list list" where
  "data_rows m n buf = map (data_row m buf) [0..<n]"

fun add_row :: "double list \<Rightarrow> (double \<times> double) list \<Rightarrow> rail_sum list \<Rightarrow> rail_sum list result" where
  "add_row (coef # coefs) ((v, sv) # row) (s # ss) =
     bind_res (add_sample coef v sv s) (\<lambda>s'. bind_res (add_row coefs row ss) (\<lambda>ss'. Inr (s' # ss')))"
| "add_row _ _ _ = Inr []"

definition add_rows :: "double list \<Rightarrow> (double \<times> double) list list \<Rightarrow> rail_sum list \<Rightarrow> rail_sum list result" where
  "add_rows coefs rows ss = fold_res (\<lambda>ss row. add_row coefs row ss) ss rows"

fun average_frames ::
  "double list \<Rightarrow> string list \<Rightarrow> (double \<times> double) list list \<Rightarrow> nat \<Rightarrow> nat list \<Rightarrow> CollectorValueResults \<Rightarrow>
     CollectorValueResults result" where
  "average_frames coefs names rows cur [] results = Inr results"
| "average_frames coefs names rows cur (e # ends) results =
     bind_res (add_rows coefs (take (e - cur) rows) (map (\<lambda>_. zero_sum) coefs)) (\<lambda>totals.
       if length rows < e - cur then Inr results
       else bind_res (push_frame names (of_nat (e - cur)) totals results)
         (average_frames coefs names (drop (e - cur) rows) (max cur e) ends))"

subsection \<open>One row\<close>

lemma unat_small: "k < 2 ^ 32 \<Longrightarrow> unat (of_nat k :: u32) = k"
  by (simp add: unat_of_nat)

lemma of_nat_order:
  assumes "a < 2 ^ 32" "b < 2 ^ 32"
  shows "(of_nat a \<le> (of_nat b :: u32)) = (a \<le> b)" and "(of_nat a < (of_nat b :: u32)) = (a < b)"
  using assms by (simp_all add: word_le_nat_alt word_less_nat_alt unat_small)

lemma sample_at_nat: "k < 2 ^ 32 \<Longrightarrow> sample_at buf (of_nat k) = float_at buf k"
  by (simp add: sample_at_def float_at_def unat_small)

lemma add_row_length: "add_row cs row ss = Inr ss' \<Longrightarrow> length row = length cs \<Longrightarrow> length ss = length cs \<Longrightarrow> length ss' = length cs"
  by (induction cs row ss arbitrary: ss' rule: add_row.induct) auto

lemma read_rails_row:
  assumes "i + length cs = m" "length ss = length cs" "\<tau> < n" "2 * m * n < 2 ^ 32"
  shows "read_rails buf (of_nat (2 * m * n)) (of_nat m) (of_nat \<tau>) (of_nat i) (zip cs ss)
     = bind_res (add_row cs (drop i (data_row m buf \<tau>)) ss) (\<lambda>ss. Inr (Some ss))"
  using assms(1,2)
proof (induction cs ss arbitrary: i rule: list_induct2')
  case (4 c cs s ss)
  let ?k = "2 * (m * \<tau> + i)"
  have i: "i < m" using 4(2) by simp
  have "m * \<tau> + i < m * n"
    using i assms(3) by (metis add.commute add_less_cancel_left mult_Suc_right less_le_trans mult_le_mono2 Suc_leI)
  then have k: "?k + 1 < 2 * m * n" by simp
  have e: "of_nat \<tau> * of_nat m * 2 + of_nat i * 2 = (of_nat ?k :: u32)" "(of_nat ?k :: u32) + 1 = of_nat (?k + 1)"
    by (simp_all add: algebra_simps)
  have lt: "\<not> (of_nat (2 * m * n) :: u32) \<le> of_nat (?k + 1)"
    using k assms(4) by (subst of_nat_order) linarith+
  have d: "drop i (data_row m buf \<tau>) = (float_at buf ?k, float_at buf (?k + 1)) # drop (Suc i) (data_row m buf \<tau>)"
    using i by (subst Cons_nth_drop_Suc [symmetric]) (simp_all add: data_row_def)
  have s: "sample_at buf (of_nat ?k) = float_at buf ?k" "sample_at buf (of_nat (?k + 1)) = float_at buf (?k + 1)"
    using k assms(4) by (intro sample_at_nat; linarith)+
  have "of_nat i + 1 = (of_nat (Suc i) :: u32)" by simp
  with 4(1) [of "Suc i"] 4(2,3) show ?case
    by (simp only: zip_Cons_Cons read_rails.simps Let_def e lt if_False s d add_row.simps)
      (auto simp: bind_res_def split: sum.splits)
qed simp_all

lemma read_rails_end:
  assumes "cs \<noteq> []" "ss \<noteq> []" "2 * m * n + 1 < 2 ^ 32"
  shows "read_rails buf (of_nat (2 * m * n)) (of_nat m) (of_nat n) 0 (zip cs ss) = Inr None"
proof -
  obtain c cs' s ss' where "cs = c # cs'" "ss = s # ss'" using assms(1,2) by (meson list.exhaust)
  moreover have "of_nat n * of_nat m * 2 + 0 * 2 + 1 = (of_nat (2 * m * n + 1) :: u32)" by (simp add: algebra_simps)
  moreover have "(of_nat (2 * m * n) :: u32) \<le> of_nat (2 * m * n + 1)"
    using assms(3) by (subst of_nat_order) linarith+
  ultimately show ?thesis by (simp only: zip_Cons_Cons read_rails.simps Let_def if_True)
qed

subsection \<open>One frame\<close>

lemma data_rows_drop: "\<tau> < n \<Longrightarrow> drop \<tau> (data_rows m n buf) = data_row m buf \<tau> # drop (Suc \<tau>) (data_rows m n buf)"
  by (subst Cons_nth_drop_Suc [symmetric]) (simp_all add: data_rows_def)

lemma read_frame_rows:
  assumes "\<tau> \<le> n" "length ss = length coefs" "coefs \<noteq> []" "2 * length coefs * n + 1 < 2 ^ 32" "n + 1 < 2 ^ 32" "e < 2 ^ 32"
  shows "read_frame buf (of_nat (2 * length coefs * n)) coefs (of_nat e) (of_nat \<tau>) k ss
     = bind_res (add_rows coefs (take (e - \<tau>) (drop \<tau> (data_rows (length coefs) n buf))) ss) (\<lambda>totals.
         Inr (if n - \<tau> < e - \<tau> then None else Some (of_nat (max \<tau> e), k + of_nat (e - \<tau>), totals)))"
  using assms(1,2)
proof (induction "n - \<tau>" arbitrary: \<tau> k ss)
  case 0
  then have t: "\<tau> = n" by simp
  have "ss \<noteq> []" using 0(3) assms(3) by auto
  with assms have r: "read_rails buf (of_nat (2 * length coefs * n)) (of_nat (length coefs)) (of_nat n) 0 (zip coefs ss) = Inr None"
    by (intro read_rails_end)
  have "(of_nat n < (of_nat e :: u32)) = (n < e)"
    using assms(5,6) by (intro of_nat_order) linarith+
  then show ?case
    by (subst read_frame.simps, simp only: t r bind_res_simps option.case)
      (cases "n < e"; simp add: add_rows_def data_rows_def max_def)
next
  case (Suc d)
  then have t: "\<tau> < n" by simp
  have lt: "(of_nat \<tau> < (of_nat e :: u32)) = (\<tau> < e)"
    using assms(5,6) t by (intro of_nat_order) linarith+
  show ?case
  proof (cases "\<tau> < e")
    case True
    let ?m = "length coefs" and ?row = "data_row (length coefs) buf \<tau>"
    have r: "read_rails buf (of_nat (2 * ?m * n)) (of_nat ?m) (of_nat \<tau>) 0 (zip coefs ss)
       = bind_res (add_row coefs ?row ss) (\<lambda>ss. Inr (Some ss))"
    proof -
      have "2 * ?m * n < 2 ^ 32" using assms(4) by linarith
      from read_rails_row [OF add_0 Suc(4) t this, of buf] show ?thesis
        by (simp del: of_nat_mult)
    qed
    have e: "e - \<tau> = Suc (e - Suc \<tau>)" using True by simp
    have take: "take (e - \<tau>) (drop \<tau> (data_rows ?m n buf)) = ?row # take (e - Suc \<tau>) (drop (Suc \<tau>) (data_rows ?m n buf))"
      unfolding data_rows_drop [OF t] e by simp
    have step: "read_frame buf (of_nat (2 * ?m * n)) coefs (of_nat e) (of_nat \<tau> + 1) (k + 1) ss'
       = bind_res (add_rows coefs (take (e - Suc \<tau>) (drop (Suc \<tau>) (data_rows ?m n buf))) ss') (\<lambda>totals.
           Inr (if n - \<tau> < e - \<tau> then None else Some (of_nat (max \<tau> e), k + of_nat (e - \<tau>), totals)))"
      if "add_row coefs ?row ss = Inr ss'" for ss'
    proof -
      have "length ss' = length coefs" using add_row_length [OF that] Suc(4) by (simp add: data_row_def)
      moreover have "d = n - Suc \<tau>" "Suc \<tau> \<le> n" using Suc(2) t by auto
      moreover have "of_nat \<tau> + 1 = (of_nat (Suc \<tau>) :: u32)" by simp
      moreover have "(n - Suc \<tau> < e - Suc \<tau>) = (n - \<tau> < e - \<tau>)" "max (Suc \<tau>) e = max \<tau> e"
        "k + 1 + of_nat (e - Suc \<tau>) = k + of_nat (e - \<tau>)" using True t e by auto
      ultimately show ?thesis using Suc(1) [of "Suc \<tau>" ss' "k + 1"] by (simp only:)
    qed
    show ?thesis
      unfolding take add_rows_def fold_res.simps
      by (subst read_frame.simps, simp only: lt True if_True r)
        (cases "add_row coefs ?row ss"; simp only: bind_res_simps option.case step [unfolded add_rows_def])
  next
    case False
    then show ?thesis by (subst read_frame.simps) (simp add: lt add_rows_def max_def)
  qed
qed

subsection \<open>All frames\<close>

definition frame_ends :: "i64 list \<Rightarrow> nat list" where
  "frame_ends timing = map (\<lambda>t. nat (10000 * sint t)) timing"

lemma read_frames_rows:
  assumes "coefs \<noteq> []" "2 * length coefs * n + 1 < 2 ^ 32" "n + 1 < 2 ^ 32"
    and "\<forall>t \<in> set timing. 0 \<le> sint t \<and> 10000 * sint t < 2 ^ 32"
    and "0 \<le> sint prev" "sint prev < 2 ^ 32" "\<tau> \<le> n"
  shows "bind_res (read_frames buf (of_nat (2 * length coefs * n)) coefs names (frame_durations prev timing)
       (double_of_int (sint prev)) (of_nat \<tau>) results) (\<lambda>(fin, results). Inr results)
     = average_frames coefs names (drop \<tau> (data_rows (length coefs) n buf)) \<tau> (frame_ends timing) results"
  using assms(4-7)
proof (induction timing arbitrary: prev \<tau> results)
  case Nil
  then show ?case by (simp add: frame_ends_def)
next
  case (Cons t timing)
  let ?e = "nat (10000 * sint t)" and ?rows = "drop \<tau> (data_rows (length coefs) n buf)"
  have t: "0 \<le> sint t" "10000 * sint t < 2 ^ 32" using Cons(2) by auto
  have "sint (t - prev) = sint t - sint prev"
  proof -
    have "sint (word_of_int (sint t - sint prev) :: i64) = sint t - sint prev"
      using t Cons(3,4) by (intro sint_of_int_small) simp_all
    then show ?thesis by simp
  qed
  then have nxt: "dadd (double_of_int (sint prev)) (double_of_int (sint (t - prev))) = double_of_int (sint t)"
    by (simp add: double_of_int_def)
  have "double_to_uint32 (dmul (double_of_int (sint t)) (DFin 10000)) = Inr (word_of_int (10000 * sint t))"
  proof -
    have "of_int (sint t) * 10000 = (of_int (10000 * sint t) :: real)" by simp
    then show ?thesis using t
      by (simp only: double_to_uint32_def double_of_int_def dmul.simps double.case trunc_real_of_int Let_def) simp
  qed
  moreover have "(word_of_int (10000 * sint t) :: u32) = of_nat ?e" using t by simp
  ultimately have cast: "double_to_uint32 (dmul (double_of_int (sint t)) (DFin 10000)) = Inr (of_nat ?e)" by simp
  have e: "?e < 2 ^ 32" using t by (simp add: nat_less_iff)
  note frame = read_frame_rows [OF Cons(5) _ assms(1-3) e, of "map (\<lambda>_. zero_sum) coefs"]
  have len: "length ?rows = n - \<tau>" by (simp add: data_rows_def)
  note step = frame_ends_def list.map frame_durations.simps read_frames.simps average_frames.simps Let_def nxt cast
    bind_res_simps frame len
  show ?case
  proof (cases "add_rows coefs (take (?e - \<tau>) ?rows) (map (\<lambda>_. zero_sum) coefs)")
    case (Inl e)
    then show ?thesis by (simp only: step length_map)
  next
    case (Inr totals)
    show ?thesis
    proof (cases "n - \<tau> < ?e - \<tau>")
      case True
      then show ?thesis by (simp only: step Inr if_True option.case prod.case length_map)
    next
      case False
      then have m: "max \<tau> ?e \<le> n" using Cons(5) by linarith
      have p: "sint t < 2 ^ 32" using t by linarith
      have d: "drop (?e - \<tau>) ?rows = drop (max \<tau> ?e) (data_rows (length coefs) n buf)"
        by (simp add: max_def)
      have "bind_res (read_frames buf (of_nat (2 * length coefs * n)) coefs names (frame_durations t timing)
            (double_of_int (sint t)) (of_nat (max \<tau> ?e)) r) (\<lambda>(fin, results). Inr results)
          = average_frames coefs names (drop (?e - \<tau>) ?rows) (max \<tau> ?e) (frame_ends timing) r" for r
        unfolding d using Cons(1) [OF _ t(1) p m] Cons(2) by simp
      then show ?thesis
        by (simp only: step Inr False if_False option.case prod.case add_0_left length_map)
          (cases "push_frame names (of_nat (?e - \<tau>)) totals results"; simp only: bind_res_simps frame_ends_def)
    qed
  qed
qed

lemma resampled_data:
  assumes "rails \<noteq> []" and "length rails < 2 ^ 31" and "16 * length rails * n < 2 ^ 32"
    and "\<forall>t \<in> set timing. 0 \<le> sint t \<and> 10000 * sint t < 2 ^ 32"
  shows "process_data J rails (of_nat (16 * length rails * n)) buf timing results
     = average_frames (map (rail_coefficient J) rails) (map (\<lambda>r. j_asString J (j_at J r ''name'')) rails)
         (data_rows (length rails) n buf) 0 (frame_ends timing) results"
proof -
  let ?m = "length rails" and ?coefs = "map (rail_coefficient J) rails"
  have total: "(of_nat (16 * ?m * n) :: u32) div 8 = of_nat (2 * ?m * n)"
  proof -
    have "(of_nat (16 * ?m * n) :: u32) div of_nat 8 = of_nat (unat (of_nat (16 * ?m * n) :: u32) div unat (of_nat 8 :: u32))"
      by (rule word_arith_nat_div)
    also have "unat (of_nat (16 * ?m * n) :: u32) = 16 * ?m * n" using assms(3) by (rule unat_small)
    finally show ?thesis by simp
  qed
  have "0 < ?m" using assms(1) by simp
  then have "n \<le> ?m * n" by (cases ?m) simp_all
  moreover have "?m * n < 2 ^ 28" using assms(3) by (simp add: mult.commute)
  moreover have "n \<le> p \<Longrightarrow> p < 2 ^ 28 \<Longrightarrow> n + 1 < 2 ^ 32 \<and> 2 * p + 1 < 2 ^ 32" for p :: nat by simp
  ultimately have small: "n + 1 < 2 ^ 32" "2 * ?m * n + 1 < 2 ^ 32" unfolding mult.assoc by metis+
  have "(2 :: u32) * of_nat ?m = of_nat (2 * ?m)" by simp
  moreover have "unat (of_nat (2 * ?m) :: u32) = 2 * ?m" using assms(2) by (intro unat_small) simp
  ultimately have nz: "(2 :: u32) * of_nat ?m \<noteq> 0" using assms(1) by (metis unat_0 length_0_conv mult_eq_0_iff zero_neq_numeral)
  have run: "bind_res (read_frames buf (of_nat (2 * ?m * n)) ?coefs names (frame_durations 0 timing) (DFin 0) 0 results)
       (\<lambda>(fin, results). Inr results)
     = average_frames ?coefs names (data_rows ?m n buf) 0 (frame_ends timing) results" for names
    using read_frames_rows [of ?coefs n timing 0 0 buf names results] assms(1,4) small
    by (simp add: double_of_int_def del: of_nat_mult)
  show ?thesis
    unfolding process_data_def Let_def total run [symmetric] using nz
    by (simp add: bind_res_def split: sum.splits option.splits)
qed

text \<open>
  C13: Averaging the data that the daemon sent computes, for any configuration of at least one rail and any frame
  times that fit, exactly the reference: the frames share the rows of the data out in order, each frame that got a
  row stores the number of its rows and the averages of its rails, and the first frame that the data does not fill
  ends the work and stores nothing.
\<close>

theorem power_resampling:
  assumes "rails \<noteq> []" and "length rails < 2 ^ 31" and "16 * length rails * n < 2 ^ 32"
    and "\<forall>t \<in> set timing. 0 \<le> sint t \<and> 10000 * sint t < 2 ^ 32"
  shows "process_data J rails (of_nat (16 * length rails * n)) buf timing results
     = average_frames (map (rail_coefficient J) rails) (map (\<lambda>r. j_asString J (j_at J r ''name'')) rails)
         (data_rows (length rails) n buf) 0 (frame_ends timing) results"
  using assms by (rule resampled_data)

text \<open>
  The manager passes frame times in microseconds, the code reads them in seconds from the start: data of less
  than ten thousand rows for each microsecond of the first frame leaves no result.
\<close>

lemma power_first_frame_short:
  assumes "rails \<noteq> []" and "length rails < 2 ^ 31" and "16 * length rails * n < 2 ^ 32"
    and "\<forall>t \<in> set (t # timing). 0 \<le> sint t \<and> 10000 * sint t < 2 ^ 32" and "int n < 10000 * sint t"
    and "process_data J rails (of_nat (16 * length rails * n)) buf (t # timing) results = Inr results'"
  shows "results' = results"
proof -
  have "length (data_rows (length rails) n buf) < nat (10000 * sint t) - 0"
    using assms(5) by (simp add: data_rows_def)
  then show ?thesis
    using resampled_data [OF assms(1-4), of J buf results] assms(6) by (auto simp: frame_ends_def split: if_splits)
qed

text \<open>Data that repeats one row, the bytes of its samples one after the other.\<close>

lemma drop_repeat:
  "length b = k \<Longrightarrow> i \<le> n \<Longrightarrow> drop (k * i) (concat (replicate n b)) = concat (replicate (n - i) b)"
proof (induction i arbitrary: n)
  case (Suc i)
  then obtain n' where n: "n = Suc n'" by (cases n) auto
  have "drop (k * Suc i) (concat (replicate n b)) = drop (k * i) (drop k (b @ concat (replicate n' b)))"
    by (simp only: n replicate_Suc concat.simps drop_drop mult_Suc_right add.commute)
  with Suc n show ?case by simp
qed simp

lemma data_rows_repeat:
  assumes "length b = 16 * m"
  shows "data_rows m n (concat (replicate n b)) = replicate n (data_row m b 0)"
proof -
  have "data_row m (concat (replicate n b)) i = data_row m b 0" if i: "i < n" for i
  proof -
    have d: "take 8 (drop (8 * (2 * (m * i + j) + o')) (concat (replicate n b))) = take 8 (drop (8 * (2 * j + o')) b)"
      if j: "j < m" "o' \<le> 1" for j o'
    proof -
      have "n - i = Suc (n - Suc i)" using i by simp
      then have "drop (16 * m * i) (concat (replicate n b)) = b @ concat (replicate (n - Suc i) b)"
        using drop_repeat [OF assms, of i n] i by simp
      moreover have "drop (8 * (2 * (m * i + j) + o')) xs = drop (8 * (2 * j + o')) (drop (16 * m * i) xs)" for xs :: string
        by (simp add: algebra_simps)
      ultimately have "drop (8 * (2 * (m * i + j) + o')) (concat (replicate n b)) = drop (8 * (2 * j + o')) (b @ concat (replicate (n - Suc i) b))"
        by (simp only:)
      moreover have "8 * (2 * j + o') + 8 \<le> length b" using j unfolding assms by presburger
      ultimately show ?thesis by simp
    qed
    show ?thesis
      unfolding data_row_def float_at_def using d [of _ 0] d [of _ 1] by (intro map_cong) simp_all
  qed
  then show ?thesis
    unfolding data_rows_def by (intro nth_equalityI) simp_all
qed

text \<open>One rail of 500 milliohms at 2 volts and 0.5 volts over the shunt, for a second.\<close>

definition example_row :: string where
  "example_row = [NUL, NUL, NUL, NUL, NUL, NUL, NUL, CHR 0x40, NUL, NUL, NUL, NUL, NUL, NUL, CHR 0xE0, CHR 0x3F]"

definition example_rail :: json where
  "example_rail = JObject [(''name'', JString ''gpu''), (''resistance'', JInt 500)]"

lemma example_floats:
  "float64_of [NUL, NUL, NUL, NUL, NUL, NUL, NUL, CHR 0x40] = DFin 2"
  "float64_of [NUL, NUL, NUL, NUL, NUL, NUL, CHR 0xE0, CHR 0x3F] = DFin (1 / 2)"
  by (simp_all add: float64_of_def be_value_def NUL_def Let_def power_int_def power_one_over)

lemma example_data_row: "data_row 1 example_row 0 = [(DFin 2, DFin (1 / 2))]"
  by (simp add: data_row_def float_at_def example_row_def example_floats)

lemma example_sums:
  "add_rows [DFin 2] (replicate k [(DFin 2, DFin (1 / 2))]) [s]
     = Inr [\<lparr>sum_v = sum_v s + of_nat k * 2000000, sum_i = sum_i s + of_nat k * 1000000, sum_p = sum_p s + of_nat k * 2000000\<rparr>]"
proof (induction k arbitrary: s)
  case (Suc k)
  have "trunc_real 2000000 = 2000000" "trunc_real 1000000 = 1000000"
    using trunc_real_of_int [of 2000000] trunc_real_of_int [of 1000000] by simp_all
  then have "add_sample (DFin 2) (DFin 2) (DFin (1 / 2)) s
      = Inr \<lparr>sum_v = sum_v s + 2000000, sum_i = sum_i s + 1000000, sum_p = sum_p s + 2000000\<rparr>"
    by (simp add: add_sample_def double_to_int64_def TOTAL_POWER_TRUNC_COEFFICIENT_def Let_def)
  with Suc show ?case by (simp add: add_rows_def algebra_simps)
qed (simp add: add_rows_def)

theorem power_resampling_witness:
  "process_data tree_json [example_rail] (of_nat (16 * 1 * 10000)) (concat (replicate 10000 example_row)) [1, 2] []
     = Inr [(''gpu_current'', \<lparr>vl_type = TYPE_FP64, vl_list = [CV_fp64 (DFin 1000)], vl_summaries = []\<rparr>),
         (''gpu_power'', \<lparr>vl_type = TYPE_FP64, vl_list = [CV_fp64 (DFin 2000)], vl_summaries = []\<rparr>),
         (''gpu_voltage'', \<lparr>vl_type = TYPE_FP64, vl_list = [CV_fp64 (DFin 2000)], vl_summaries = []\<rparr>),
         (''num_samples'', \<lparr>vl_type = TYPE_U64, vl_list = [CV_u64 10000], vl_summaries = []\<rparr>)]"
proof -
  let ?buf = "concat (replicate 10000 example_row)"
  have rows: "data_rows 1 10000 ?buf = replicate 10000 [(DFin 2, DFin (1 / 2))]"
    using data_rows_repeat [of example_row 1 10000] example_data_row by (simp add: example_row_def)
  have coef: "rail_coefficient tree_json example_rail = DFin 2"
    by (simp add: rail_coefficient_def example_rail_def double_of_int_def)
  have nm: "j_asString tree_json (j_at tree_json example_rail ''name'') = ''gpu''" by (simp add: example_rail_def)
  have ends: "frame_ends [1, 2] = [10000, 20000]" by (simp add: frame_ends_def)
  have "process_data tree_json [example_rail] (of_nat (16 * length [example_rail] * 10000)) ?buf [1, 2] []
     = average_frames [DFin 2] [''gpu''] (replicate 10000 [(DFin 2, DFin (1 / 2))]) 0 [10000, 20000] []"
    by (subst power_resampling) (simp_all only: length_Cons list.size list.map rows [simplified] coef nm ends, simp_all)
  also have "\<dots> = push_frame [''gpu''] 10000 [\<lparr>sum_v = 20000000000, sum_i = 10000000000, sum_p = 20000000000\<rparr>] []"
  proof -
    have "average_frames [DFin 2] [''gpu''] [] 10000 [20000] = Inr" by (rule ext) (simp add: add_rows_def)
    moreover have "bind_res m Inr = m" for m :: "CollectorValueResults result" by (cases m) simp_all
    ultimately show ?thesis by (simp add: example_sums zero_sum_def)
  qed
  also have "\<dots> = Inr [(''gpu_current'', \<lparr>vl_type = TYPE_FP64, vl_list = [CV_fp64 (DFin 1000)], vl_summaries = []\<rparr>),
         (''gpu_power'', \<lparr>vl_type = TYPE_FP64, vl_list = [CV_fp64 (DFin 2000)], vl_summaries = []\<rparr>),
         (''gpu_voltage'', \<lparr>vl_type = TYPE_FP64, vl_list = [CV_fp64 (DFin 2000)], vl_summaries = []\<rparr>),
         (''num_samples'', \<lparr>vl_type = TYPE_U64, vl_list = [CV_u64 10000], vl_summaries = []\<rparr>)]"
    by (simp add: push_frame_def push_rail_def push_result_def map_modify_def average_def sdiv64_def double_of_int_def
        TOTAL_POWER_TRUNC_COEFFICIENT_def push_back_defs push_back_typed_def empty_list_def signed_divide_int_def)
  finally show ?thesis by simp
qed

section \<open>Receiving a message\<close>

text \<open>
  \<open>answers\<close>: the socket is ready each time it is polled, and each \<open>read\<close> answers as the list tells, with some
  bytes or, for nothing, that it has none; \<open>acc\<close> is what has been received. \<open>kept\<close>: what is left of the bytes
  when a read that has none takes the last one away.
\<close>

fun kept :: "string \<Rightarrow> string option list \<Rightarrow> string" where
  "kept acc [] = acc"
| "kept acc (None # events) = kept (butlast acc) events"
| "kept acc (Some data # events) = kept (acc @ data) events"

fun answers ::
  "('a, 'w) power_ops \<Rightarrow> int \<Rightarrow> nat \<Rightarrow> i32 \<Rightarrow> string \<Rightarrow> string option list \<Rightarrow> 'w \<Rightarrow> 'w \<Rightarrow> bool" where
  "answers P h len ms acc [] w w' \<longleftrightarrow> length acc = len \<and> w' = w"
| "answers P h len ms acc (e # events) w w' \<longleftrightarrow> length acc < len \<and>
     (case po_poll_in P h ms w of (n, bad, w1) \<Rightarrow> n \<noteq> - 1 \<and> n \<noteq> 0 \<and> \<not> bad \<and>
       (case po_read P h (min (len - length acc) (1024 * 64)) w1 of (answer, w2) \<Rightarrow>
         (case e of None \<Rightarrow> answer = R_again \<and> acc \<noteq> [] \<and> answers P h len ms (butlast acc) events w2 w'
          | Some data \<Rightarrow> answer = R_data data \<and> data \<noteq> [] \<and> length data \<le> len - length acc
              \<and> answers P h len ms (acc @ data) events w2 w')))"

lemma store_at_length: "t + length data \<le> length buf \<Longrightarrow> length (store_at t data buf) = length buf"
  by (simp add: store_at_def)

lemma take_store_at: "t \<le> length buf \<Longrightarrow> take (t + length data) (store_at t data buf) = take t buf @ data"
  by (simp add: store_at_def)

lemma receive_answers:
  assumes "answers P h len ms acc events w w'" "len < 2 ^ 32" "length buf = len" "take (length acc) buf = acc"
  shows "receive P h len ms (of_nat (length acc)) buf w = Some (of_nat len, kept acc events, w')"
  using assms(1,3,4)
proof (induction events arbitrary: acc buf w)
  case Nil
  then show ?case using assms(2) by (subst receive.simps) (simp add: unat_small)
next
  case (Cons e events)
  obtain n bad w1 where p: "po_poll_in P h ms w = (n, bad, w1)" by (metis prod.exhaust)
  obtain answer w2 where r: "po_read P h (min (len - length acc) (1024 * 64)) w1 = (answer, w2)" by fastforce
  have lt: "length acc < len" and ok: "n \<noteq> - 1" "n \<noteq> 0" "\<not> bad" using Cons(2) p r by auto
  then have u: "unat (of_nat (length acc) :: u32) = length acc" using assms(2) by (intro unat_small) linarith
  note unfold = receive.simps [of P h len ms "of_nat (length acc)" buf w] p r u lt ok
  show ?case
  proof (cases e)
    case None
    with Cons(2) p r have a: "answer = R_again" "acc \<noteq> []" "answers P h len ms (butlast acc) events w2 w'" by auto
    then have "(of_nat (length acc) :: u32) - 1 = of_nat (length (butlast acc))" by (cases acc rule: rev_cases) simp_all
    moreover have "take (length (butlast acc)) buf = butlast acc"
      using Cons(4) by (metis butlast_take length_butlast less_imp_le lt Cons(3))
    ultimately show ?thesis using Cons(1) [OF a(3) Cons(3)] None a(1)
      by (simp only: unfold if_True if_False prod.case read_answer.case kept.simps)
  next
    case (Some data)
    with Cons(2) p r have a: "answer = R_data data" "data \<noteq> []" "length data \<le> len - length acc"
      "answers P h len ms (acc @ data) events w2 w'" by auto
    have "length (store_at (length acc) data buf) = len" using a(3) lt Cons(3) store_at_length [of "length acc" data buf] by simp
    moreover have "take (length (acc @ data)) (store_at (length acc) data buf) = acc @ data"
      using take_store_at [of "length acc" buf data] Cons(3,4) lt by simp
    moreover have "(of_nat (length acc) :: u32) + of_nat (length data) = of_nat (length (acc @ data))" by simp
    ultimately show ?thesis using Cons(1) [OF a(4)] Some a(1,2)
      by (simp only: unfold if_True if_False prod.case read_answer.case kept.simps)
  qed
qed

text \<open>
  C20: When the socket is ready at every poll, \<open>receiveMsg\<close> returns the length asked for, with the bytes of
  the reads in the order they came, except that every read that had nothing loses the byte received last before it.
\<close>

theorem power_receive:
  assumes "answers P (mSocketFD d) len ms [] events w w'" and "len < 2 ^ 32"
  shows "receiveMsg P d len ms w = Inr (of_nat len, kept [] events, w')"
  using receive_answers [OF assms, of "replicate len NUL"] by (simp add: receiveMsg_def)

text \<open>A socket that answers from a list.\<close>

definition script_ops :: "(unit, string option list) power_ops" where
  "script_ops =
     \<lparr>po_getaddrinfo = (\<lambda>ip port w. (Some [()], w)), po_socket = (\<lambda>a w. (3, w)), po_getfl = (\<lambda>h w. (2, w)),
      po_setfl = (\<lambda>h fl w. (True, w)), po_connect = (\<lambda>h a w. (C_progress, w)), po_poll_out = (\<lambda>h ms w. (1, w)),
      po_sockerr = (\<lambda>h w. (Some 0, w)), po_close = (\<lambda>h w. w), po_write = (\<lambda>h row w. (int (length row), w)),
      po_poll_in = (\<lambda>h ms w. (if w = [] then 0 else 1, False, w)),
      po_read = (\<lambda>h n w. case w of [] \<Rightarrow> (R_data [], w) | None # w \<Rightarrow> (R_again, w) | Some data # w \<Rightarrow> (R_data data, w)),
      po_malloc = (\<lambda>n w. True)\<rparr>"

theorem power_receive_witness:
  "receiveMsg script_ops (PowerDaemon_new tree_json) 4 100 [Some ''ab'', None, Some ''cde'', Some ''OK'']
     = Inr (4, ''acde'', [Some ''OK''])"
proof -
  have "answers script_ops (- 1) 4 100 [] [Some ''ab'', None, Some ''cde''] [Some ''ab'', None, Some ''cde'', Some ''OK''] [Some ''OK'']"
    by (simp add: script_ops_def)
  then show ?thesis
    using power_receive [of script_ops "PowerDaemon_new tree_json" 4 100 "[Some ''ab'', None, Some ''cde'']"]
    by (simp add: PowerDaemon_new_def)
qed

section \<open>The configuration\<close>

text \<open>Without rails the data never stops short, so that the division at the end is always reached.\<close>

lemma read_frame_no_rails: "coefs = [] \<Longrightarrow> read_frame buf n coefs e cur k ss \<noteq> Inr None"
proof (induction buf n coefs e cur k ss rule: read_frame.induct)
  case (1 buf n coefs e cur k ss)
  show ?case
    using 1(1) [OF _ 1(2), unfolded 1(2)] by (subst read_frame.simps) (auto simp: 1(2))
qed

lemma read_frames_no_rails: "read_frames buf n [] names ds next cur results \<noteq> Inr (None, r)"
  using read_frame_no_rails
  by (induction ds arbitrary: "next" cur results) (auto simp: Let_def split: option.splits prod.splits)

lemma process_data_no_rails: "process_data J [] numBytes buf timing results \<noteq> Inr r"
  using read_frames_no_rails by (auto simp: process_data_def Let_def split: option.splits)

lemma power_stop_no_rails:
  assumes "PowerDaemon_stop P J d timing results w = Inr (ok, results', w')" and "j_elements J (pdConfig d) = []"
  shows "results' = results"
  using assms(1)
  by (auto simp: PowerDaemon_stop_def Let_def assms(2) process_data_no_rails split: if_splits)

text \<open>What the calls do to the configuration.\<close>

lemma power_init_config:
  assumes "Power_init P J c w = Inr (True, c', w')"
  shows "mConfig c' = j_at J (mConfig c) ''power''"
  using assms
  by (auto simp: Power_init_def Let_def with_daemon_def set_private_def split: if_splits prod.splits)

lemma power_start_config:
  assumes "Power_start P J c w = Inr (True, c', w')"
  shows "mConfig c' = mConfig c \<and> pdConfig (mPD (collector.more c')) = j_at J (j_at J (mConfig c) ''power'') ''rails''"
  using assms
  by (auto simp: Power_start_def PowerDaemon_start_def Let_def with_daemon_def set_private_def split: if_splits prod.splits)

lemma power_postprocess_config:
  "Power_postprocess P J timing c w = Inr (b, c', w') \<Longrightarrow> mConfig c' = mConfig c"
  by (auto simp: Power_postprocess_def)

text \<open>
  C40: \<open>init\<close> replaces the configuration by its member \<open>power\<close>, and \<open>start\<close> looks for the member
  \<open>power\<close> in it once more. With a configuration that has no such member, no run ever stores a result, since
  the daemon is told of no rails and the averaging cannot return, and a second \<open>init\<close> fails its assertion.
\<close>

theorem power_config_lost:
  assumes "json_api J dictlike listlike"
    and "Power_init P J c w = Inr (True, c1, w1)"
    and "j_at J (j_at J (mConfig c) ''power'') ''power'' = j_null J"
    and "Power_start P J c1 w2 = Inr (True, c2, w3)"
    and "Power_postprocess P J timing c2 w4 = Inr (b, c3, w5)"
  shows "mResults c3 = mResults c2 \<and> Power_init P J c3 w6 = Inl AssertFailed"
proof -
  have null: "j_at J (j_null J) k = j_null J" "j_elements J (j_null J) = []" "j_isNull J (j_null J)" for k
    using assms(1) by (auto intro: json_api.at_null json_api.elements_null json_api.isNull_null)
  have c1: "mConfig c1 = j_at J (mConfig c) ''power''" using assms(2) by (rule power_init_config)
  have c2: "mConfig c2 = mConfig c1" "pdConfig (mPD (collector.more c2)) = j_null J"
    using power_start_config [OF assms(4)] c1 assms(3) null(1) by simp_all
  have "mResults c3 = mResults c2"
    using assms(5) c2(2) null(2) by (auto simp: Power_postprocess_def dest: power_stop_no_rails)
  moreover have "j_at J (mConfig c3) ''power'' = j_null J"
    using power_postprocess_config [OF assms(5)] c2(1) c1 assms(3) by simp
  then have "Power_init P J c3 w6 = Inl AssertFailed"
    using null(3) by (auto simp: Power_init_def bind_res_def assert_res_def)
  ultimately show ?thesis ..
qed

definition example_power :: json where
  "example_power = JObject [(''power_daemon_ip'', JString ''10.0.0.1''), (''power_daemon_port'', JString ''6512''),
     (''rails'', JArray [JObject [(''current_channel'', JString ''a1''), (''name'', JString ''gpu''),
        (''resistance'', JInt 500), (''voltage_channel'', JString ''a0'')]])]"

definition example_power_collector :: "(json, json power_state) collector_scheme" where
  "example_power_collector =
     PowerDataCollector_new tree_json (JObject [(''power'', JObject [(''power'', example_power)])]) ''power''"

lemma script_receive:
  "receiveMsg script_ops d 2 ms (Some ''OK'' # w) = Inr (2, ''OK'', w)" "receiveMsg script_ops d 2 ms [] = Inr (0, [NUL, NUL], [])"
proof -
  have "answers script_ops (mSocketFD d) 2 ms [] [Some ''OK''] (Some ''OK'' # w) w" by (simp add: script_ops_def)
  then have "receive script_ops (mSocketFD d) 2 ms (of_nat (length ([] :: string))) (replicate 2 NUL) (Some ''OK'' # w) = Some (of_nat 2, kept [] [Some ''OK''], w)"
    by (rule receive_answers) simp_all
  then show "receiveMsg script_ops d 2 ms (Some ''OK'' # w) = Inr (2, ''OK'', w)"
    by (simp add: receiveMsg_def)
  show "receiveMsg script_ops d 2 ms [] = Inr (0, [NUL, NUL], [])"
    by (simp add: receiveMsg_def receive.simps [of _ _ _ _ 0] script_ops_def numeral_2_eq_2)
qed

lemma script_sync:
  "receiveSyncMsg script_ops d (CHR ''O'') (CHR ''K'') ms (Some ''OK'' # w) = Inr (True, w)"
  "simpleSync script_ops d msg (CHR ''O'') (CHR ''K'') ms (Some ''OK'' # w) = Inr (True, w)"
  "simpleSync script_ops d msg (CHR ''O'') (CHR ''K'') ms [] = Inr (False, [])"
proof -
  have send: "sendMsg script_ops d msg w = (True, w)" for w by (simp add: sendMsg_def Let_def script_ops_def)
  show "receiveSyncMsg script_ops d (CHR ''O'') (CHR ''K'') ms (Some ''OK'' # w) = Inr (True, w)"
    "simpleSync script_ops d msg (CHR ''O'') (CHR ''K'') ms (Some ''OK'' # w) = Inr (True, w)"
    "simpleSync script_ops d msg (CHR ''O'') (CHR ''K'') ms [] = Inr (False, [])"
    by (simp_all add: simpleSync_def receiveSyncMsg_def script_receive send NUL_def)
qed

lemma example_power_run:
  obtains c1 c2 c3 where
    "Power_init script_ops tree_json example_power_collector [Some ''OK''] = Inr (True, c1, [])"
    "Power_start script_ops tree_json c1 [Some ''OK'', Some ''OK''] = Inr (True, c2, [])"
    "Power_postprocess script_ops tree_json [1000] c2 [] = Inr (True, c3, [])"
proof -
  have port: "atoi (c_string ''6512'') = 6512"
    by (simp add: atoi_def strtol_def scan_int_def skip_space_def c_isspace_def c_isdigit_def digits_value_def digit_value_def
        saturate64_def c_string_def NUL_def Let_def)
  have connect: "connectToDaemon script_ops ip port timeout d w = (True, d\<lparr>mSocketFD := 3\<rparr>, w)" for ip port timeout w and d :: "json power_daemon"
    by (simp add: connectToDaemon_def connect_attempt_def await_connection_def script_ops_def)
  obtain c1 where 1: "Power_init script_ops tree_json example_power_collector [Some ''OK''] = Inr (True, c1, [])"
    and cfg: "mConfig c1 = example_power"
    using port by (auto simp: Power_init_def example_power_collector_def PowerDataCollector_new_def Collector_new_def collector.defs Let_def
      example_power_def rail_valid_def connect handshake_def script_sync with_daemon_def set_private_def)
  obtain c2 where 2: "Power_start script_ops tree_json c1 [Some ''OK'', Some ''OK''] = Inr (True, c2, [])"
  proof -
    have "po_write script_ops h row w = (int (length row), w)" for h row w by (simp add: script_ops_def)
    then show ?thesis
      by (intro that) (simp add: Power_start_def PowerDaemon_start_def sendMsg_def cfg example_power_def Let_def script_sync c_string_def)
  qed
  have 3: "Power_postprocess script_ops tree_json [1000] c2 [] = Inr (True, c2\<lparr>mResults := mResults c2\<rparr>, [])"
    by (simp add: Power_postprocess_def PowerDaemon_stop_def script_receive script_sync)
  show ?thesis using that [OF 1 2 3] .
qed

theorem power_config_lost_witness:
  "\<exists>c1 c2 c3. Power_init script_ops tree_json example_power_collector [Some ''OK''] = Inr (True, c1, [])
     \<and> Power_start script_ops tree_json c1 [Some ''OK'', Some ''OK''] = Inr (True, c2, [])
     \<and> Power_postprocess script_ops tree_json [1000] c2 [] = Inr (True, c3, [])
     \<and> mResults c3 = mResults c2 \<and> Power_init script_ops tree_json c3 [] = Inl AssertFailed"
proof -
  obtain c1 c2 c3 where run: "Power_init script_ops tree_json example_power_collector [Some ''OK''] = Inr (True, c1, [])"
    "Power_start script_ops tree_json c1 [Some ''OK'', Some ''OK''] = Inr (True, c2, [])"
    "Power_postprocess script_ops tree_json [1000] c2 [] = Inr (True, c3, [])"
    by (rule example_power_run)
  have "j_at tree_json (j_at tree_json (mConfig example_power_collector) ''power'') ''power'' = j_null tree_json"
    by (simp add: example_power_collector_def PowerDataCollector_new_def Collector_new_def collector.defs example_power_def)
  from power_config_lost [OF tree.json_api_axioms run(1) this run(2,3)] run show ?thesis by blast
qed

end
