(* ===== verification/Burrow.thy ===== *)
theory Burrow
  imports Ferret_Runs Results
begin

text \<open>
  The command line tool \<open>burrow\<close> (\<open>burrow.cpp\<close>): it reads its options, builds a configuration with the
  ferret collector alone, runs a collection and waits on a pipe for the status that the collector writes
  from its thread. The options come parsed, as the list of what \<open>getopt\<close> finds and the operands after
  them; a schedule tells when the threads of the collectors take turns and when a read of the pipe returns.
\<close>

section \<open>The configuration\<close>

text \<open>\<open>maxCpu\<close> is below the largest \<open>int\<close>; at that number the counter of the loop overflows.\<close>

definition burrow_cpus :: "'j json_ops \<Rightarrow> i32 \<Rightarrow> 'j" where
  "burrow_cpus J maxCpu =
     foldl (j_append J) (j_null J) (map (\<lambda>cpu. j_of_int J (scast (word_of_int cpu :: i32))) [0..sint maxCpu])"

definition ferret_config :: "'j json_ops \<Rightarrow> i32 \<Rightarrow> string \<Rightarrow> string \<Rightarrow> i32 \<Rightarrow> i32 \<Rightarrow> 'j" where
  "ferret_config J maxCpu process outDir timeout status_fd =
     foldl (\<lambda>v (k, x). j_set J v k x) (j_null J)
       [(''cpus'', burrow_cpus J maxCpu),
        (''process_names'', j_append J (j_null J) (j_of_string J process)),
        (''required'', j_of_bool J True),
        (''status_fd'', j_of_int J (scast status_fd)),
        (''output_dir'', j_of_string J outDir),
        (''poll_timeout'', j_of_int J (scast timeout))]"

definition burrow_config :: "'j json_ops \<Rightarrow> i32 \<Rightarrow> string \<Rightarrow> string \<Rightarrow> i32 \<Rightarrow> i32 \<Rightarrow> 'j" where
  "burrow_config J maxCpu process outDir timeout status_fd =
     j_set J (j_null J) ''ferret'' (ferret_config J maxCpu process outDir timeout status_fd)"

section \<open>Monitoring\<close>

text \<open>
  \<open>bo_read\<close> gives the status, or nothing when \<open>read\<close> did not return four bytes. The fields in front are
  the arguments of the model of the manager.
\<close>

record ('j, 'x, 'w) burrow_ops =
  bo_json :: "'j json_ops"
  bo_android :: bool
  bo_new :: "'j \<Rightarrow> string \<Rightarrow> builtin \<Rightarrow> ('j, 'x) collector_scheme"
  bo_fresh :: "nat \<Rightarrow> ('j, 'x) collector_scheme"
  bo_vtable :: "nat \<Rightarrow> ('j, 'x, 'w) vtable"
  bo_pipe :: "'w \<Rightarrow> (i32 \<times> i32) option \<times> 'w"
  bo_read :: "i32 \<Rightarrow> 'w \<Rightarrow> i32 option \<times> 'w"
  bo_close :: "i32 \<Rightarrow> 'w \<Rightarrow> 'w"

datatype burrow_event = Turn nat i64 | Status

text \<open>
  The loop that waits for the end: whether the process has been seen to finish. A status equal to the one before is
  skipped. A schedule that ends leaves the tool waiting.
\<close>

fun await_end ::
  "('j, 'x, 'w) burrow_ops \<Rightarrow> i32 \<Rightarrow> burrow_event list \<Rightarrow> i32 \<Rightarrow> ('j, 'x, 'w) collection \<Rightarrow>
     (bool \<times> ('j, 'x, 'w) collection) result" where
  "await_end B pipe [] last_status s = Inl NoReturn"
| "await_end B pipe (Turn p now # events) last_status s =
     bind_res (thread_tick (bo_vtable B) p now s) (await_end B pipe events last_status)"
| "await_end B pipe (Status # events) last_status s =
     (case bo_read B pipe (world s) of (recvd, w) \<Rightarrow>
      (case recvd of None \<Rightarrow> Inl AssertFailed
       | Some st \<Rightarrow>
           let s = s\<lparr>world := w\<rparr> in
           if st \<noteq> last_status then
             (if st = - 1 then Inr (False, s)
              else if st = 0 then Inr (True, s)
              else await_end B pipe events st s)
           else await_end B pipe events last_status s))"

text \<open>\<open>monitor\<close>: whether it succeeded, and the results it prints.\<close>

definition monitor ::
  "('j, 'x, 'w) burrow_ops \<Rightarrow> i64 \<Rightarrow> burrow_event list \<Rightarrow> i32 \<Rightarrow> string \<Rightarrow> string \<Rightarrow> i32 \<Rightarrow> 'w \<Rightarrow>
     (bool \<times> 'j option \<times> ('j, 'x, 'w) collection) result" where
  "monitor B now events maxCpu process outDir timeout w =
     (case bo_pipe B w of
        (None, w) \<Rightarrow> Inl (Exited 1)
      | (Some (rd, wr), w) \<Rightarrow>
          let J = bo_json B; cfg = burrow_config J maxCpu process outDir timeout wr;
              closed = (\<lambda>s. s\<lparr>world := bo_close B wr (bo_close B rd (world s))\<rparr>) in
          bind_res (Collection_new J (bo_android B) (bo_new B) (bo_fresh B) w cfg False) (\<lambda>c.
          bind_res (initialize J (bo_vtable B) [] c) (\<lambda>(success, c).
          if \<not> success then Inr (False, None, closed c)
          else
            bind_res (start (bo_vtable B) [] now c) (\<lambda>c.
            bind_res (await_end B rd events (- 99) c) (\<lambda>(success, c).
            bind_res (stop (bo_vtable B) c) (\<lambda>c.
              let c = closed c in
              if success then bind_res (results J c) (\<lambda>r. Inr (True, Some r, c))
              else Inr (False, None, c)))))))"

section \<open>Options\<close>

record burrow_args =
  arg_maxCpu :: i32
  arg_timeout :: i32
  arg_outputPath :: string

definition burrow_defaults :: burrow_args where
  "burrow_defaults = \<lparr>arg_maxCpu = - 1, arg_timeout = 30, arg_outputPath = []\<rparr>"

text \<open>\<open>usage(status)\<close> prints its message and exits.\<close>

definition usage :: "int \<Rightarrow> 'a result" where
  "usage status = Inl (Exited status)"

definition burrow_option :: "burrow_args \<Rightarrow> char \<times> string \<Rightarrow> burrow_args result" where
  "burrow_option a opt =
     (case opt of (c, optarg) \<Rightarrow>
      if c = CHR ''h'' then usage 0
      else if c = CHR ''c'' then Inr (a\<lparr>arg_maxCpu := atoi optarg\<rparr>)
      else if c = CHR ''o'' then Inr (a\<lparr>arg_outputPath := optarg\<rparr>)
      else if c = CHR ''t'' then Inr (a\<lparr>arg_timeout := atoi optarg\<rparr>)
      else usage 2)"

definition burrow_parse :: "bool \<Rightarrow> (char \<times> string) list \<Rightarrow> string list \<Rightarrow> (burrow_args \<times> string) result" where
  "burrow_parse android opts operands =
     bind_res (fold_res burrow_option burrow_defaults opts) (\<lambda>a.
       if android \<and> arg_outputPath a = [] then usage 2
       else if sint (arg_timeout a) < 1 then usage 2
       else if sint (arg_maxCpu a) < 0 then usage 2
       else if operands = [] then usage 2
       else if 1 < length operands then usage 2
       else Inr (a, hd operands))"

text \<open>\<open>main\<close>: the exit status.\<close>

definition burrow_main ::
  "('j, 'x, 'w) burrow_ops \<Rightarrow> i64 \<Rightarrow> burrow_event list \<Rightarrow> (char \<times> string) list \<Rightarrow> string list \<Rightarrow> 'w \<Rightarrow> int result" where
  "burrow_main B now events opts operands w =
     bind_res (burrow_parse (bo_android B) opts operands) (\<lambda>(a, process).
     bind_res (monitor B now events (arg_maxCpu a) process (arg_outputPath a) (arg_timeout a) w) (\<lambda>(success, _, _).
       Inr (if success then 0 else 1)))"

section \<open>What burrow monitors\<close>

lemma burrow_cpus_read:
  assumes api: "json_api J dictlike listlike"
  shows "map (j_asInt J) (if j_isArray J (burrow_cpus J maxCpu) then j_elements J (burrow_cpus J maxCpu) else [])
    = map word_of_int [0..sint maxCpu]"
proof -
  have all: "j_elements J (burrow_cpus J maxCpu) = map (\<lambda>cpu. j_of_int J (scast (word_of_int cpu :: i32))) [0..sint maxCpu]"
    unfolding burrow_cpus_def
    by (simp add: json_api.elements_append_all [OF api] json_api.listlike_null [OF api] json_api.elements_null [OF api])
  have "j_isArray J (foldl (j_append J) v (x # xs))" if "listlike v" for v x xs
    using that by (induction xs arbitrary: v x)
      (simp_all add: json_api.isArray_append [OF api] json_api.listlike_append [OF api])
  then have "[0..sint maxCpu] \<noteq> [] \<Longrightarrow> j_isArray J (burrow_cpus J maxCpu)"
    unfolding burrow_cpus_def using json_api.listlike_null [OF api] by (cases "[0..sint maxCpu]") simp_all
  then show ?thesis
    unfolding all by (auto simp: json_api.asInt_of_int [OF api])
qed

text \<open>
  C19: The collector that burrow configures monitors exactly the CPUs up to the given number and the named
  process, reports to the pipe, waits as long as it was told, runs in its own thread and keeps the trace as it is. Its output
  directory is the one given without its trailing slashes; with the default, no directory, or with slashes only, the
  constructor reads before the start of the string.
\<close>

theorem burrow_configures_ferret:
  assumes api: "json_api J dictlike listlike" and clk: "2 * fo_clk_tck F w \<noteq> 0"
  shows "case FerretCollector_new J F (burrow_config J maxCpu process outDir timeout pipe) ''ferret'' junk w of
      Inl e \<Rightarrow> e = OutOfBounds \<and> set outDir \<subseteq> {CHR ''/''}
    | Inr c \<Rightarrow> (let s = collector.more c in
        mCpus s = map word_of_int [0..sint maxCpu] \<and> mProcessNames s = [process] \<and> mStatusFd s = pipe
        \<and> mPollTimeout s = scast timeout \<and> mIsThreaded c \<and> \<not> mEnablePostprocess s \<and> mBannedThreads s = []
        \<and> \<not> mInitSuccess s \<and> mOutputDir s \<noteq> [] \<and> last (mOutputDir s) \<noteq> CHR ''/''
        \<and> (\<exists>n. outDir = mOutputDir s @ replicate n (CHR ''/'')))"
proof -
  let ?cfg = "ferret_config J maxCpu process outDir timeout pipe"
  note laws = json_api.dictlike_null [OF api] json_api.dictlike_set [OF api] json_api.isMember_set [OF api]
    json_api.isMember_null [OF api] json_api.at_set [OF api] json_api.get_def [OF api]
    json_api.listlike_null [OF api] json_api.isArray_append [OF api] json_api.elements_append [OF api] json_api.elements_null [OF api]
    json_api.asInt_of_int [OF api] json_api.asString_of_string [OF api] json_api.isString_of_string [OF api]
  have own: "mConfig (Collector_new J (burrow_config J maxCpu process outDir timeout pipe) ''ferret'') = ?cfg"
    by (simp add: Collector_new_def burrow_config_def laws)
  have dict: "dictlike ?cfg" by (simp add: ferret_config_def laws)
  have member: "j_isMember J ?cfg k \<longleftrightarrow> k \<in> {''cpus'', ''process_names'', ''required'', ''status_fd'', ''output_dir'', ''poll_timeout''}" for k
    by (auto simp: ferret_config_def laws)
  have at: "j_at J ?cfg ''cpus'' = burrow_cpus J maxCpu" "j_at J ?cfg ''process_names'' = j_append J (j_null J) (j_of_string J process)"
    "j_at J ?cfg ''status_fd'' = j_of_int J (scast pipe)" "j_at J ?cfg ''output_dir'' = j_of_string J outDir"
    "j_at J ?cfg ''poll_timeout'' = j_of_int J (scast timeout)"
    by (simp_all add: ferret_config_def laws)
  have cpus: "map (j_asInt J) (config_list J ?cfg ''cpus'') = map word_of_int [0..sint maxCpu]"
    using burrow_cpus_read [OF api, of maxCpu] by (simp only: config_list_def at)
  have names: "config_list J ?cfg ''process_names'' = [j_of_string J process]"
    by (simp add: config_list_def at laws)
  show ?thesis
    using clk strip_slashes_cases [of outDir]
    by (auto simp: FerretCollector_new_def own member at cpus names config_cpus_def config_banned_def config_output_def Let_def laws dict
        sdiv64_def collector.defs split: if_splits)
qed

theorem burrow_configures_ferret_witness:
  "FerretCollector_new tree_json (table_kernel (\<lambda>_. None) [])
     (burrow_config tree_json (arg_maxCpu (burrow_defaults\<lparr>arg_maxCpu := 3\<rparr>)) ''game'' (arg_outputPath burrow_defaults)
       (arg_timeout burrow_defaults) 5) ''ferret'' (0, 0, 0) [0]
     = Inl OutOfBounds"
proof -
  have "2 * fo_clk_tck (table_kernel (\<lambda>_. None) []) [0] \<noteq> 0" by (simp add: table_kernel_def)
  from burrow_configures_ferret [OF tree.json_api_axioms this, where maxCpu = 3 and process = "''game''" and outDir = "[]"
      and timeout = 30 and pipe = 5 and junk = "(0, 0, 0)"]
  show ?thesis by (auto simp: burrow_defaults_def Let_def split: sum.splits)
qed

section \<open>What the options accept\<close>

lemma burrow_parse_accepts:
  assumes "burrow_parse android opts operands = Inr (a, process)"
  shows "operands = [process] \<and> 1 \<le> sint (arg_timeout a) \<and> 0 \<le> sint (arg_maxCpu a) \<and> (android \<longrightarrow> arg_outputPath a \<noteq> [])"
  using assms by (cases operands) (auto simp: burrow_parse_def usage_def split: if_splits)

lemma burrow_option_exits: "burrow_option a opt = Inl e \<Longrightarrow> e = Exited 0 \<or> e = Exited 2"
  by (auto simp: burrow_option_def usage_def split: prod.splits if_splits)

lemma burrow_parse_exits:
  assumes "burrow_parse android opts operands = Inl e"
  shows "e = Exited 0 \<or> e = Exited 2"
proof -
  have "fold_res burrow_option a opts = Inl e \<Longrightarrow> e = Exited 0 \<or> e = Exited 2" for a
    by (induction opts arbitrary: a) (auto simp: bind_res_eq_Inl dest: burrow_option_exits)
  then show ?thesis using assms by (auto simp: burrow_parse_def bind_res_eq_Inl usage_def split: if_splits)
qed

text \<open>The wait ends with success only on the status zero, and otherwise on the status minus one.\<close>

lemma await_end_status:
  assumes "await_end B pipe events last_status s = Inr (success, s')"
  shows "\<exists>s0 w. bo_read B pipe (world s0) = (Some (if success then 0 else - 1), w) \<and> s' = s0\<lparr>world := w\<rparr>"
  using assms
proof (induction B pipe events last_status s rule: await_end.induct)
  case (3 B pipe events last_status s)
  obtain recvd w where r: "bo_read B pipe (world s) = (recvd, w)" by fastforce
  with 3(3) obtain st where st: "recvd = Some st" by (cases recvd) auto
  show ?case
  proof (cases "st \<noteq> last_status \<and> (st = - 1 \<or> st = 0)")
    case True
    then show ?thesis using 3(3) r st by (intro exI [of _ s] exI [of _ w]) (auto simp: Let_def)
  next
    case False
    then have "\<exists>last_status. await_end B pipe events last_status (s\<lparr>world := w\<rparr>) = Inr (success, s')"
      using 3(3) r st by (auto simp: Let_def split: if_splits)
    then show ?thesis using False 3(1,2) [OF r [symmetric] st refl] 3(3) r st by (cases "st \<noteq> last_status") (auto simp: Let_def)
  qed
qed auto

end
