(* ===== verification/Spec2Isabelle.thy ===== *)
theory Spec2Isabelle
  imports Results Utility Annotate_Stream Annotate_Decode Vulkan_Runs Streamline Mali_Counters Perf_Runs Ferret_Runs Ferret_Reader Power_Runs Burrow
begin

text \<open>
  A model of libcollector, a C++ library that samples performance counters while another program
  runs, with theorems about what its parts do.

  \<^bold>\<open>The program.\<close> A \<^emph>\<open>collector\<close> is an object that samples some counters (\<open>interface.hpp\<close>, class
  \<open>Collector\<close>); each source of counters is a subclass under \<open>collectors/\<close>. A \<^emph>\<open>collection\<close>
  (class \<open>Collection\<close>, \<open>interface.cpp\<close>) owns the collectors, enables those the JSON configuration
  names, starts and stops a run, calls the collectors once per frame or lets those with a thread sample
  at their own rate, resamples the latter to frames, and writes the results as JSON or CSV. The Vulkan
  layer (\<open>layer/vulkan_layer.cpp\<close>) drives a collection from the frames of an application. The
  Streamline collector writes into an annotation stream, for which \<open>streamline_annotate.cpp\<close> keeps a
  ring buffer per thread that one sender thread empties into sockets. The Mali collector reads the
  hardware counters of a GPU through a reader object (\<open>hwcpipe.cpp\<close>) with tables of counter names. The
  perf collector counts with groups of kernel counters for every thread; the ferret collector records the
  load of the threads of named processes in a trace file and can sum it up; the power collector drives a
  measuring machine over a socket. The tool \<open>burrow\<close> runs a collection with the ferret collector alone.

  \<^bold>\<open>The theories.\<close>
  \<^item> \<^verbatim>\<open>Prelude\<close>: machine types as words, the ways a call can fail to return, loops over calls that
    can fail, idealised doubles. \<^verbatim>\<open>Std_Map\<close>: \<open>std::map\<close> as a sorted association list, the contract
    \<open>dictionary\<close> and its interpretation. \<^verbatim>\<open>C_Library\<close>: \<open>strtol\<close>, \<open>sscanf\<close>, \<open>strstr\<close>, decimal output.
    \<^verbatim>\<open>Json_Api\<close>: the JSON library as a record of operations with its laws as the locale \<open>json_api\<close>,
    interpreted on JSON trees.
  \<^item> \<^verbatim>\<open>Values\<close> (\<open>interface.hpp\<close>, \<open>CollectorValueList\<close>): typed sample lists, \<open>push_back\<close>, \<open>summarize\<close>.
    \<^verbatim>\<open>Collector\<close>: the base class as an extensible record, its inherited operations, the resampling of
    \<open>postprocess\<close>, the table of virtual functions, and the contract \<open>collector_class\<close> every subclass
    keeps (it changes nothing the manager owns and keeps the results well formed).
  \<^item> \<^verbatim>\<open>Collection\<close> (\<open>interface.cpp\<close>): the manager's state and every operation of its interface, in a
    locale \<open>manager\<close> over arbitrary collector classes. \<^verbatim>\<open>Collection_Runs\<close>: the states reachable by
    calls and thread turns and their invariant. \<^verbatim>\<open>Results\<close>: \<open>results\<close>, \<open>writeCSV\<close> and \<open>writeJSON\<close>.
  \<^item> \<^verbatim>\<open>Sysfs\<close> (\<open>SysfsCollector\<close>, \<open>cputemp.cpp\<close>, \<open>gpufreq.cpp\<close>, \<open>procfs_stat.cpp\<close>) and
    \<^verbatim>\<open>System_Collectors\<close> (\<open>rusage.cpp\<close>, \<open>memory.cpp\<close>, \<open>cpufreq.cpp\<close>): the collectors that read the
    operating system. \<^verbatim>\<open>Dispatch\<close>: objects of different classes in one store; interprets \<open>manager\<close>.
  \<^item> \<^verbatim>\<open>Utility\<close> (\<open>collector_utility.cpp\<close>): string splitting, the Horspool search for a keyword in a
    driver, configuration paths.
  \<^item> \<^verbatim>\<open>Annotate_Buffer\<close>, \<^verbatim>\<open>Annotate_Queue\<close>, \<^verbatim>\<open>Annotate_Sender\<close>, \<^verbatim>\<open>Annotate_Messages\<close>
    (\<open>streamline_annotate.cpp\<close>): the ring buffer with packed integers, the queue it implements (locale
    \<open>byte_queue\<close>, interpretation \<open>ringq\<close>), the sender thread, and every call of the interface.
    \<^verbatim>\<open>Annotate_Spec\<close>: the frame each call stands for. \<^verbatim>\<open>Annotate_Runs\<close>, \<^verbatim>\<open>Annotate_Stream\<close>,
    \<^verbatim>\<open>Annotate_Decode\<close>: calls return, sessions deliver their frames, frames decode to the arguments.
    \<^verbatim>\<open>Streamline\<close> (\<open>streamline.cpp\<close>): the collector on top of it.
  \<^item> \<^verbatim>\<open>Vulkan_Layer\<close>, \<^verbatim>\<open>Vulkan_Runs\<close> (\<open>vulkan_layer.cpp\<close>): configuration, dispatch tables, contexts of
    devices, frames, result files; which frames a run records.
  \<^item> \<^verbatim>\<open>Hwc_Names\<close> (\<open>hwc_names.hpp\<close>), \<^verbatim>\<open>Hwcpipe\<close> (\<open>hwcpipe.cpp\<close>), \<^verbatim>\<open>Mali_Counters\<close>
    (\<open>mali_counters.cpp\<close>): the counter tables, the reader, the collector; which GPU and which counter
    a number or name stands for, and what a run records.
  \<^item> \<^verbatim>\<open>Perf\<close>, \<^verbatim>\<open>Perf_Runs\<close> (\<open>perf.cpp\<close>, \<open>perf.hpp\<close>): groups of counters, the threads of the program,
    frames and scopes; what runs and scopes add up to and how the replay threads are summed.
  \<^item> \<^verbatim>\<open>Ferret_Stat\<close>, \<^verbatim>\<open>Ferret_Process\<close>, \<^verbatim>\<open>Ferret\<close> (\<open>ferret.cpp\<close>, \<open>ferret.hpp\<close>): the parser of stat files, the
    post-processing of a trace, the collector. \<^verbatim>\<open>Ferret_Load\<close>: the accounting of a thread;
    \<^verbatim>\<open>Ferret_Reader\<close>: reading a trace refines it; \<^verbatim>\<open>Ferret_Runs\<close>: descriptors (locale \<open>descriptors\<close>,
    interpretation \<open>table\<close>), status messages, the output directory.
  \<^item> \<^verbatim>\<open>Power_Daemon\<close>, \<^verbatim>\<open>Power_Collector\<close>, \<^verbatim>\<open>Power_Runs\<close> (\<open>power.cpp\<close>, \<open>power.hpp\<close>): the connection and its
    messages, the averages over the frames and the collector; the loops over the flat array refine a
    reference over rows, messages arrive whole, and what a lost byte and the lost configuration do.
  \<^item> \<^verbatim>\<open>Burrow\<close> (\<open>burrow.cpp\<close>): options, configuration, the run of a collection beside the threads of its
    collectors; what the ferret collector it configures monitors.

  \<^bold>\<open>Conventions.\<close> A call that can fail to return has type \<open>abort + 'a\<close>; the summand \<open>abort\<close> tells
  assertions, exceptions nobody catches, undefined behaviour, \<open>exit\<close> and waiting for ever apart.
  Virtual functions are fields of a record; an object is an extensible record whose extension holds
  the private fields of its class. What the operating system, a driver or a library outside the
  repository answers is an argument: a record of functions, or the answers of one call. A wait of
  the annotation library, or of the power collector for a message, is a recursion without a bound in the option monad, where \<open>None\<close> is a
  call that never returns; that calls return is proved as such. There is no fuel in the development;
  the constructor of the reader has the 1023 attempts of the source. Doubles are exact reals with infinities
  and NaN, so rounding is not modelled. Assertions are enabled, as in the default build.

  \<^bold>\<open>Not modelled.\<close> \<open>test.cpp\<close> and the scripts (programs around the library), the ioctl structures of
  \<open>hwc.hpp\<close> and \<open>perf_event.h\<close> (layouts of kernel interfaces, which have no operations), the branch of
  \<open>get_mali_hw_info\<close> that is compiled out, \<open>writeCSV\<close> and \<open>saveResultsFile\<close> of the perf collector
  (nothing calls them), log messages, and the build files. \<open>getopt\<close> is a parameter of \<open>burrow\<close>. The JSON
  library and the Vulkan headers are not in the repository.
\<close>

end
